(* ===== verification/Prelude.thy ===== *)
theory Prelude
  imports Main "HOL-Library.Sublist" "HOL-Library.AList" "HOL-Library.Char_ord"
    "HOL-Library.List_Lexorder" "HOL-Library.Multiset"
begin

text \<open>
  The prelude of the development: the Go notions every component uses.

  \<^item> Go strings are byte sequences; HOL's \<open>string\<close> is a list of 8-bit characters, so the two
    agree byte for byte. The operations of package \<open>strings\<close> and \<open>strconv\<close> that the source
    calls are defined here.
  \<^item> A Go pointer (or a nilable field) is an \<open>option\<close>: \<open>None\<close> is nil. Dereferencing nil
    panics, and so does slicing out of range; a computation that may panic has type
    \<open>'a go\<close>.
  \<^item> Go errors are values of \<open>go_error\<close>; \<open>None :: go_error option\<close> is the nil error.

  The lemma collections \<open>go_simps\<close> (the panic monad and its loops) and \<open>str_simps\<close>
  (strings) are what the component proofs pass to the simplifier.
\<close>

named_theorems go_simps "evaluation of computations that may panic"
named_theorems str_simps "facts about byte strings"

section \<open>Errors and panics\<close>

text \<open>
  \<open>ErrNew\<close> is \<open>errors.New\<close>; \<open>ErrWrap s e\<close> is \<open>fmt.Errorf\<close> with the formatted text
  \<open>s\<close> in front of a wrapped error \<open>e\<close> (the verb \<open>%w\<close>); \<open>ErrStack e\<close> is
  \<open>errors.WithStack\<close>; \<open>ErrRuntime\<close> is a run-time error of Go itself; \<open>ErrLib\<close> an
  error value that a library returned, with a tag that tells such values apart.
\<close>

datatype go_error =
    ErrNew string
  | ErrWrap string go_error
  | ErrStack go_error
  | ErrRuntime string
  | ErrLib string

datatype panicval = PanicString string | PanicError go_error | PanicOther

datatype 'a go = Ret 'a | Panic panicval

abbreviation nil_deref :: panicval where
  "nil_deref \<equiv> PanicError (ErrRuntime ''invalid memory address or nil pointer dereference'')"

abbreviation out_of_range :: panicval where
  "out_of_range \<equiv> PanicError (ErrRuntime ''slice bounds out of range'')"

fun go_bind :: "'a go \<Rightarrow> ('a \<Rightarrow> 'b go) \<Rightarrow> 'b go" where
  "go_bind (Ret x) f = f x"
| "go_bind (Panic p) f = Panic p"

definition deref :: "'a option \<Rightarrow> 'a go" where
  "deref p = (case p of None \<Rightarrow> Panic nil_deref | Some x \<Rightarrow> Ret x)"

fun panics :: "'a go \<Rightarrow> bool" where
  "panics (Ret x) = False"
| "panics (Panic p) = True"

lemma go_bind_assoc [go_simps]: "go_bind (go_bind m f) g = go_bind m (\<lambda>x. go_bind (f x) g)"
  by (cases m) simp_all

lemma go_bind_Ret [go_simps]: "go_bind m Ret = m"
  by (cases m) simp_all

lemma go_bind_eq_Ret:
  "go_bind m f = Ret y \<longleftrightarrow> (\<exists>x. m = Ret x \<and> f x = Ret y)"
  by (cases m) simp_all

lemma go_bind_eq_Panic:
  "go_bind m f = Panic p \<longleftrightarrow> m = Panic p \<or> (\<exists>x. m = Ret x \<and> f x = Panic p)"
  by (cases m) simp_all

lemma not_panics_iff: "\<not> panics m \<longleftrightarrow> (\<exists>x. m = Ret x)"
  by (cases m) simp_all

lemma panics_go_bind [go_simps]:
  "panics (go_bind m f) \<longleftrightarrow> (case m of Ret x \<Rightarrow> panics (f x) | Panic p \<Rightarrow> True)"
  by (cases m) simp_all

lemma deref_simps [go_simps]: "deref (Some x) = Ret x" "deref None = Panic nil_deref"
  by (simp_all add: deref_def)

lemma deref_eq_Ret [go_simps]: "deref p = Ret x \<longleftrightarrow> p = Some x"
  by (simp add: deref_def split: option.splits)

lemma panics_deref [go_simps]: "panics (deref p) \<longleftrightarrow> p = None"
  by (simp add: deref_def split: option.splits)

text \<open>A \<open>for \<dots> range\<close> loop whose body may panic and appends one result per element.\<close>

fun go_map :: "('a \<Rightarrow> 'b go) \<Rightarrow> 'a list \<Rightarrow> 'b list go" where
  "go_map f [] = Ret []"
| "go_map f (x # xs) = go_bind (f x) (\<lambda>y. go_bind (go_map f xs) (\<lambda>ys. Ret (y # ys)))"

lemma go_map_Ret: "(\<And>x. x \<in> set xs \<Longrightarrow> f x = Ret (g x)) \<Longrightarrow> go_map f xs = Ret (map g xs)"
  by (induction xs) simp_all

lemma go_map_eq_Ret: "go_map f xs = Ret ys \<longleftrightarrow> list_all2 (\<lambda>x y. f x = Ret y) xs ys"
proof (induction xs arbitrary: ys)
  case Nil
  then show ?case by auto
next
  case (Cons x xs)
  then show ?case
    by (cases ys) (auto simp: go_bind_eq_Ret)
qed

lemma go_map_length: "go_map f xs = Ret ys \<Longrightarrow> length ys = length xs"
  by (simp add: go_map_eq_Ret list_all2_lengthD)

lemma go_map_nth: "go_map f xs = Ret ys \<Longrightarrow> i < length xs \<Longrightarrow> f (xs ! i) = Ret (ys ! i)"
  by (simp add: go_map_eq_Ret list_all2_conv_all_nth)

lemma go_map_append:
  "go_map f (xs @ ys) = go_bind (go_map f xs) (\<lambda>us. go_bind (go_map f ys) (\<lambda>vs. Ret (us @ vs)))"
  by (induction xs) (simp_all add: go_simps)

lemma panics_go_map: "panics (go_map f xs) \<longleftrightarrow> (\<exists>x\<in>set xs. panics (f x))"
proof (induction xs)
  case (Cons x xs)
  then show ?case
    by (cases "f x"; cases "go_map f xs") auto
qed simp

text \<open>
  A function with results \<open>(T, error)\<close> that may also panic. The sum holds the error of an
  \<open>if err != nil { return \<dots>, err }\<close>, which ends the caller too.
\<close>

type_synonym 'a res = "(go_error + 'a) go"

abbreviation ok :: "'a \<Rightarrow> 'a res" where
  "ok x \<equiv> Ret (Inr x)"

abbreviation fail :: "go_error \<Rightarrow> 'a res" where
  "fail e \<equiv> Ret (Inl e)"

definition res_bind :: "'a res \<Rightarrow> ('a \<Rightarrow> 'b res) \<Rightarrow> 'b res" where
  "res_bind m f = go_bind m (\<lambda>r. case r of Inl e \<Rightarrow> fail e | Inr x \<Rightarrow> f x)"

lemma res_bind_simps [simp]:
  "res_bind (ok x) f = f x" "res_bind (fail e) f = fail e" "res_bind (Panic p) f = Panic p"
  by (simp_all add: res_bind_def)

lemma res_bind_eq_ok: "res_bind m f = ok y \<longleftrightarrow> (\<exists>x. m = ok x \<and> f x = ok y)"
  by (cases m) (auto simp: res_bind_def split: sum.splits)

lemma res_bind_eq_fail:
  "res_bind m f = fail e \<longleftrightarrow> m = fail e \<or> (\<exists>x. m = ok x \<and> f x = fail e)"
  by (cases m) (auto simp: res_bind_def split: sum.splits)

lemma panics_res_bind:
  "panics (res_bind m f) \<longleftrightarrow> panics m \<or> (\<exists>x. m = ok x \<and> panics (f x))"
  by (cases m) (auto simp: res_bind_def split: sum.splits)

fun res_map :: "('a \<Rightarrow> 'b res) \<Rightarrow> 'a list \<Rightarrow> 'b list res" where
  "res_map f [] = ok []"
| "res_map f (x # xs) = res_bind (f x) (\<lambda>y. res_bind (res_map f xs) (\<lambda>ys. ok (y # ys)))"

lemma res_map_eq_ok: "res_map f xs = ok ys \<longleftrightarrow> list_all2 (\<lambda>x y. f x = ok y) xs ys"
proof (induction xs arbitrary: ys)
  case Nil
  then show ?case by auto
next
  case (Cons x xs)
  then show ?case
    by (cases ys) (auto simp: res_bind_eq_ok)
qed

lemma res_map_length: "res_map f xs = ok ys \<Longrightarrow> length ys = length xs"
  by (simp add: res_map_eq_ok list_all2_lengthD)

lemma res_map_nth: "res_map f xs = ok ys \<Longrightarrow> i < length xs \<Longrightarrow> f (xs ! i) = ok (ys ! i)"
  by (simp add: res_map_eq_ok list_all2_conv_all_nth)

lemma res_map_no_panic: "(\<And>x. x \<in> set xs \<Longrightarrow> \<not> panics (f x)) \<Longrightarrow> \<not> panics (res_map f xs)"
  by (induction xs) (simp_all add: panics_res_bind)

text \<open>The loop stops at the first element whose body fails.\<close>

lemma res_map_eq_fail:
  "res_map f xs = fail e \<Longrightarrow> \<exists>x\<in>set xs. f x = fail e"
  by (induction xs) (auto simp: res_bind_eq_fail)

section \<open>Strings\<close>

text \<open>Package \<open>strings\<close>: \<open>Contains\<close>, \<open>HasPrefix\<close>, \<open>HasSuffix\<close>, \<open>TrimSuffix\<close>, \<open>Join\<close>.\<close>

definition str_Contains :: "string \<Rightarrow> string \<Rightarrow> bool" where
  "str_Contains s sub = list_ex (prefix sub) (suffixes s)"

definition str_HasPrefix :: "string \<Rightarrow> string \<Rightarrow> bool" where
  "str_HasPrefix s p = prefix p s"

definition str_HasSuffix :: "string \<Rightarrow> string \<Rightarrow> bool" where
  "str_HasSuffix s p = suffix p s"

definition str_TrimSuffix :: "string \<Rightarrow> string \<Rightarrow> string" where
  "str_TrimSuffix s p = (if str_HasSuffix s p then take (length s - length p) s else s)"

fun str_Join :: "string list \<Rightarrow> string \<Rightarrow> string" where
  "str_Join [] sep = []"
| "str_Join [x] sep = x"
| "str_Join (x # y # ys) sep = x @ sep @ str_Join (y # ys) sep"

lemma str_Contains_iff [str_simps]: "str_Contains s sub \<longleftrightarrow> sublist sub s"
  unfolding str_Contains_def list_ex_iff by (auto simp: sublist_altdef')

lemma str_HasPrefix_append [str_simps]: "str_HasPrefix (p @ s) p"
  by (simp add: str_HasPrefix_def)

lemma str_HasSuffix_append [str_simps]: "str_HasSuffix (s @ p) p"
  by (auto simp: str_HasSuffix_def suffix_def)

lemma str_TrimSuffix_append [str_simps]: "str_TrimSuffix (s @ p) p = s"
  by (simp add: str_TrimSuffix_def str_simps)

text \<open>
  \<open>strings.LastIndex(s, c)\<close> for a one-byte \<open>c\<close>: the position of its last occurrence, -1 when
  there is none. \<open>s[:i]\<close> and \<open>s[i:]\<close> panic when \<open>i\<close> is not between 0 and the length.
\<close>

definition str_LastIndex :: "string \<Rightarrow> char \<Rightarrow> int" where
  "str_LastIndex s c =
     (if c \<in> set s then int (length s) - 1 - int (length (takeWhile (\<lambda>d. d \<noteq> c) (rev s)))
      else -1)"

definition slice_upto :: "string \<Rightarrow> int \<Rightarrow> string go" where
  "slice_upto s i = (if 0 \<le> i \<and> i \<le> int (length s) then Ret (take (nat i) s) else Panic out_of_range)"

definition slice_from :: "string \<Rightarrow> int \<Rightarrow> string go" where
  "slice_from s i = (if 0 \<le> i \<and> i \<le> int (length s) then Ret (drop (nat i) s) else Panic out_of_range)"

lemma str_LastIndex_append [str_simps]:
  assumes "c \<notin> set t"
  shows "str_LastIndex (s @ c # t) c = int (length s)"
proof -
  have "takeWhile (\<lambda>d. d \<noteq> c) (rev t @ c # rev s) = rev t"
    using assms by (subst takeWhile_append2) auto
  then show ?thesis
    by (simp add: str_LastIndex_def)
qed

lemma str_LastIndex_none [str_simps]: "c \<notin> set s \<Longrightarrow> str_LastIndex s c = -1"
  by (simp add: str_LastIndex_def)

text \<open>Every string with the byte splits at its last occurrence, in one way only.\<close>

lemma split_last:
  assumes "c \<in> set s"
  obtains p t where "s = p @ c # t" and "c \<notin> set t"
  using assms by (meson split_list_last)

text \<open>
  \<open>strings.ReplaceAll\<close> for a one-byte pattern.
\<close>

definition str_ReplaceByte :: "string \<Rightarrow> char \<Rightarrow> string \<Rightarrow> string" where
  "str_ReplaceByte s c r = concat (map (\<lambda>d. if d = c then r else [d]) s)"

lemma str_ReplaceByte_simps [str_simps]:
  "str_ReplaceByte [] c r = []"
  "str_ReplaceByte (d # s) c r = (if d = c then r else [d]) @ str_ReplaceByte s c r"
  by (simp_all add: str_ReplaceByte_def)

text \<open>\<open>strconv.Itoa\<close> on the non-negative numbers it is called with.\<close>

fun itoa :: "nat \<Rightarrow> string" where
  "itoa n = (if n < 10 then [char_of (48 + n)] else itoa (n div 10) @ [char_of (48 + n mod 10)])"

declare itoa.simps [simp del]

text \<open>Reading the digits back, to show that \<open>itoa\<close> loses nothing.\<close>

definition atoi :: "string \<Rightarrow> nat" where
  "atoi s = foldl (\<lambda>n c. 10 * n + (of_char c - 48)) 0 s"

lemma atoi_itoa: "atoi (itoa n) = n"
proof (induction n rule: itoa.induct)
  case (1 n)
  show ?case
  proof (cases "n < 10")
    case True
    then show ?thesis by (simp add: itoa.simps [of n] atoi_def)
  next
    case False
    have "atoi (itoa n) = 10 * atoi (itoa (n div 10)) + n mod 10"
      using False by (simp add: itoa.simps [of n] atoi_def)
    also have "\<dots> = n" using 1 False by simp
    finally show ?thesis .
  qed
qed

lemma itoa_inject [str_simps]: "itoa m = itoa n \<longleftrightarrow> m = n"
  by (metis atoi_itoa)

end
