(* ===== verification/NetURL.thy ===== *)
theory NetURL
  imports Prelude
begin

text \<open>
  The parts of Go's \<open>net/url\<close> and \<open>path\<close> that the operator calls on base URLs: percent
  encoding, \<open>path.Clean\<close>, \<open>path.Join\<close>, and the methods \<open>EscapedPath\<close>, \<open>JoinPath\<close>,
  \<open>String\<close> and \<open>Hostname\<close> of \<open>url.URL\<close>. Nothing here is mapped to the repository; the
  definitions follow the standard library, byte by byte, on HOL strings.

  The lemmas show what the operator relies on: decoding inverts encoding, joining changes the path
  and nothing else, and on a path made of plain segments joining appends exactly the new segments.
\<close>

named_theorems url_simps "facts about URLs and paths"

section \<open>The URL structure\<close>

record userinfo =
  ui_Username :: string
  ui_Password :: "string option"

record url =
  url_Scheme :: string
  url_Opaque :: string
  url_User :: "userinfo option"
  url_Host :: string
  url_Path :: string
  url_RawPath :: string
  url_OmitHost :: bool
  url_ForceQuery :: bool
  url_RawQuery :: string
  url_Fragment :: string
  url_RawFragment :: string

section \<open>Percent encoding\<close>

datatype encoding = encodePath | encodeHost | encodeUserPassword | encodeFragment

definition alphanum :: "char \<Rightarrow> bool" where
  "alphanum c \<longleftrightarrow> (CHR ''a'' \<le> c \<and> c \<le> CHR ''z'') \<or> (CHR ''A'' \<le> c \<and> c \<le> CHR ''Z'') \<or>
     (CHR ''0'' \<le> c \<and> c \<le> CHR ''9'')"

definition shouldEscape :: "char \<Rightarrow> encoding \<Rightarrow> bool" where
  "shouldEscape c mode =
     (if alphanum c then False
      else if mode = encodeHost \<and> (c \<in> set ''!$&()*+,;=:[]<>'' \<or> c = CHR 0x27 \<or> c = CHR 0x22) then False
      else if c \<in> set ''-_.~'' then False
      else if c \<in> set ''$&+,/:;=?@'' then
        (case mode of
           encodePath \<Rightarrow> c = CHR ''?''
         | encodeUserPassword \<Rightarrow> c \<in> set ''@/?:''
         | encodeFragment \<Rightarrow> False
         | encodeHost \<Rightarrow> True)
      else if mode = encodeFragment \<and> c \<in> set ''!()*'' then False
      else True)"

definition upperhex :: "nat \<Rightarrow> char" where
  "upperhex n = char_of (if n < 10 then 48 + n else 55 + n)"

definition ishex :: "char \<Rightarrow> bool" where
  "ishex c \<longleftrightarrow> (CHR ''0'' \<le> c \<and> c \<le> CHR ''9'') \<or> (CHR ''a'' \<le> c \<and> c \<le> CHR ''f'') \<or>
     (CHR ''A'' \<le> c \<and> c \<le> CHR ''F'')"

definition unhex :: "char \<Rightarrow> nat" where
  "unhex c =
     (if CHR ''0'' \<le> c \<and> c \<le> CHR ''9'' then of_char c - 48
      else if CHR ''a'' \<le> c \<and> c \<le> CHR ''f'' then of_char c - 87
      else if CHR ''A'' \<le> c \<and> c \<le> CHR ''F'' then of_char c - 55
      else 0)"

definition escapeByte :: "encoding \<Rightarrow> char \<Rightarrow> string" where
  "escapeByte mode c =
     (if shouldEscape c mode
      then [CHR ''%'', upperhex (of_char c div 16), upperhex (of_char c mod 16)] else [c])"

definition escape :: "string \<Rightarrow> encoding \<Rightarrow> string" where
  "escape s mode = concat (map (escapeByte mode) s)"

text \<open>Decoding outside the host part: \<open>None\<close> is the error for a malformed escape.\<close>

fun unescape :: "string \<Rightarrow> string option" where
  "unescape [] = Some []"
| "unescape (c # s) =
     (if c = CHR ''%'' then
        (case s of
           a # b # r \<Rightarrow>
             if ishex a \<and> ishex b
             then map_option ((#) (char_of (16 * unhex a + unhex b))) (unescape r) else None
         | _ \<Rightarrow> None)
      else map_option ((#) c) (unescape s))"

definition validEncoded :: "string \<Rightarrow> encoding \<Rightarrow> bool" where
  "validEncoded s mode =
     list_all (\<lambda>c. c \<in> set ''!$&()*+,;=:@[]%'' \<or> c = CHR 0x27 \<or> \<not> shouldEscape c mode) s"

lemma upperhex_ishex [url_simps]:
  assumes "n < 16"
  shows "ishex (upperhex n)" and "unhex (upperhex n) = n"
proof -
  have "\<forall>n\<in>set [0..<16]. ishex (upperhex n) \<and> unhex (upperhex n) = n"
    by code_simp
  then show "ishex (upperhex n)" and "unhex (upperhex n) = n"
    using assms by simp_all
qed

lemma percent_escaped [url_simps]: "shouldEscape (CHR ''%'') mode"
  by (cases mode) (simp_all add: shouldEscape_def alphanum_def less_eq_char_def)

lemma unescape_escapeByte: "unescape (escapeByte mode c @ s) = map_option ((#) c) (unescape s)"
proof (cases "shouldEscape c mode")
  case True
  have hi: "(of_char c :: nat) div 16 < 16"
    by (rule less_mult_imp_div_less) simp
  have lo: "(of_char c :: nat) mod 16 < 16" by simp
  show ?thesis
    using True by (simp add: escapeByte_def upperhex_ishex [OF hi] upperhex_ishex [OF lo])
next
  case False
  then have "c \<noteq> CHR ''%''" using percent_escaped by auto
  with False show ?thesis by (simp add: escapeByte_def)
qed

lemma unescape_escape [url_simps]: "unescape (escape s mode) = Some s"
  by (induction s) (simp_all add: escape_def unescape_escapeByte)

lemma escape_safe: "list_all (\<lambda>c. \<not> shouldEscape c mode) s \<Longrightarrow> escape s mode = s"
  by (induction s) (simp_all add: escape_def escapeByte_def)

lemma unescape_safe: "CHR ''%'' \<notin> set s \<Longrightarrow> unescape s = Some s"
  by (induction s) auto

section \<open>Package path\<close>

fun split_on :: "char \<Rightarrow> string \<Rightarrow> string list" where
  "split_on c [] = [[]]"
| "split_on c (d # s) =
     (if d = c then [] # split_on c s
      else (case split_on c s of [] \<Rightarrow> [[d]] | t # ts \<Rightarrow> (d # t) # ts))"

abbreviation slash :: char where "slash \<equiv> CHR ''/''"

text \<open>
  \<open>path.Clean\<close> reads the path element by element and keeps the elements of the result on a
  stack: empty elements and \<open>.\<close> are dropped, \<open>..\<close> removes the element before it, is dropped at
  the root and kept at the start of a relative path.
\<close>

fun clean_push :: "bool \<Rightarrow> string list \<Rightarrow> string \<Rightarrow> string list" where
  "clean_push rooted st seg =
     (if seg = [] \<or> seg = ''.'' then st
      else if seg = ''..'' then
        (case st of
           t # ts \<Rightarrow> if t \<noteq> ''..'' then ts else if rooted then st else seg # st
         | [] \<Rightarrow> if rooted then [] else [seg])
      else seg # st)"

definition path_Clean :: "string \<Rightarrow> string" where
  "path_Clean p =
     (if p = [] then ''.''
      else let rooted = (hd p = slash);
               body = str_Join (rev (foldl (clean_push rooted) [] (split_on slash p))) [slash]
           in if rooted then slash # body else if body = [] then ''.'' else body)"

definition path_Join :: "string list \<Rightarrow> string" where
  "path_Join elems =
     (if list_all (\<lambda>e. e = []) elems then []
      else path_Clean (str_Join (dropWhile (\<lambda>e. e = []) elems) [slash]))"

section \<open>Methods of url.URL\<close>

definition EscapedPath :: "url \<Rightarrow> string" where
  "EscapedPath u =
     (if url_RawPath u \<noteq> [] \<and> validEncoded (url_RawPath u) encodePath \<and>
         unescape (url_RawPath u) = Some (url_Path u) then url_RawPath u
      else if url_Path u = ''*'' then ''*''
      else escape (url_Path u) encodePath)"

definition EscapedFragment :: "url \<Rightarrow> string" where
  "EscapedFragment u =
     (if url_RawFragment u \<noteq> [] \<and> validEncoded (url_RawFragment u) encodeFragment \<and>
         unescape (url_RawFragment u) = Some (url_Fragment u) then url_RawFragment u
      else escape (url_Fragment u) encodeFragment)"

text \<open>\<open>setPath\<close> leaves the URL as it is when the path holds a malformed escape.\<close>

definition setPath :: "url \<Rightarrow> string \<Rightarrow> url" where
  "setPath u p =
     (case unescape p of
        None \<Rightarrow> u
      | Some d \<Rightarrow> u\<lparr>url_Path := d, url_RawPath := (if p = escape d encodePath then [] else p)\<rparr>)"

definition JoinPath :: "url \<Rightarrow> string list \<Rightarrow> url" where
  "JoinPath u elem =
     (let base = EscapedPath u;
          p = (if str_HasPrefix base [slash] then path_Join (base # elem)
               else drop 1 (path_Join ((slash # base) # elem)));
          p' = (if str_HasSuffix (last (base # elem)) [slash] \<and> \<not> str_HasSuffix p [slash]
                then p @ [slash] else p)
      in setPath u p')"

definition userinfo_String :: "userinfo \<Rightarrow> string" where
  "userinfo_String ui =
     escape (ui_Username ui) encodeUserPassword @
     (case ui_Password ui of None \<Rightarrow> [] | Some pw \<Rightarrow> '':'' @ escape pw encodeUserPassword)"

definition url_String :: "url \<Rightarrow> string" where
  "url_String u =
     (let scheme = (if url_Scheme u \<noteq> [] then url_Scheme u @ '':'' else []);
          authority =
            (if url_Scheme u = [] \<and> url_Host u = [] \<and> url_User u = None then []
             else if url_OmitHost u \<and> url_Host u = [] \<and> url_User u = None then []
             else (if url_Host u \<noteq> [] \<or> url_Path u \<noteq> [] \<or> url_User u \<noteq> None then ''//'' else []) @
                  (case url_User u of None \<Rightarrow> [] | Some ui \<Rightarrow> userinfo_String ui @ ''@'') @
                  (if url_Host u \<noteq> [] then escape (url_Host u) encodeHost else []));
          path = EscapedPath u;
          lead = (if path \<noteq> [] \<and> hd path \<noteq> slash \<and> url_Host u \<noteq> [] then [slash] else []);
          dot = (if scheme @ authority @ lead = [] \<and> CHR '':'' \<in> set (hd (split_on slash path))
                 then ''./'' else [])
      in scheme @
         (if url_Opaque u \<noteq> [] then url_Opaque u else authority @ lead @ dot @ path) @
         (if url_ForceQuery u \<or> url_RawQuery u \<noteq> [] then ''?'' @ url_RawQuery u else []) @
         (if url_Fragment u \<noteq> [] then ''#'' @ EscapedFragment u else []))"

text \<open>\<open>Hostname\<close> strips a numeric port and the brackets of an IPv6 address.\<close>

definition validOptionalPort :: "string \<Rightarrow> bool" where
  "validOptionalPort port =
     (case port of
        [] \<Rightarrow> True
      | c # ds \<Rightarrow> c = CHR '':'' \<and> list_all (\<lambda>d. CHR ''0'' \<le> d \<and> d \<le> CHR ''9'') ds)"

definition Hostname :: "url \<Rightarrow> string" where
  "Hostname u =
     (let host = url_Host u;
          colon = str_LastIndex host (CHR '':'');
          h = (if colon \<noteq> -1 \<and> validOptionalPort (drop (nat colon) host)
               then take (nat colon) host else host)
      in if str_HasPrefix h ''['' \<and> str_HasSuffix h '']'' then take (length h - 2) (drop 1 h) else h)"

section \<open>Joining changes the path only\<close>

lemma setPath_frame [url_simps]:
  "url_Scheme (setPath u p) = url_Scheme u"
  "url_Opaque (setPath u p) = url_Opaque u"
  "url_User (setPath u p) = url_User u"
  "url_Host (setPath u p) = url_Host u"
  "url_RawQuery (setPath u p) = url_RawQuery u"
  "url_Fragment (setPath u p) = url_Fragment u"
  by (simp_all add: setPath_def split: option.split)

lemma JoinPath_frame [url_simps]:
  "url_Scheme (JoinPath u es) = url_Scheme u"
  "url_Opaque (JoinPath u es) = url_Opaque u"
  "url_User (JoinPath u es) = url_User u"
  "url_Host (JoinPath u es) = url_Host u"
  "url_RawQuery (JoinPath u es) = url_RawQuery u"
  "url_Fragment (JoinPath u es) = url_Fragment u"
  by (simp_all add: JoinPath_def Let_def url_simps)

lemma Hostname_JoinPath [url_simps]: "Hostname (JoinPath u es) = Hostname u"
  by (simp add: Hostname_def url_simps)

section \<open>Paths made of plain segments\<close>

definition plain_segment :: "string \<Rightarrow> bool" where
  "plain_segment s \<longleftrightarrow> s \<noteq> [] \<and> s \<noteq> ''.'' \<and> s \<noteq> ''..'' \<and> slash \<notin> set s \<and>
     list_all (\<lambda>c. \<not> shouldEscape c encodePath) s"

definition abs_path :: "string list \<Rightarrow> string" where
  "abs_path segs = concat (map ((#) slash) segs)"

text \<open>The base URLs the operator is meant for: an absolute path of plain segments.\<close>

definition plain_url :: "url \<Rightarrow> string list \<Rightarrow> bool" where
  "plain_url u segs \<longleftrightarrow> segs \<noteq> [] \<and> list_all plain_segment segs \<and>
     url_Path u = abs_path segs \<and> url_RawPath u = []"

lemma abs_path_simps [url_simps]:
  "abs_path [] = []"
  "abs_path (s # ss) = slash # s @ abs_path ss"
  "abs_path (ss @ ts) = abs_path ss @ abs_path ts"
  by (simp_all add: abs_path_def)

lemma split_on_nonempty [simp]: "split_on c s \<noteq> []"
  by (cases s) (auto split: list.split)

lemma split_on_append_sep: "c \<notin> set s \<Longrightarrow> split_on c (s @ c # t) = s # split_on c t"
  by (induction s) (auto split: list.split)

lemma split_on_no_sep: "c \<notin> set s \<Longrightarrow> split_on c s = [s]"
  by (induction s) auto

lemma split_on_segments:
  assumes "list_all (\<lambda>s. slash \<notin> set s) segs" and "slash \<notin> set s"
  shows "split_on slash (s @ abs_path segs) = s # segs"
  using assms
  by (induction segs arbitrary: s) (simp_all add: url_simps split_on_append_sep split_on_no_sep)

lemma split_on_segments_slash:
  assumes "list_all (\<lambda>s. slash \<notin> set s) segs" and "slash \<notin> set s"
  shows "split_on slash (s @ abs_path segs @ [slash]) = s # segs @ [[]]"
  using assms
  by (induction segs arbitrary: s) (simp_all add: url_simps split_on_append_sep)

lemma foldl_clean_plain:
  "list_all plain_segment segs \<Longrightarrow> foldl (clean_push r) st segs = rev segs @ st"
  by (induction segs arbitrary: st) (auto simp: plain_segment_def)

lemma abs_path_Join: "segs \<noteq> [] \<Longrightarrow> slash # str_Join segs [slash] = abs_path segs"
  by (induction segs "[slash]" rule: str_Join.induct) (auto simp: url_simps)

lemma plain_no_slash: "list_all plain_segment segs \<Longrightarrow> list_all (\<lambda>s. slash \<notin> set s) segs"
  by (induction segs) (auto simp: plain_segment_def)

lemma Clean_abs_path:
  assumes "list_all plain_segment segs" and "segs \<noteq> []"
  shows "path_Clean (abs_path segs) = abs_path segs"
    and "path_Clean (abs_path segs @ [slash]) = abs_path segs"
proof -
  obtain s ss where segs: "segs = s # ss" using assms(2) by (cases segs) auto
  have hd: "hd (abs_path segs) = slash" "abs_path segs \<noteq> []"
    by (simp_all add: segs url_simps)
  show "path_Clean (abs_path segs) = abs_path segs"
    using split_on_segments [OF plain_no_slash [OF assms(1)], of "[]"] assms hd
    by (simp add: path_Clean_def Let_def foldl_clean_plain abs_path_Join)
  show "path_Clean (abs_path segs @ [slash]) = abs_path segs"
    using split_on_segments_slash [OF plain_no_slash [OF assms(1)], of "[]"] assms hd
    by (simp add: path_Clean_def Let_def foldl_clean_plain abs_path_Join)
qed

lemma abs_path_safe:
  "list_all plain_segment segs \<Longrightarrow> list_all (\<lambda>c. \<not> shouldEscape c encodePath) (abs_path segs)"
proof (induction segs)
  case (Cons s ss)
  have "\<not> shouldEscape slash encodePath"
    by (simp add: shouldEscape_def alphanum_def less_eq_char_def)
  with Cons show ?case by (simp add: url_simps plain_segment_def)
qed (simp add: url_simps)

lemma path_safe_decode:
  assumes "list_all (\<lambda>c. \<not> shouldEscape c encodePath) p"
  shows "escape p encodePath = p" and "unescape p = Some p"
proof -
  show "escape p encodePath = p" by (rule escape_safe [OF assms])
  have "CHR ''%'' \<notin> set p"
    using assms percent_escaped by (auto simp: list_all_iff)
  then show "unescape p = Some p" by (rule unescape_safe)
qed

lemma setPath_safe:
  assumes "list_all (\<lambda>c. \<not> shouldEscape c encodePath) p"
  shows "setPath u p = u\<lparr>url_Path := p, url_RawPath := []\<rparr>"
  using path_safe_decode [OF assms] by (simp add: setPath_def)

lemma EscapedPath_plain:
  assumes "plain_url u segs"
  shows "EscapedPath u = abs_path segs"
proof -
  have "url_Path u \<noteq> ''*''"
    using assms by (cases segs) (auto simp: plain_url_def url_simps)
  then show ?thesis
    using assms path_safe_decode(1) [OF abs_path_safe, of segs]
    by (simp add: EscapedPath_def plain_url_def)
qed

lemma str_Join_abs_path:
  "segs \<noteq> [] \<Longrightarrow> str_Join (abs_path segs # es) [slash] = abs_path (segs @ es)"
proof (induction es arbitrary: segs)
  case Nil
  then show ?case by (simp add: url_simps)
next
  case (Cons e es)
  have "str_Join (e # es) [slash] = drop 1 (abs_path (e # es))"
    using abs_path_Join [of "e # es"] by (metis drop0 drop_Suc_Cons list.discI One_nat_def)
  then show ?case by (simp add: url_simps)
qed

lemma plain_last_no_slash:
  "list_all plain_segment ss \<Longrightarrow> ss \<noteq> [] \<Longrightarrow> \<not> suffix [slash] (last ss)"
  by (induction ss) (auto simp: plain_segment_def suffix_def)

lemma suffix_single: "suffix [c] xs \<longleftrightarrow> xs \<noteq> [] \<and> last xs = c"
  by (cases xs rule: rev_cases) (auto simp: suffix_def)

text \<open>
  Joining plain elements to a plain URL appends them as path segments; a trailing slash of the
  last element is kept.
\<close>

lemma JoinPath_plain:
  assumes u: "plain_url u segs" and es: "list_all plain_segment es" "es \<noteq> []"
  shows "JoinPath u es = u\<lparr>url_Path := abs_path (segs @ es), url_RawPath := []\<rparr>"
proof -
  have segs: "segs \<noteq> []" "list_all plain_segment (segs @ es)"
    using u es by (simp_all add: plain_url_def)
  have nonempty: "abs_path segs \<noteq> []" and pre: "prefix [slash] (abs_path segs)"
    using segs(1) by (cases segs; simp add: url_simps)+
  have "path_Join (abs_path segs # es) = abs_path (segs @ es)"
    using nonempty segs Clean_abs_path(1) [OF segs(2)]
    by (simp add: path_Join_def str_Join_abs_path)
  moreover have "\<not> suffix [slash] (last (abs_path segs # es))"
    using es plain_last_no_slash by simp
  ultimately show ?thesis
    using pre setPath_safe [OF abs_path_safe [OF segs(2)]]
    by (simp add: JoinPath_def EscapedPath_plain [OF u] str_HasPrefix_def str_HasSuffix_def)
qed

lemma JoinPath_plain_slash:
  assumes u: "plain_url u segs" and e: "plain_segment e"
  shows "JoinPath u [e @ [slash]] =
    u\<lparr>url_Path := abs_path (segs @ [e]) @ [slash], url_RawPath := []\<rparr>"
proof -
  have segs: "segs \<noteq> []" "list_all plain_segment (segs @ [e])"
    using u e by (simp_all add: plain_url_def)
  have nonempty: "abs_path segs \<noteq> []" and pre: "prefix [slash] (abs_path segs)"
    using segs(1) by (cases segs; simp add: url_simps)+
  have joined: "str_Join [abs_path segs, e @ [slash]] [slash] = abs_path (segs @ [e]) @ [slash]"
    by (simp add: url_simps)
  have p: "path_Join [abs_path segs, e @ [slash]] = abs_path (segs @ [e])"
    using nonempty Clean_abs_path(2) [OF segs(2)]
    by (simp add: path_Join_def joined del: str_Join.simps)
  have "e \<noteq> []" "last e \<noteq> slash"
    using e last_in_set by (fastforce simp: plain_segment_def)+
  then have no: "\<not> suffix [slash] (abs_path (segs @ [e]))"
    by (simp add: url_simps suffix_single)
  have safe: "list_all (\<lambda>c. \<not> shouldEscape c encodePath) (abs_path (segs @ [e]) @ [slash])"
    using abs_path_safe [OF segs(2)]
    by (simp add: shouldEscape_def [of slash] alphanum_def less_eq_char_def)
  show ?thesis
    using pre p no setPath_safe [OF safe, of u]
    by (simp add: JoinPath_def EscapedPath_plain [OF u] str_HasPrefix_def str_HasSuffix_def
        suffix_single)
qed

lemma url_String_plain:
  assumes "plain_url u segs" and "url_Scheme u \<noteq> []" and "url_Opaque u = []"
    and "url_Host u \<noteq> []" and "url_User u = None" and "\<not> url_ForceQuery u"
    and "url_RawQuery u = []" and "url_Fragment u = []"
  shows "url_String u = url_Scheme u @ ''://'' @ escape (url_Host u) encodeHost @ abs_path segs"
proof -
  have "hd (abs_path segs) = slash"
    using assms(1) by (cases segs) (auto simp: plain_url_def url_simps)
  then show ?thesis
    using assms EscapedPath_plain [OF assms(1)] by (simp add: url_String_def)
qed

text \<open>
  A malformed percent escape in a joined element is dropped silently: the URL does not change.
\<close>

lemma setPath_malformed: "unescape p = None \<Longrightarrow> setPath u p = u"
  by (simp add: setPath_def)

end
