(* ===== verification/ApiV3.thy ===== *)
theory ApiV3
  imports NetURL "HOL-Library.Word"
begin

text \<open>
  The hub version of the Atom resource, \<open>api/v3/atom_types.go\<close>: its data model, the package
  variables set at start-up, and the methods on download links.

  A nilable field of the Go structs is an \<open>option\<close>. A slice whose nil-ness the code tests
  (\<open>IngressRouteURLs\<close>) is an \<open>option\<close> of a list; the others are lists. The type
  \<open>smoothoperatormodel.URL\<close> embeds a pointer to \<open>url.URL\<close>, so it is a \<open>url option\<close>, and a
  method call on a nil one panics. The status subresource is not part of the record: only the
  status library touches it.

  The main results: splitting \<open>Data\<close> into blob prefix and blob name loses nothing and panics
  exactly when the key has no slash.
\<close>

section \<open>Types of the libraries that the resource is built from\<close>

type_synonym labels = "string \<rightharpoonup> string"

record TypeMeta =
  tm_Kind :: string
  tm_APIVersion :: string

record OwnerReference =
  or_Kind :: string
  or_Name :: string
  or_UID :: string
  or_Controller :: "bool option"

text \<open>Instants of time are nanoseconds since the Unix epoch.\<close>

record ObjectMeta =
  om_Name :: string
  om_Namespace :: string
  om_UID :: string
  om_CreationTimestamp :: int
  om_Labels :: labels
  om_Annotations :: labels
  om_OwnerReferences :: "OwnerReference list"

text \<open>A \<open>metav1.Time\<close>: an instant and the offset of its location, in seconds east of UTC.\<close>

record Time =
  time_UnixNano :: int
  time_Offset :: int

type_synonym URL = "url option"

record Lifecycle =
  lc_TTLInDays :: "32 word option"

record IngressRouteURL =
  iru_URL :: URL

record Author =
  au_Name :: string
  au_Email :: string

record BBox =
  bb_MinX :: string
  bb_MinY :: string
  bb_MaxX :: string
  bb_MaxY :: string

section \<open>The Atom resource\<close>

record DownloadLink =
  dl_Data :: string
  dl_Rel :: "string option"
  dl_Time :: "string option"
  dl_BBox :: "BBox option"

record Polygon =
  pg_BBox :: BBox

record SRS =
  srs_URI :: URL
  srs_Name :: string

record Entry =
  en_TechnicalName :: string
  en_Title :: "string option"
  en_Content :: "string option"
  en_DownloadLinks :: "DownloadLink list"
  en_Updated :: Time
  en_Polygon :: Polygon
  en_SRS :: SRS

record MetadataLink =
  ml_MetadataIdentifier :: string
  ml_Templates :: "string list"

record Link =
  ln_Href :: URL
  ln_Rel :: string
  ln_Type :: string
  ln_Hreflang :: "string option"
  ln_Title :: "string option"

record DatasetFeed =
  df_TechnicalName :: string
  df_Title :: string
  df_Subtitle :: string
  df_DatasetMetadataLinks :: "MetadataLink option"
  df_Links :: "Link list"
  df_Author :: Author
  df_SpatialDatasetIdentifierCode :: "string option"
  df_SpatialDatasetIdentifierNamespace :: "string option"
  df_Entries :: "Entry list"

record Service =
  sv_BaseURL :: URL
  sv_Lang :: string
  sv_Stylesheet :: "URL option"
  sv_Title :: string
  sv_Subtitle :: string
  sv_OwnerInfoRef :: string
  sv_ServiceMetadataLinks :: "MetadataLink option"
  sv_Links :: "Link list"
  sv_Rights :: string
  sv_DatasetFeeds :: "DatasetFeed list"

record AtomSpec =
  as_Lifecycle :: "Lifecycle option"
  as_IngressRouteURLs :: "IngressRouteURL list option"
  as_Service :: Service

record Atom =
  at_TypeMeta :: TypeMeta
  at_ObjectMeta :: ObjectMeta
  at_Spec :: AtomSpec

text \<open>Reading a possibly nil slice: \<open>len\<close> and \<open>range\<close> treat nil as empty.\<close>

definition slice :: "'a list option \<Rightarrow> 'a list" where
  "slice xs = (case xs of None \<Rightarrow> [] | Some ys \<Rightarrow> ys)"

lemma slice_simps [go_simps, simp]: "slice None = []" "slice (Some xs) = xs"
  by (simp_all add: slice_def)

text \<open>Field paths that the code spells out at every use.\<close>

abbreviation at_Service :: "Atom \<Rightarrow> Service" where
  "at_Service a \<equiv> as_Service (at_Spec a)"

abbreviation at_Name :: "Atom \<Rightarrow> string" where
  "at_Name a \<equiv> om_Name (at_ObjectMeta a)"

abbreviation at_Namespace :: "Atom \<Rightarrow> string" where
  "at_Namespace a \<equiv> om_Namespace (at_ObjectMeta a)"

abbreviation at_Labels :: "Atom \<Rightarrow> labels" where
  "at_Labels a \<equiv> om_Labels (at_ObjectMeta a)"

abbreviation at_DatasetFeeds :: "Atom \<Rightarrow> DatasetFeed list" where
  "at_DatasetFeeds a \<equiv> sv_DatasetFeeds (at_Service a)"

section \<open>Package variables\<close>

record api_vars =
  av_baseURL :: string
  av_blobEndpoint :: string

definition SetBaseURL :: "string \<Rightarrow> api_vars \<Rightarrow> api_vars" where
  "SetBaseURL atomBaseURL v = v\<lparr>av_baseURL := str_TrimSuffix atomBaseURL ''/''\<rparr>"

definition GetBaseURL :: "api_vars \<Rightarrow> string" where
  "GetBaseURL v = av_baseURL v"

definition SetBlobEndpoint :: "string \<Rightarrow> api_vars \<Rightarrow> api_vars" where
  "SetBlobEndpoint atomBlobEndpoint v = v\<lparr>av_blobEndpoint := atomBlobEndpoint\<rparr>"

definition GetBlobEndpoint :: "api_vars \<Rightarrow> string" where
  "GetBlobEndpoint v = av_blobEndpoint v"

section \<open>Download links\<close>

definition GetDownloadLinks :: "Atom \<Rightarrow> DownloadLink list" where
  "GetDownloadLinks a =
     concat (map (\<lambda>datasetFeed. concat (map en_DownloadLinks (df_Entries datasetFeed)))
       (at_DatasetFeeds a))"

definition GetBlobPrefix :: "DownloadLink \<Rightarrow> string go" where
  "GetBlobPrefix dl = (let index = str_LastIndex (dl_Data dl) slash in slice_upto (dl_Data dl) index)"

definition GetBlobName :: "DownloadLink \<Rightarrow> string go" where
  "GetBlobName dl = (let index = str_LastIndex (dl_Data dl) slash + 1 in slice_from (dl_Data dl) index)"

text \<open>The blob key of a link has a slash: what the CRD's pattern for \<open>data\<close> asks for, at least.\<close>

definition has_blob_key :: "DownloadLink \<Rightarrow> bool" where
  "has_blob_key dl \<longleftrightarrow> slash \<in> set (dl_Data dl)"

text \<open>The parts of a key with a slash, as the two methods return them.\<close>

definition blob_prefix :: "DownloadLink \<Rightarrow> string" where
  "blob_prefix dl = take (length (dl_Data dl) - 1 - length (takeWhile (\<lambda>d. d \<noteq> slash) (rev (dl_Data dl)))) (dl_Data dl)"

definition blob_name :: "DownloadLink \<Rightarrow> string" where
  "blob_name dl = rev (takeWhile (\<lambda>d. d \<noteq> slash) (rev (dl_Data dl)))"

lemma blob_parts_append:
  assumes "dl_Data dl = p @ slash # t" and "slash \<notin> set t"
  shows "blob_prefix dl = p" and "blob_name dl = t"
    and "GetBlobPrefix dl = Ret p" and "GetBlobName dl = Ret t"
proof -
  have tw: "takeWhile (\<lambda>d. d \<noteq> slash) (rev t @ slash # rev p) = rev t"
    using assms(2) by (subst takeWhile_append2) auto
  show "blob_prefix dl = p" "blob_name dl = t"
    by (simp_all add: blob_prefix_def blob_name_def assms(1) tw)
  show "GetBlobPrefix dl = Ret p" "GetBlobName dl = Ret t"
    by (simp_all add: GetBlobPrefix_def GetBlobName_def Let_def assms(1)
        str_LastIndex_append [OF assms(2)] slice_upto_def slice_from_def nat_add_distrib)
qed

lemma blob_parts:
  assumes "has_blob_key dl"
  shows "GetBlobPrefix dl = Ret (blob_prefix dl)" and "GetBlobName dl = Ret (blob_name dl)"
    and "dl_Data dl = blob_prefix dl @ slash # blob_name dl" and "slash \<notin> set (blob_name dl)"
proof -
  obtain p t where d: "dl_Data dl = p @ slash # t" and t: "slash \<notin> set t"
    using assms unfolding has_blob_key_def by (rule split_last)
  note parts = blob_parts_append [OF d t]
  show "GetBlobPrefix dl = Ret (blob_prefix dl)" "GetBlobName dl = Ret (blob_name dl)"
    "dl_Data dl = blob_prefix dl @ slash # blob_name dl" "slash \<notin> set (blob_name dl)"
    using d t by (simp_all add: parts)
qed

lemma GetBlobPrefix_panics: "panics (GetBlobPrefix dl) \<longleftrightarrow> \<not> has_blob_key dl"
proof (cases "has_blob_key dl")
  case True
  then show ?thesis by (simp add: blob_parts(1))
next
  case False
  then show ?thesis
    by (simp add: GetBlobPrefix_def has_blob_key_def str_simps slice_upto_def)
qed

lemma GetBlobName_no_key: "\<not> has_blob_key dl \<Longrightarrow> GetBlobName dl = Ret (dl_Data dl)"
  by (simp add: GetBlobName_def has_blob_key_def str_simps slice_from_def)

lemma GetBlobName_total: "\<not> panics (GetBlobName dl)"
  by (cases "has_blob_key dl") (simp_all add: blob_parts(2) GetBlobName_no_key)

lemma set_GetDownloadLinks:
  "dl \<in> set (GetDownloadLinks a) \<longleftrightarrow>
     (\<exists>f\<in>set (at_DatasetFeeds a). \<exists>e\<in>set (df_Entries f). dl \<in> set (en_DownloadLinks e))"
  by (simp add: GetDownloadLinks_def)

end
