(* ===== verification/Kube.thy ===== *)
theory Kube
  imports ApiV3
begin

text \<open>
  The Kubernetes side of the controller: the objects it manages, reduced to the fields the
  source sets, the library functions it calls on them (the record \<open>libs\<close>, a parameter of
  every definition that uses one), the constants and label functions of
  \<open>internal/controller/atom_controller.go\<close>, and the tail that all mutate functions share.

  The locale \<open>object_mutation\<close> is the contract of a mutate function as
  \<open>controllerutil.CreateOrUpdate\<close> needs it: it keeps the object's key, gives the object the
  Atom's labels, and a second run changes nothing. The theories of the single objects interpret it.
\<close>

section \<open>Objects\<close>

datatype kind =
    ConfigMapKind | DeploymentKind | ServiceKind | MiddlewareKind | IngressRouteKind
  | PodDisruptionBudgetKind | AtomKind

record 'b obj =
  ob_TypeMeta :: TypeMeta
  ob_ObjectMeta :: ObjectMeta
  ob_Spec :: 'b

abbreviation ob_Name :: "'b obj \<Rightarrow> string" where
  "ob_Name o' \<equiv> om_Name (ob_ObjectMeta o')"

abbreviation ob_Namespace :: "'b obj \<Rightarrow> string" where
  "ob_Namespace o' \<equiv> om_Namespace (ob_ObjectMeta o')"

abbreviation ob_Labels :: "'b obj \<Rightarrow> labels" where
  "ob_Labels o' \<equiv> om_Labels (ob_ObjectMeta o')"

text \<open>Go's zero values, for the composite literals that set a few fields only.\<close>

definition zero_TypeMeta :: TypeMeta where
  "zero_TypeMeta = \<lparr>tm_Kind = [], tm_APIVersion = []\<rparr>"

definition zero_ObjectMeta :: ObjectMeta where
  "zero_ObjectMeta = \<lparr>om_Name = [], om_Namespace = [], om_UID = [], om_CreationTimestamp = 0,
     om_Labels = Map.empty, om_Annotations = Map.empty, om_OwnerReferences = []\<rparr>"

definition bare :: "string \<Rightarrow> string \<Rightarrow> 'b \<Rightarrow> 'b obj" where
  "bare name ns spec =
     \<lparr>ob_TypeMeta = zero_TypeMeta,
      ob_ObjectMeta = zero_ObjectMeta\<lparr>om_Name := name, om_Namespace := ns\<rparr>,
      ob_Spec = spec\<rparr>"

lemma bare_simps [simp]:
  "ob_Name (bare n ns s) = n" "ob_Namespace (bare n ns s) = ns" "ob_Spec (bare n ns s) = s"
  "ob_Labels (bare n ns s) = Map.empty"
  by (simp_all add: bare_def zero_ObjectMeta_def)

text \<open>An \<open>intstr.IntOrString\<close>, and a quantity as the text it is parsed from.\<close>

datatype IntOrString = IntVal "32 word" | StrVal string

datatype Quantity = MustParse string

record ConfigMapBody =
  cm_Data :: labels
  cm_Immutable :: "bool option"

record LabelSelector =
  ls_MatchLabels :: labels

record ServicePort =
  sp_Name :: string
  sp_Port :: nat
  sp_Protocol :: string

record ServiceBody =
  ks_Ports :: "ServicePort list"
  ks_Selector :: labels

record PodDisruptionBudgetBody =
  pdb_MaxUnavailable :: "IntOrString option"
  pdb_Selector :: "LabelSelector option"

datatype VolumeSource = EmptyDir | ConfigMapVolume string

record Volume =
  vo_Name :: string
  vo_Source :: VolumeSource

record VolumeMount =
  vm_Name :: string
  vm_MountPath :: string

record Probe =
  pr_Path :: string
  pr_Port :: IntOrString
  pr_Scheme :: string
  pr_InitialDelaySeconds :: nat
  pr_TimeoutSeconds :: nat
  pr_PeriodSeconds :: nat

record Container =
  co_Name :: string
  co_Image :: string
  co_ImagePullPolicy :: string
  co_Command :: "string list"
  co_Args :: "string list"
  co_Ports :: "nat list"
  co_LivenessProbe :: "Probe option"
  co_ReadinessProbe :: "Probe option"
  co_Limits :: "(string \<times> Quantity) list"
  co_Requests :: "(string \<times> Quantity) list"
  co_VolumeMounts :: "VolumeMount list"

record PodTemplateSpec =
  pt_Labels :: labels
  pt_Annotations :: labels
  pt_Volumes :: "Volume list"
  pt_InitContainers :: "Container list"
  pt_Containers :: "Container list"

record DeploymentStrategy =
  ds_Type :: string
  ds_MaxUnavailable :: "IntOrString option"
  ds_MaxSurge :: "IntOrString option"

record DeploymentBody =
  dp_Selector :: "LabelSelector option"
  dp_MinReadySeconds :: "32 word"
  dp_Strategy :: DeploymentStrategy
  dp_RevisionHistoryLimit :: "32 word option"
  dp_Replicas :: "32 word option"
  dp_Template :: PodTemplateSpec

record Headers =
  hd_ContentSecurityPolicy :: string
  hd_FrameDeny :: bool
  hd_CustomResponseHeaders :: labels

record ReplacePathRegex =
  rp_Regex :: string
  rp_Replacement :: string

record MiddlewareBody =
  mw_StripPrefix :: "string list option"
  mw_Headers :: "Headers option"
  mw_ReplacePathRegex :: "ReplacePathRegex option"

record RouteService =
  rs_Name :: string
  rs_Kind :: string
  rs_Port :: IntOrString
  rs_PassHostHeader :: "bool option"

record Route =
  rt_Kind :: string
  rt_Match :: string
  rt_Services :: "RouteService list"
  rt_Middlewares :: "string list"

record IngressRouteBody =
  ir_Routes :: "Route list"

type_synonym ConfigMap = "ConfigMapBody obj"
type_synonym Deployment = "DeploymentBody obj"
type_synonym KService = "ServiceBody obj"
type_synonym Middleware = "MiddlewareBody obj"
type_synonym IngressRoute = "IngressRouteBody obj"
type_synonym PodDisruptionBudget = "PodDisruptionBudgetBody obj"

section \<open>Library functions on objects\<close>

text \<open>
  The functions of smooth-operator and controller-runtime that the mutate functions call.
  \<open>EnsureSetGVK\<close> and \<open>SetControllerReference\<close> update the object they are given and may fail:
  they return the updated part and the error. \<open>AddHashSuffix\<close> renames a config map.
  \<open>Pointer\<close> is generic in Go and appears here once per type it is used at.
\<close>

record libs =
  CombineLabels :: "labels list \<Rightarrow> labels"
  CloneOrEmptyMap :: "labels \<Rightarrow> labels"
  Pointer_int32 :: "32 word \<Rightarrow> 32 word option"
  Pointer_bool :: "bool \<Rightarrow> bool option"
  EnsureSetGVK :: "kind \<Rightarrow> TypeMeta \<Rightarrow> TypeMeta \<times> go_error option"
  SetControllerReference :: "Atom \<Rightarrow> ObjectMeta \<Rightarrow> ObjectMeta \<times> go_error option"
  AddHashSuffix :: "ConfigMap \<Rightarrow> ConfigMap \<times> go_error option"
  GetUptimeAnnotations :: "labels \<Rightarrow> string \<Rightarrow> string \<Rightarrow> string \<Rightarrow> labels \<Rightarrow> labels"

text \<open>
  What is assumed of them: later label maps win; cloning keeps the entries; setting the kind of
  an object that has it already changes nothing; setting the controller touches the owner references
  only, and does nothing on an object of the same namespace that has these references already.
\<close>

definition labels_contract :: "libs \<Rightarrow> bool" where
  "labels_contract L \<longleftrightarrow>
     (\<forall>ms. CombineLabels L ms = foldl (++) Map.empty ms) \<and> (\<forall>m. CloneOrEmptyMap L m = m)"

definition ownership_contract :: "libs \<Rightarrow> bool" where
  "ownership_contract L \<longleftrightarrow>
     (\<forall>k t t'. EnsureSetGVK L k t = (t', None) \<longrightarrow> EnsureSetGVK L k t' = (t', None)) \<and>
     (\<forall>a m m'. SetControllerReference L a m = (m', None) \<longrightarrow>
        m' = m\<lparr>om_OwnerReferences := om_OwnerReferences m'\<rparr> \<and>
        (\<forall>m2. om_OwnerReferences m2 = om_OwnerReferences m' \<and> om_Namespace m2 = om_Namespace m' \<longrightarrow>
           SetControllerReference L a m2 = (m2, None)))"

text \<open>
  When the two succeed. The scheme knows the kinds of the objects that the operator writes. An Atom may become
  the controller of an object in its own namespace that has no other controller: the library returns an
  error for an object of another namespace, and for one that has another controller (\<open>AlreadyOwnedError\<close>).
  Once the reference is set, the Atom is the only controller.
\<close>

definition managed_kinds :: "kind set" where
  "managed_kinds =
     {ConfigMapKind, DeploymentKind, ServiceKind, MiddlewareKind, IngressRouteKind, PodDisruptionBudgetKind}"

definition may_control :: "Atom \<Rightarrow> ObjectMeta \<Rightarrow> bool" where
  "may_control atom m \<longleftrightarrow> om_Namespace m = at_Namespace atom \<and>
     (\<forall>r\<in>set (om_OwnerReferences m). or_Controller r = Some True \<longrightarrow>
        or_Kind r = ''Atom'' \<and> or_Name r = at_Name atom \<and> or_UID r = om_UID (at_ObjectMeta atom))"

definition scheme_contract :: "libs \<Rightarrow> bool" where
  "scheme_contract L \<longleftrightarrow> (\<forall>k\<in>managed_kinds. \<forall>t. snd (EnsureSetGVK L k t) = None)"

definition controller_contract :: "libs \<Rightarrow> bool" where
  "controller_contract L \<longleftrightarrow>
     (\<forall>a m. may_control a m \<longrightarrow>
        (\<exists>m'. SetControllerReference L a m = (m', None) \<and> may_control a m'))"

section \<open>Constants and labels\<close>

definition appLabelKey :: string where "appLabelKey = ''pdok.nl/app''"
definition appName :: string where "appName = ''atom-service''"
definition configFileName :: string where "configFileName = ''values.yaml''"
definition atomPortName :: string where "atomPortName = ''atom-service''"
definition atomPortNr :: nat where "atomPortNr = 80"
definition stripPrefixSuffix :: string where "stripPrefixSuffix = ''-atom-prefixstrip''"
definition headersSuffix :: string where "headersSuffix = ''-atom-headers''"
definition downloadsSuffix :: string where "downloadsSuffix = ''-atom-downloads-''"
definition nameSuffix :: string where "nameSuffix = ''-atom''"
definition generatorSuffix :: string where "generatorSuffix = ''-atom-generator''"
definition srvDir :: string where "srvDir = ''/srv''"

lemmas name_constants =
  appName_def stripPrefixSuffix_def headersSuffix_def downloadsSuffix_def nameSuffix_def
  generatorSuffix_def

definition defaultLabels :: labels where
  "defaultLabels = [appLabelKey \<mapsto> appName]"

definition getLabelSelector :: "libs \<Rightarrow> Atom \<Rightarrow> LabelSelector" where
  "getLabelSelector L atom = \<lparr>ls_MatchLabels = CombineLabels L [at_Labels atom, defaultLabels]\<rparr>"

definition getObjectLabels :: "libs \<Rightarrow> Atom \<Rightarrow> labels \<Rightarrow> labels" where
  "getObjectLabels L atom objLabels = CombineLabels L [objLabels, at_Labels atom, defaultLabels]"

record AtomReconciler =
  rc_AtomGeneratorImage :: string
  rc_LighttpdImage :: string
  rc_CSP :: string

text \<open>
  The last statements of every mutate function: set the group, version and kind, then the
  controller reference; the first error ends the function, with the changes so far in place.
\<close>

definition set_gvk_and_owner :: "libs \<Rightarrow> kind \<Rightarrow> Atom \<Rightarrow> 'b obj \<Rightarrow> 'b obj \<times> go_error option" where
  "set_gvk_and_owner L k atom o1 =
     (case EnsureSetGVK L k (ob_TypeMeta o1) of
        (tm, Some err) \<Rightarrow> (o1\<lparr>ob_TypeMeta := tm\<rparr>, Some err)
      | (tm, None) \<Rightarrow>
          (case SetControllerReference L atom (ob_ObjectMeta o1) of
             (m, err) \<Rightarrow> (o1\<lparr>ob_TypeMeta := tm, ob_ObjectMeta := m\<rparr>, err)))"

lemma getObjectLabels_lookup:
  "labels_contract L \<Longrightarrow> getObjectLabels L atom ls = ls ++ at_Labels atom ++ defaultLabels"
  by (simp add: labels_contract_def getObjectLabels_def)

lemma getLabelSelector_lookup:
  "labels_contract L \<Longrightarrow> ls_MatchLabels (getLabelSelector L atom) = at_Labels atom ++ defaultLabels"
  by (simp add: labels_contract_def getLabelSelector_def)

lemma getObjectLabels_idem:
  "labels_contract L \<Longrightarrow>
     getObjectLabels L atom (getObjectLabels L atom ls) = getObjectLabels L atom ls"
  by (auto simp: getObjectLabels_lookup map_add_def fun_eq_iff split: option.splits)

text \<open>
  A selector built from the Atom's labels selects every object that carries the object labels.
\<close>

lemma selector_matches_labels:
  assumes "labels_contract L"
  shows "ls_MatchLabels (getLabelSelector L atom) \<subseteq>\<^sub>m getObjectLabels L atom ls"
  using assms by (auto simp: getLabelSelector_lookup getObjectLabels_lookup map_le_def map_add_def
      split: option.splits)

text \<open>The tail finds nothing to do on an object that shares type, namespace and owners.\<close>

lemma set_gvk_and_owner_again:
  assumes "ownership_contract L" and "set_gvk_and_owner L k atom o1 = (o2, None)"
    and "ob_TypeMeta o3 = ob_TypeMeta o2" and "ob_Namespace o3 = ob_Namespace o2"
    and "om_OwnerReferences (ob_ObjectMeta o3) = om_OwnerReferences (ob_ObjectMeta o2)"
  shows "set_gvk_and_owner L k atom o3 = (o3, None)"
proof -
  obtain tm m where tm: "EnsureSetGVK L k (ob_TypeMeta o1) = (tm, None)"
    and m: "SetControllerReference L atom (ob_ObjectMeta o1) = (m, None)"
    and o2: "o2 = o1\<lparr>ob_TypeMeta := tm, ob_ObjectMeta := m\<rparr>"
    using assms(2) by (auto simp: set_gvk_and_owner_def split: prod.splits option.splits)
  have "EnsureSetGVK L k tm = (tm, None)"
    using assms(1) tm unfolding ownership_contract_def by blast
  moreover have "SetControllerReference L atom (ob_ObjectMeta o3) = (ob_ObjectMeta o3, None)"
    using assms(1,4,5) m unfolding ownership_contract_def by (simp add: o2)
  ultimately show ?thesis
    using assms(3) by (simp add: set_gvk_and_owner_def o2)
qed

lemma set_gvk_and_owner_ok:
  assumes "ownership_contract L" and "set_gvk_and_owner L k atom o1 = (o2, None)"
  shows "ob_Spec o2 = ob_Spec o1" and "ob_Name o2 = ob_Name o1"
    and "ob_Namespace o2 = ob_Namespace o1" and "ob_Labels o2 = ob_Labels o1"
    and "om_Annotations (ob_ObjectMeta o2) = om_Annotations (ob_ObjectMeta o1)"
    and "set_gvk_and_owner L k atom o2 = (o2, None)"
proof -
  obtain tm m where tm: "EnsureSetGVK L k (ob_TypeMeta o1) = (tm, None)"
    and m: "SetControllerReference L atom (ob_ObjectMeta o1) = (m, None)"
    and o2: "o2 = o1\<lparr>ob_TypeMeta := tm, ob_ObjectMeta := m\<rparr>"
    using assms(2) by (auto simp: set_gvk_and_owner_def split: prod.splits option.splits)
  have same: "m = (ob_ObjectMeta o1)\<lparr>om_OwnerReferences := om_OwnerReferences m\<rparr>"
    using assms(1) m unfolding ownership_contract_def by blast
  show "ob_Spec o2 = ob_Spec o1" by (simp add: o2)
  show "ob_Name o2 = ob_Name o1" "ob_Namespace o2 = ob_Namespace o1"
    "ob_Labels o2 = ob_Labels o1"
    "om_Annotations (ob_ObjectMeta o2) = om_Annotations (ob_ObjectMeta o1)"
    by (simp_all add: o2) (subst same, simp)+
  show "set_gvk_and_owner L k atom o2 = (o2, None)"
    by (rule set_gvk_and_owner_again [OF assms]) simp_all
qed

text \<open>An object that the tail leaves alone has its type and the Atom as its controller.\<close>

lemma set_gvk_and_owner_fixed:
  assumes "set_gvk_and_owner L k atom o1 = (o1, None)"
  shows "SetControllerReference L atom (ob_ObjectMeta o1) = (ob_ObjectMeta o1, None)"
    and "EnsureSetGVK L k (ob_TypeMeta o1) = (ob_TypeMeta o1, None)"
proof -
  obtain tm e where tm: "EnsureSetGVK L k (ob_TypeMeta o1) = (tm, e)" by fastforce
  obtain m e2 where m: "SetControllerReference L atom (ob_ObjectMeta o1) = (m, e2)" by fastforce
  have e: "e = None" using assms tm by (cases e) (simp_all add: set_gvk_and_owner_def)
  then have "o1\<lparr>ob_TypeMeta := tm, ob_ObjectMeta := m\<rparr> = o1" "e2 = None"
    using assms tm m by (simp_all add: set_gvk_and_owner_def)
  moreover from this(1) have "m = ob_ObjectMeta o1" "tm = ob_TypeMeta o1"
    by (metis obj.select_convs(2) obj.surjective obj.update_convs(2), metis obj.select_convs(1) obj.surjective obj.update_convs(1,2))
  ultimately show "SetControllerReference L atom (ob_ObjectMeta o1) = (ob_ObjectMeta o1, None)"
    "EnsureSetGVK L k (ob_TypeMeta o1) = (ob_TypeMeta o1, None)"
    using tm m e by simp_all
qed

text \<open>The tail succeeds on an object that the Atom may control, and leaves it one.\<close>

lemma set_gvk_and_owner_succeeds:
  assumes "scheme_contract L" and "controller_contract L" and "k \<in> managed_kinds"
    and "may_control atom (ob_ObjectMeta o1)"
  shows "\<exists>o2. set_gvk_and_owner L k atom o1 = (o2, None) \<and> may_control atom (ob_ObjectMeta o2)"
proof -
  obtain tm where tm: "EnsureSetGVK L k (ob_TypeMeta o1) = (tm, None)"
    using assms(1,3) unfolding scheme_contract_def by (metis prod.collapse)
  obtain m where "SetControllerReference L atom (ob_ObjectMeta o1) = (m, None)" "may_control atom m"
    using assms(2,4) unfolding controller_contract_def by blast
  with tm show ?thesis by (simp add: set_gvk_and_owner_def)
qed

text \<open>The first statement of every mutate function: \<open>obj.Labels = getObjectLabels(atom, obj.Labels)\<close>.\<close>

definition with_labels :: "libs \<Rightarrow> Atom \<Rightarrow> 'b obj \<Rightarrow> 'b obj" where
  "with_labels L atom o1 =
     o1\<lparr>ob_ObjectMeta := (ob_ObjectMeta o1)\<lparr>om_Labels := getObjectLabels L atom (ob_Labels o1)\<rparr>\<rparr>"

lemma with_labels_simps [simp]:
  "ob_Name (with_labels L atom o1) = ob_Name o1"
  "ob_Namespace (with_labels L atom o1) = ob_Namespace o1"
  "ob_Labels (with_labels L atom o1) = getObjectLabels L atom (ob_Labels o1)"
  "om_Annotations (ob_ObjectMeta (with_labels L atom o1)) = om_Annotations (ob_ObjectMeta o1)"
  "ob_Spec (with_labels L atom o1) = ob_Spec o1"
  by (simp_all add: with_labels_def)

text \<open>Labels that are already merged stay as they are.\<close>

lemma with_labels_idem:
  "labels_contract L \<Longrightarrow> ob_Labels o2 = getObjectLabels L atom ls \<Longrightarrow> with_labels L atom o2 = o2"
  by (simp add: with_labels_def getObjectLabels_idem)

section \<open>The contract of a mutate function\<close>

text \<open>
  \<open>prep\<close> is what the function does before the shared tail; whether the function gets there does
  not depend on the object it is given. The locale asks that \<open>prep\<close> keeps the key, sets the
  labels, and changes nothing on an object that has its labels, annotations and specification
  already; it gives the same for the whole function, for any libraries that keep their contracts.
\<close>

locale object_mutation =
  fixes knd :: kind
    and prep :: "libs \<Rightarrow> Atom \<Rightarrow> 'b obj \<Rightarrow> 'b obj"
    and mutate :: "libs \<Rightarrow> Atom \<Rightarrow> 'b obj \<Rightarrow> ('b obj \<times> go_error option) go"
  assumes prep_mutate: "mutate L atom o1 = Ret (o2, None) \<Longrightarrow>
      mutate L atom o3 = Ret (set_gvk_and_owner L knd atom (prep L atom o3))"
    and prep_name: "ob_Name (prep L atom o1) = ob_Name o1"
    and prep_namespace: "ob_Namespace (prep L atom o1) = ob_Namespace o1"
    and prep_labels: "ob_Labels (prep L atom o1) = getObjectLabels L atom (ob_Labels o1)"
    and prep_idem: "labels_contract L \<Longrightarrow>
      ob_Labels o2 = ob_Labels (prep L atom o1) \<Longrightarrow>
      om_Annotations (ob_ObjectMeta o2) = om_Annotations (ob_ObjectMeta (prep L atom o1)) \<Longrightarrow>
      ob_Spec o2 = ob_Spec (prep L atom o1) \<Longrightarrow> prep L atom o2 = o2"
begin

lemma mutate_prep:
  assumes "mutate L atom o1 = Ret (o2, None)"
  shows "set_gvk_and_owner L knd atom (prep L atom o1) = (o2, None)"
  using prep_mutate [OF assms, of o1] assms by simp

lemma owned:
  assumes "ownership_contract L" and "mutate L atom o1 = Ret (o2, None)"
  shows "SetControllerReference L atom (ob_ObjectMeta o2) = (ob_ObjectMeta o2, None)"
  by (rule set_gvk_and_owner_fixed(1) [OF set_gvk_and_owner_ok(6) [OF assms(1) mutate_prep [OF assms(2)]]])

lemma keeps_key:
  assumes "ownership_contract L" and "mutate L atom o1 = Ret (o2, None)"
  shows "ob_Name o2 = ob_Name o1" and "ob_Namespace o2 = ob_Namespace o1"
  using set_gvk_and_owner_ok [OF assms(1) mutate_prep [OF assms(2)]]
  by (simp_all add: prep_name prep_namespace)

lemma sets_labels:
  assumes "labels_contract L" and "ownership_contract L"
    and "mutate L atom o1 = Ret (o2, None)"
  shows "ob_Labels o2 = ob_Labels o1 ++ at_Labels atom ++ defaultLabels"
  using set_gvk_and_owner_ok(4) [OF assms(2) mutate_prep [OF assms(3)]]
  by (simp add: prep_labels getObjectLabels_lookup [OF assms(1)])

lemma spec_of_prep:
  assumes "ownership_contract L" and "mutate L atom o1 = Ret (o2, None)"
  shows "ob_Spec o2 = ob_Spec (prep L atom o1)"
  by (rule set_gvk_and_owner_ok(1) [OF assms(1) mutate_prep [OF assms(2)]])

lemma idempotent:
  assumes "labels_contract L" and "ownership_contract L"
    and "mutate L atom o1 = Ret (o2, None)"
  shows "mutate L atom o2 = Ret (o2, None)"
proof -
  note tail = set_gvk_and_owner_ok [OF assms(2) mutate_prep [OF assms(3)]]
  have "prep L atom o2 = o2"
    by (rule prep_idem [OF assms(1), of _ atom o1]) (simp_all add: tail)
  with tail(6) prep_mutate [OF assms(3), of o2] show ?thesis by simp
qed

end

end
