(* ===== verification/DownloadGroups.thy ===== *)
theory DownloadGroups
  imports Kube
begin

text \<open>
  The grouping of download links by blob prefix, \<open>getDownloadLinkGroups\<close> of
  \<open>internal/controller/middleware.go\<close>.

  The function builds a Go map; the model keeps it as an association list without duplicate keys,
  in the order the keys were inserted. Code that ranges over the map takes the order of the
  iteration as a parameter elsewhere, since Go leaves it open.

  The main result: the loop equals a reference definition (one group per distinct prefix, in order
  of first appearance, numbered from 0, with the files of that prefix in order). The locale
  \<open>link_grouping\<close> states what the users of the map rely on, and is interpreted on the code.
\<close>

section \<open>Groups of download links\<close>

record link_group =
  lg_index :: "nat option"
  lg_files :: "string list"

fun group_links ::
  "DownloadLink list \<Rightarrow> nat \<Rightarrow> (string \<times> link_group) list \<Rightarrow> (string \<times> link_group) list go" where
  "group_links [] counter result = Ret result"
| "group_links (link # links) counter result =
     go_bind (GetBlobPrefix link) (\<lambda>prefix.
     go_bind (GetBlobName link) (\<lambda>file.
       (case map_of result prefix of
          Some val \<Rightarrow>
            (case lg_index val of
               None \<Rightarrow>
                 group_links links (Suc counter)
                   (AList.update prefix
                     (val\<lparr>lg_index := Some counter, lg_files := lg_files val @ [file]\<rparr>) result)
             | Some _ \<Rightarrow>
                 group_links links counter
                   (AList.update prefix (val\<lparr>lg_files := lg_files val @ [file]\<rparr>) result))
        | None \<Rightarrow>
            group_links links (Suc counter)
              (AList.update prefix \<lparr>lg_index = Some counter, lg_files = [file]\<rparr> result))))"

definition getDownloadLinkGroups :: "DownloadLink list \<Rightarrow> (string \<times> link_group) list go" where
  "getDownloadLinkGroups links = group_links links 0 []"

subsection \<open>The reference definition\<close>

text \<open>The distinct elements of a list in the order of their first appearance.\<close>

definition firsts :: "'a list \<Rightarrow> 'a list" where
  "firsts xs = rev (remdups (rev xs))"

definition prefixes_of :: "DownloadLink list \<Rightarrow> string list" where
  "prefixes_of links = firsts (map blob_prefix links)"

definition files_of :: "DownloadLink list \<Rightarrow> string \<Rightarrow> string list" where
  "files_of links p = map blob_name (filter (\<lambda>l. blob_prefix l = p) links)"

definition groups_of :: "DownloadLink list \<Rightarrow> (string \<times> link_group) list" where
  "groups_of links =
     map (\<lambda>(i, p). (p, \<lparr>lg_index = Some i, lg_files = files_of links p\<rparr>))
       (enumerate 0 (prefixes_of links))"

lemma firsts_simps [simp]:
  "firsts [] = []"
  "firsts (xs @ [x]) = (if x \<in> set xs then firsts xs else firsts xs @ [x])"
  by (simp_all add: firsts_def)

lemma set_firsts [simp]: "set (firsts xs) = set xs"
  by (simp add: firsts_def)

lemma distinct_firsts [simp]: "distinct (firsts xs)"
  by (simp add: firsts_def)

lemma update_new: "k \<notin> fst ` set al \<Longrightarrow> AList.update k v al = al @ [(k, v)]"
  by (induction al) auto

lemma update_old:
  assumes "distinct (map fst al)" and "k \<in> fst ` set al"
  shows "AList.update k v al = map (\<lambda>(k', v'). if k' = k then (k, v) else (k', v')) al"
  using assms
proof (induction al)
  case (Cons x al)
  have "map (\<lambda>(k', v'). if k' = k then (k, v) else (k', v')) al = al" if "k \<notin> fst ` set al"
    using that by (intro map_idI) force
  with Cons show ?case by (cases x) auto
qed simp

lemma keys_groups_of: "map fst (groups_of links) = prefixes_of links"
  by (simp add: groups_of_def case_prod_unfold o_def map_snd_enumerate)

lemma fst_groups_of: "fst ` set (groups_of links) = blob_prefix ` set links"
  by (metis keys_groups_of list.set_map prefixes_of_def set_firsts)

lemma length_groups_of: "length (groups_of links) = length (prefixes_of links)"
  by (simp add: groups_of_def)

lemma distinct_groups_of: "distinct (map fst (groups_of links))"
  by (simp add: keys_groups_of prefixes_of_def)

lemma nth_groups_of:
  assumes "i < length (groups_of links)"
  shows "groups_of links ! i =
    (prefixes_of links ! i, \<lparr>lg_index = Some i, lg_files = files_of links (prefixes_of links ! i)\<rparr>)"
  using assms by (simp add: groups_of_def nth_enumerate_eq)

lemma indices_groups_of: "map (lg_index \<circ> snd) (groups_of links) = map Some [0..<length (groups_of links)]"
  by (rule nth_equalityI) (simp_all add: nth_groups_of)

lemma map_of_groups_of:
  assumes "p \<in> blob_prefix ` set links"
  shows "\<exists>i < length (groups_of links). map_of (groups_of links) p =
    Some \<lparr>lg_index = Some i, lg_files = files_of links p\<rparr>"
proof -
  have "p \<in> set (prefixes_of links)"
    using assms by (simp add: prefixes_of_def)
  then obtain i where i: "i < length (groups_of links)" and p: "prefixes_of links ! i = p"
    by (auto simp: in_set_conv_nth length_groups_of)
  have "(p, \<lparr>lg_index = Some i, lg_files = files_of links p\<rparr>) \<in> set (groups_of links)"
    using nth_mem [OF i] nth_groups_of [OF i] p by simp
  then show ?thesis
    using i distinct_groups_of by (auto intro: map_of_is_SomeI)
qed

text \<open>One more link: its group grows by the file, or a new group is opened at the end.\<close>

lemma groups_of_snoc_old:
  assumes "blob_prefix l \<in> blob_prefix ` set links"
    and "map_of (groups_of links) (blob_prefix l) = Some val"
  shows "groups_of (links @ [l]) =
    AList.update (blob_prefix l) (val\<lparr>lg_files := lg_files val @ [blob_name l]\<rparr>) (groups_of links)"
proof -
  let ?p = "blob_prefix l"
  have same: "prefixes_of (links @ [l]) = prefixes_of links"
    using assms(1) by (simp add: prefixes_of_def)
  have upd: "AList.update ?p v (groups_of links) =
      map (\<lambda>(k', v'). if k' = ?p then (?p, v) else (k', v')) (groups_of links)" for v
    by (rule update_old [OF distinct_groups_of]) (simp add: fst_groups_of assms(1))
  show ?thesis
  proof (rule nth_equalityI)
    fix i
    assume "i < length (groups_of (links @ [l]))"
    then have i: "i < length (groups_of links)" by (simp add: length_groups_of same)
    have "val = \<lparr>lg_index = Some i, lg_files = files_of links ?p\<rparr>"
      if "prefixes_of links ! i = ?p"
    proof -
      have "map_of (groups_of links) ?p = Some (snd (groups_of links ! i))"
        using distinct_groups_of nth_mem [OF i] nth_groups_of [OF i] that
        by (intro map_of_is_SomeI) simp_all
      then show ?thesis using assms(2) nth_groups_of [OF i] that by simp
    qed
    with i show "groups_of (links @ [l]) ! i = AList.update ?p
        (val\<lparr>lg_files := lg_files val @ [blob_name l]\<rparr>) (groups_of links) ! i"
      by (auto simp: upd nth_groups_of length_groups_of same files_of_def)
  qed (simp add: upd length_groups_of same)
qed

lemma groups_of_snoc_new:
  assumes "blob_prefix l \<notin> blob_prefix ` set links"
  shows "groups_of (links @ [l]) =
    AList.update (blob_prefix l) \<lparr>lg_index = Some (length (groups_of links)),
      lg_files = [blob_name l]\<rparr> (groups_of links)"
proof -
  let ?p = "blob_prefix l"
  have new: "prefixes_of (links @ [l]) = prefixes_of links @ [?p]"
    using assms by (simp add: prefixes_of_def)
  have upd: "AList.update ?p v (groups_of links) = groups_of links @ [(?p, v)]" for v
    by (rule update_new) (simp add: fst_groups_of assms)
  have none: "files_of links ?p = []"
  proof -
    have "\<forall>x\<in>set links. blob_prefix x \<noteq> ?p"
      using assms by (metis imageI)
    then show ?thesis by (simp add: files_of_def)
  qed
  have old: "prefixes_of links ! i \<noteq> ?p" if "i < length (groups_of links)" for i
    using assms that nth_mem [of i "prefixes_of links"]
    by (auto simp: length_groups_of prefixes_of_def)
  show ?thesis
  proof (rule nth_equalityI)
    fix i
    assume i: "i < length (groups_of (links @ [l]))"
    then have "i < Suc (length (groups_of links))"
      by (simp add: length_groups_of new)
    then consider "i < length (groups_of links)" | "i = length (groups_of links)"
      by linarith
    then show "groups_of (links @ [l]) ! i = AList.update ?p \<lparr>lg_index = Some (length (groups_of links)),
        lg_files = [blob_name l]\<rparr> (groups_of links) ! i"
    proof cases
      case 1
      then show ?thesis
        using i old [OF 1] by (auto simp: upd nth_append nth_groups_of new length_groups_of files_of_def)
    next
      case 2
      then show ?thesis
        using i none by (simp add: upd nth_append nth_groups_of new length_groups_of files_of_def)
    qed
  qed (simp add: upd length_groups_of new)
qed

lemma group_links_groups_of:
  assumes "list_all has_blob_key links"
  shows "group_links links (length (groups_of done)) (groups_of done) = Ret (groups_of (done @ links))"
  using assms
proof (induction links arbitrary: "done")
  case Nil
  then show ?case by simp
next
  case (Cons l links)
  have parts: "GetBlobPrefix l = Ret (blob_prefix l)" "GetBlobName l = Ret (blob_name l)"
    using Cons.prems by (simp_all add: blob_parts(1,2))
  have IH: "group_links links (length (groups_of (done @ [l]))) (groups_of (done @ [l]))
      = Ret (groups_of (done @ l # links))"
    using Cons.IH [of "done @ [l]"] Cons.prems by simp
  show ?case
  proof (cases "blob_prefix l \<in> blob_prefix ` set done")
    case True
    then obtain i where "map_of (groups_of done) (blob_prefix l) =
        Some \<lparr>lg_index = Some i, lg_files = files_of done (blob_prefix l)\<rparr>"
      using map_of_groups_of by blast
    moreover have "length (groups_of (done @ [l])) = length (groups_of done)"
      using True by (simp add: length_groups_of prefixes_of_def)
    ultimately show ?thesis
      using IH groups_of_snoc_old [OF True] by (simp add: parts)
  next
    case False
    then have "map_of (groups_of done) (blob_prefix l) = None"
      by (simp add: map_of_eq_None_iff fst_groups_of)
    moreover have "length (groups_of (done @ [l])) = Suc (length (groups_of done))"
      using False by (simp add: length_groups_of prefixes_of_def)
    ultimately show ?thesis
      using IH groups_of_snoc_new [OF False] by (simp add: parts)
  qed
qed

lemma getDownloadLinkGroups_eq:
  "list_all has_blob_key links \<Longrightarrow> getDownloadLinkGroups links = Ret (groups_of links)"
  using group_links_groups_of [of links "[]"]
  by (simp add: getDownloadLinkGroups_def groups_of_def prefixes_of_def)

section \<open>What the users of the groups rely on\<close>

text \<open>
  The ingress route and the reconciler name a middleware after the index of its group and look the
  groups up by prefix. They need the groups to have distinct prefixes and distinct indices, and
  every link to be found in the group of its prefix.
\<close>

locale link_grouping =
  fixes valid :: "'l \<Rightarrow> bool"
    and pfx :: "'l \<Rightarrow> string"
    and fname :: "'l \<Rightarrow> string"
    and groups :: "'l list \<Rightarrow> (string \<times> link_group) list go"
  assumes returns: "list_all valid links \<Longrightarrow> \<exists>G. groups links = Ret G"
    and keys: "list_all valid links \<Longrightarrow> groups links = Ret G \<Longrightarrow>
      distinct (map fst G) \<and> set (map fst G) = pfx ` set links"
    and indices: "list_all valid links \<Longrightarrow> groups links = Ret G \<Longrightarrow>
      map (lg_index \<circ> snd) G = map Some [0..<length G]"
    and members: "list_all valid links \<Longrightarrow> groups links = Ret G \<Longrightarrow> (p, g) \<in> set G \<Longrightarrow>
      lg_files g = map fname (filter (\<lambda>l. pfx l = p) links)"
begin

lemma index_nth:
  assumes "list_all valid links" and "groups links = Ret G" and "i < length G"
  shows "lg_index (snd (G ! i)) = Some i"
proof -
  have "map (lg_index \<circ> snd) G ! i = Some i"
    using indices [OF assms(1,2)] assms(3) by simp
  then show ?thesis using assms(3) by simp
qed

lemma index_some:
  assumes "list_all valid links" and "groups links = Ret G" and "x \<in> set G"
  shows "\<exists>i < length G. lg_index (snd x) = Some i \<and> x = G ! i"
  using assms index_nth by (metis in_set_conv_nth)

text \<open>Two entries with the same index are the same entry: no two groups share a name.\<close>

lemma index_inj:
  assumes "list_all valid links" and "groups links = Ret G" and "x \<in> set G" and "y \<in> set G"
    and "lg_index (snd x) = lg_index (snd y)"
  shows "x = y"
  using index_some [OF assms(1,2,3)] index_some [OF assms(1,2,4)] assms(5) by auto

text \<open>The file of every link is in the group that its prefix leads to.\<close>

lemma link_in_its_group:
  assumes "list_all valid links" and "groups links = Ret G" and "l \<in> set links"
  shows "\<exists>g. map_of G (pfx l) = Some g \<and> fname l \<in> set (lg_files g)"
proof -
  have "pfx l \<in> set (map fst G)"
    using keys [OF assms(1,2)] assms(3) by simp
  then obtain g where g: "(pfx l, g) \<in> set G" by auto
  then have "map_of G (pfx l) = Some g"
    using keys [OF assms(1,2)] by (auto intro: map_of_is_SomeI)
  moreover have "fname l \<in> set (lg_files g)"
    using members [OF assms(1,2) g] assms(3) by auto
  ultimately show ?thesis by blast
qed

text \<open>A group is never empty.\<close>

lemma group_nonempty:
  assumes "list_all valid links" and "groups links = Ret G" and "(p, g) \<in> set G"
  shows "lg_files g \<noteq> []"
proof -
  have "p \<in> pfx ` set links"
    using keys [OF assms(1,2)] assms(3) by force
  then show ?thesis
    using members [OF assms] by (auto simp: filter_empty_conv)
qed

end

interpretation dlg: link_grouping has_blob_key blob_prefix blob_name getDownloadLinkGroups
proof
  fix links G p g
  assume valid: "list_all has_blob_key links"
  show "\<exists>G. getDownloadLinkGroups links = Ret G"
    using getDownloadLinkGroups_eq [OF valid] by blast
  assume "getDownloadLinkGroups links = Ret G"
  then have G: "G = groups_of links"
    using getDownloadLinkGroups_eq [OF valid] by simp
  show "distinct (map fst G) \<and> set (map fst G) = blob_prefix ` set links"
    using distinct_groups_of fst_groups_of by (simp add: G)
  show "map (lg_index \<circ> snd) G = map Some [0..<length G]"
    by (simp add: G indices_groups_of)
  assume "(p, g) \<in> set G"
  then obtain i where i: "i < length (groups_of links)" and "groups_of links ! i = (p, g)"
    by (auto simp: G in_set_conv_nth)
  with nth_groups_of [OF i] show "lg_files g = map blob_name (filter (\<lambda>l. blob_prefix l = p) links)"
    by (auto simp: files_of_def)
qed

text \<open>
  The loop panics exactly when some link has no slash in its key: the first such link stops it.
\<close>

lemma group_links_panics:
  "panics (group_links links n result) \<longleftrightarrow> \<not> list_all has_blob_key links"
proof (induction links arbitrary: n result)
  case (Cons l links)
  show ?case
  proof (cases "has_blob_key l")
    case True
    with Cons show ?thesis by (simp add: blob_parts(1,2) split: option.split)
  next
    case False
    then have "panics (GetBlobPrefix l)" by (simp add: GetBlobPrefix_panics)
    with False show ?thesis by (cases "GetBlobPrefix l") simp_all
  qed
qed simp

lemma getDownloadLinkGroups_panics:
  "panics (getDownloadLinkGroups links) \<longleftrightarrow> \<not> list_all has_blob_key links"
  by (simp add: getDownloadLinkGroups_def group_links_panics)

lemma group_links_panic:
  "\<not> list_all has_blob_key links \<Longrightarrow> group_links links n result = Panic out_of_range"
proof (induction links arbitrary: n result)
  case (Cons l links)
  show ?case
  proof (cases "has_blob_key l")
    case True
    with Cons show ?thesis by (simp add: blob_parts(1,2) split: option.split)
  next
    case False
    then have "GetBlobPrefix l = Panic out_of_range"
      by (simp add: GetBlobPrefix_def has_blob_key_def str_simps slice_upto_def)
    then show ?thesis by simp
  qed
qed simp

lemma getDownloadLinkGroups_cases:
  "getDownloadLinkGroups links =
     (if list_all has_blob_key links then Ret (groups_of links) else Panic out_of_range)"
  using getDownloadLinkGroups_eq group_links_panic by (simp add: getDownloadLinkGroups_def)

end
