(* ===== verification/Middleware.thy ===== *)
theory Middleware
  imports DownloadGroups
begin

text \<open>
  The Traefik middlewares of \<open>internal/controller/middleware.go\<close>: prefix stripping, response
  headers, and one path rewrite per group of download links. Each has a constructor of the bare
  object (the key only) and a mutate function, which interprets \<open>object_mutation\<close>.

  A nil URL makes the mutate functions panic, as \<open>URL.Path\<close> does on a nil pointer.
\<close>

section \<open>Prefix stripping\<close>

definition empty_MiddlewareBody :: MiddlewareBody where
  "empty_MiddlewareBody = \<lparr>mw_StripPrefix = None, mw_Headers = None, mw_ReplacePathRegex = None\<rparr>"

definition getBareStripPrefixMiddleware :: "Atom \<Rightarrow> Middleware" where
  "getBareStripPrefixMiddleware obj =
     bare (at_Name obj @ stripPrefixSuffix) (at_Namespace obj) empty_MiddlewareBody"

definition url_Path_of :: "URL \<Rightarrow> string go" where
  "url_Path_of u = go_bind (deref u) (\<lambda>v. Ret (url_Path v))"

definition strip_prefixes :: "Atom \<Rightarrow> string list go" where
  "strip_prefixes atom =
     go_bind (url_Path_of (sv_BaseURL (at_Service atom))) (\<lambda>base.
     go_bind (go_map (\<lambda>ingressRouteURL. go_bind (url_Path_of (iru_URL ingressRouteURL)) (\<lambda>p. Ret (p @ ''/'')))
                (slice (as_IngressRouteURLs (at_Spec atom)))) (\<lambda>more.
     Ret ((base @ ''/'') # more)))"

definition mutateStripPrefixMiddleware ::
  "libs \<Rightarrow> Atom \<Rightarrow> Middleware \<Rightarrow> (Middleware \<times> go_error option) go" where
  "mutateStripPrefixMiddleware L atom middleware =
     go_bind (strip_prefixes atom) (\<lambda>prefixes.
     Ret (set_gvk_and_owner L MiddlewareKind atom
       ((with_labels L atom middleware)
          \<lparr>ob_Spec := empty_MiddlewareBody\<lparr>mw_StripPrefix := Some prefixes\<rparr>\<rparr>)))"

definition strip_prep :: "libs \<Rightarrow> Atom \<Rightarrow> Middleware \<Rightarrow> Middleware" where
  "strip_prep L atom m =
     (with_labels L atom m)\<lparr>ob_Spec := empty_MiddlewareBody\<lparr>mw_StripPrefix :=
        (case strip_prefixes atom of Ret ps \<Rightarrow> Some ps | Panic _ \<Rightarrow> None)\<rparr>\<rparr>"

interpretation stripm: object_mutation MiddlewareKind strip_prep mutateStripPrefixMiddleware
proof
  fix L atom and o1 o2 o3 :: Middleware
  show "mutateStripPrefixMiddleware L atom o3 =
      Ret (set_gvk_and_owner L MiddlewareKind atom (strip_prep L atom o3))"
    if "mutateStripPrefixMiddleware L atom o1 = Ret (o2, None)"
    using that by (auto simp: mutateStripPrefixMiddleware_def strip_prep_def go_bind_eq_Ret)
  show "strip_prep L atom o2 = o2"
    if "labels_contract L" "ob_Labels o2 = ob_Labels (strip_prep L atom o1)"
      "ob_Spec o2 = ob_Spec (strip_prep L atom o1)"
    using that by (simp add: strip_prep_def with_labels_idem)
qed (simp_all add: strip_prep_def)

section \<open>Response headers\<close>

definition getBareHeadersMiddleware :: "Atom \<Rightarrow> Middleware" where
  "getBareHeadersMiddleware obj =
     (let m = bare (at_Name obj @ headersSuffix) (at_Namespace obj) empty_MiddlewareBody
      in m\<lparr>ob_ObjectMeta := (ob_ObjectMeta m)\<lparr>om_UID := om_UID (at_ObjectMeta obj)\<rparr>\<rparr>)"

definition response_headers :: "string \<Rightarrow> Headers" where
  "response_headers csp =
     \<lparr>hd_ContentSecurityPolicy = csp,
      hd_FrameDeny = True,
      hd_CustomResponseHeaders =
        [''Access-Control-Allow-Headers'' \<mapsto> ''Content-Type'',
         ''Access-Control-Allow-Method'' \<mapsto> ''GET, OPTIONS, HEAD'',
         ''Access-Control-Allow-Origin'' \<mapsto> ''*'']\<rparr>"

definition mutateHeadersMiddleware ::
  "libs \<Rightarrow> Atom \<Rightarrow> Middleware \<Rightarrow> string \<Rightarrow> (Middleware \<times> go_error option) go" where
  "mutateHeadersMiddleware L atom middleware csp =
     Ret (set_gvk_and_owner L MiddlewareKind atom
       ((with_labels L atom middleware)
          \<lparr>ob_Spec := empty_MiddlewareBody\<lparr>mw_Headers := Some (response_headers csp)\<rparr>\<rparr>))"

definition headers_prep :: "string \<Rightarrow> libs \<Rightarrow> Atom \<Rightarrow> Middleware \<Rightarrow> Middleware" where
  "headers_prep csp L atom m =
     (with_labels L atom m)\<lparr>ob_Spec := empty_MiddlewareBody\<lparr>mw_Headers := Some (response_headers csp)\<rparr>\<rparr>"

interpretation headersm: object_mutation MiddlewareKind "headers_prep csp"
  "\<lambda>L atom m. mutateHeadersMiddleware L atom m csp"
  for csp
  by unfold_locales
    (simp_all add: headers_prep_def mutateHeadersMiddleware_def with_labels_idem)

section \<open>Path rewriting for a group of download links\<close>

definition getBareDownloadLinkMiddleware :: "Atom \<Rightarrow> nat \<Rightarrow> Middleware" where
  "getBareDownloadLinkMiddleware obj index =
     bare (at_Name obj @ downloadsSuffix @ itoa index) (at_Namespace obj) empty_MiddlewareBody"

definition getDownloadLinkRegex :: "IngressRouteURL list \<Rightarrow> string list \<Rightarrow> string go" where
  "getDownloadLinkRegex ingressRouteURLs files =
     go_bind (go_map (\<lambda>ingressRouteURL. url_Path_of (iru_URL ingressRouteURL)) ingressRouteURLs) (\<lambda>paths.
     Ret (''^('' @ str_Join paths ''|'' @ '')/downloads/'' @ ''('' @ str_Join files ''|'' @ '')''))"

text \<open>The URLs the Atom is served at: the ingress URLs, or the base URL when there are none.\<close>

definition route_urls :: "Atom \<Rightarrow> IngressRouteURL list" where
  "route_urls atom =
     (if slice (as_IngressRouteURLs (at_Spec atom)) = []
      then [\<lparr>iru_URL = sv_BaseURL (at_Service atom)\<rparr>]
      else slice (as_IngressRouteURLs (at_Spec atom)))"

definition mutateDownloadLinkMiddleware ::
  "libs \<Rightarrow> Atom \<Rightarrow> string \<Rightarrow> string list \<Rightarrow> Middleware \<Rightarrow> (Middleware \<times> go_error option) go" where
  "mutateDownloadLinkMiddleware L atom pfx files middleware =
     (let ingressRouteURLs = route_urls atom in
      go_bind (getDownloadLinkRegex ingressRouteURLs files) (\<lambda>regex.
      Ret (set_gvk_and_owner L MiddlewareKind atom
        ((with_labels L atom middleware)
           \<lparr>ob_Spec := empty_MiddlewareBody\<lparr>mw_ReplacePathRegex :=
              Some \<lparr>rp_Regex = regex, rp_Replacement = ''/'' @ pfx @ ''/$2''\<rparr>\<rparr>\<rparr>))))"

definition download_prep :: "string \<Rightarrow> string list \<Rightarrow> libs \<Rightarrow> Atom \<Rightarrow> Middleware \<Rightarrow> Middleware" where
  "download_prep pfx files L atom m =
     (with_labels L atom m)\<lparr>ob_Spec := empty_MiddlewareBody\<lparr>mw_ReplacePathRegex :=
        (case getDownloadLinkRegex (route_urls atom) files of
           Ret regex \<Rightarrow> Some \<lparr>rp_Regex = regex, rp_Replacement = ''/'' @ pfx @ ''/$2''\<rparr>
         | Panic _ \<Rightarrow> None)\<rparr>\<rparr>"

interpretation downloadm: object_mutation MiddlewareKind "download_prep pfx files"
  "\<lambda>L atom. mutateDownloadLinkMiddleware L atom pfx files"
  for pfx files
proof
  fix L atom and o1 o2 o3 :: Middleware
  show "mutateDownloadLinkMiddleware L atom pfx files o3 =
      Ret (set_gvk_and_owner L MiddlewareKind atom (download_prep pfx files L atom o3))"
    if "mutateDownloadLinkMiddleware L atom pfx files o1 = Ret (o2, None)"
    using that by (auto simp: mutateDownloadLinkMiddleware_def download_prep_def go_bind_eq_Ret)
  show "download_prep pfx files L atom o2 = o2"
    if "labels_contract L" "ob_Labels o2 = ob_Labels (download_prep pfx files L atom o1)"
      "ob_Spec o2 = ob_Spec (download_prep pfx files L atom o1)"
    using that by (simp add: download_prep_def with_labels_idem)
qed (simp_all add: download_prep_def)

section \<open>When the mutate functions panic\<close>

definition urls_set :: "Atom \<Rightarrow> bool" where
  "urls_set atom \<longleftrightarrow> sv_BaseURL (at_Service atom) \<noteq> None \<and>
     list_all (\<lambda>i. iru_URL i \<noteq> None) (slice (as_IngressRouteURLs (at_Spec atom)))"

lemma url_Path_of_simps [go_simps, simp]: "url_Path_of (Some u) = Ret (url_Path u)"
  by (simp add: url_Path_of_def go_simps)

lemma panics_url_Path_of [go_simps]: "panics (url_Path_of u) \<longleftrightarrow> u = None"
  by (cases u) (simp_all add: url_Path_of_def go_simps)

lemma route_urls_set: "urls_set atom \<Longrightarrow> list_all (\<lambda>i. iru_URL i \<noteq> None) (route_urls atom)"
  by (simp add: urls_set_def route_urls_def)

lemma strip_prefixes_eq:
  assumes "urls_set atom"
  shows "strip_prefixes atom =
    Ret ((url_Path (the (sv_BaseURL (at_Service atom))) @ ''/'') #
      map (\<lambda>i. url_Path (the (iru_URL i)) @ ''/'') (slice (as_IngressRouteURLs (at_Spec atom))))"
proof -
  have "go_map (\<lambda>i. go_bind (url_Path_of (iru_URL i)) (\<lambda>p. Ret (p @ ''/'')))
      (slice (as_IngressRouteURLs (at_Spec atom))) =
    Ret (map (\<lambda>i. url_Path (the (iru_URL i)) @ ''/'') (slice (as_IngressRouteURLs (at_Spec atom))))"
    using assms by (intro go_map_Ret) (auto simp: urls_set_def list_all_iff)
  with assms show ?thesis by (auto simp: strip_prefixes_def urls_set_def)
qed

lemma getDownloadLinkRegex_eq:
  assumes "list_all (\<lambda>i. iru_URL i \<noteq> None) urls"
  shows "getDownloadLinkRegex urls files =
    Ret (''^('' @ str_Join (map (\<lambda>i. url_Path (the (iru_URL i))) urls) ''|'' @ '')/downloads/('' @
      str_Join files ''|'' @ '')'')"
proof -
  have "go_map (\<lambda>i. url_Path_of (iru_URL i)) urls = Ret (map (\<lambda>i. url_Path (the (iru_URL i))) urls)"
    using assms by (intro go_map_Ret) (auto simp: list_all_iff)
  then show ?thesis by (simp add: getDownloadLinkRegex_def)
qed

lemma middlewares_no_panic:
  assumes "urls_set atom"
  shows "\<not> panics (mutateStripPrefixMiddleware L atom m)"
    and "\<not> panics (mutateHeadersMiddleware L atom m csp)"
    and "\<not> panics (mutateDownloadLinkMiddleware L atom pfx files m)"
  using assms
  by (simp_all add: mutateStripPrefixMiddleware_def mutateHeadersMiddleware_def
      mutateDownloadLinkMiddleware_def strip_prefixes_eq
      getDownloadLinkRegex_eq [OF route_urls_set [OF assms]])

text \<open>The names of the download middlewares of one Atom differ when their groups do.\<close>

lemma download_middleware_name_inj:
  "ob_Name (getBareDownloadLinkMiddleware atom i) = ob_Name (getBareDownloadLinkMiddleware atom j)
     \<longleftrightarrow> i = j"
  by (simp add: getBareDownloadLinkMiddleware_def itoa_inject)

end
