(* ===== verification/Workloads.thy ===== *)
theory Workloads
  imports Kube
begin

text \<open>
  The objects that run and expose the feed server: the Deployment
  (\<open>internal/controller/deployment.go\<close>), the Service (\<open>service.go\<close>) and the
  PodDisruptionBudget (\<open>poddisruptionbudget.go\<close>). Each mutate function interprets
  \<open>object_mutation\<close>; the Deployment's pod template keeps the labels and annotations that
  others put on it and replaces everything else.
\<close>

section \<open>Deployment\<close>

definition evictAnnotation :: string where
  "evictAnnotation = ''cluster-autoscaler.kubernetes.io/safe-to-evict''"
definition evictValue :: string where "evictValue = ''true''"
definition defaultContainerAnnotation :: string where
  "defaultContainerAnnotation = ''kubectl.kubernetes.io/default-container''"
definition versionCheckerAnnotation :: string where
  "versionCheckerAnnotation = ''priority.version-checker.io/atom-service''"
definition versionCheckerPriority :: string where "versionCheckerPriority = ''8''"

definition zero_PodTemplateSpec :: PodTemplateSpec where
  "zero_PodTemplateSpec = \<lparr>pt_Labels = Map.empty, pt_Annotations = Map.empty, pt_Volumes = [],
     pt_InitContainers = [], pt_Containers = []\<rparr>"

definition zero_DeploymentBody :: DeploymentBody where
  "zero_DeploymentBody = \<lparr>dp_Selector = None, dp_MinReadySeconds = 0,
     dp_Strategy = \<lparr>ds_Type = [], ds_MaxUnavailable = None, ds_MaxSurge = None\<rparr>,
     dp_RevisionHistoryLimit = None, dp_Replicas = None, dp_Template = zero_PodTemplateSpec\<rparr>"

definition getBareDeployment :: "Atom \<Rightarrow> Deployment" where
  "getBareDeployment obj =
     bare (at_Name obj @ ''-'' @ appName) (at_Namespace obj) zero_DeploymentBody"

definition index_probe :: Probe where
  "index_probe = \<lparr>pr_Path = ''/index.xml'', pr_Port = IntVal (of_nat atomPortNr),
     pr_Scheme = ''HTTP'', pr_InitialDelaySeconds = 5, pr_TimeoutSeconds = 5,
     pr_PeriodSeconds = 10\<rparr>"

definition generator_container :: Container where
  "generator_container =
     \<lparr>co_Name = ''atom-generator'', co_Image = [], co_ImagePullPolicy = ''IfNotPresent'',
      co_Command = [''./atom''],
      co_Args = [''-f='' @ srvDir @ ''/config/'' @ configFileName, ''-o='' @ srvDir @ ''/data''],
      co_Ports = [], co_LivenessProbe = None, co_ReadinessProbe = None,
      co_Limits = [], co_Requests = [],
      co_VolumeMounts =
        [\<lparr>vm_Name = ''data'', vm_MountPath = srvDir @ ''/data''\<rparr>,
         \<lparr>vm_Name = ''config'', vm_MountPath = srvDir @ ''/config''\<rparr>]\<rparr>"

definition service_container :: Container where
  "service_container =
     \<lparr>co_Name = ''atom-service'', co_Image = [], co_ImagePullPolicy = ''IfNotPresent'',
      co_Command = [], co_Args = [], co_Ports = [atomPortNr],
      co_LivenessProbe = Some index_probe, co_ReadinessProbe = Some index_probe,
      co_Limits = [(''memory'', MustParse ''64M'')],
      co_Requests = [(''cpu'', MustParse ''0.01'')],
      co_VolumeMounts =
        [\<lparr>vm_Name = ''socket'', vm_MountPath = ''/tmp''\<rparr>,
         \<lparr>vm_Name = ''data'', vm_MountPath = ''/var/www/''\<rparr>]\<rparr>"

definition pod_volumes :: "string \<Rightarrow> Volume list" where
  "pod_volumes configMapName =
     [\<lparr>vo_Name = ''data'', vo_Source = EmptyDir\<rparr>,
      \<lparr>vo_Name = ''socket'', vo_Source = EmptyDir\<rparr>,
      \<lparr>vo_Name = ''config'', vo_Source = ConfigMapVolume configMapName\<rparr>]"

definition pod_annotations :: "libs \<Rightarrow> labels \<Rightarrow> labels" where
  "pod_annotations L annotations =
     (CloneOrEmptyMap L annotations)
       (evictAnnotation \<mapsto> evictValue,
        defaultContainerAnnotation \<mapsto> ''atom-service'',
        versionCheckerAnnotation \<mapsto> versionCheckerPriority)"

definition pod_template ::
  "libs \<Rightarrow> AtomReconciler \<Rightarrow> Atom \<Rightarrow> string \<Rightarrow> PodTemplateSpec \<Rightarrow> PodTemplateSpec" where
  "pod_template L r atom configMapName old =
     \<lparr>pt_Labels = getObjectLabels L atom (pt_Labels old),
      pt_Annotations = pod_annotations L (pt_Annotations old),
      pt_Volumes = pod_volumes configMapName,
      pt_InitContainers = [generator_container\<lparr>co_Image := rc_AtomGeneratorImage r\<rparr>],
      pt_Containers = [service_container\<lparr>co_Image := rc_LighttpdImage r\<rparr>]\<rparr>"

definition deployment_spec ::
  "libs \<Rightarrow> AtomReconciler \<Rightarrow> Atom \<Rightarrow> string \<Rightarrow> DeploymentBody \<Rightarrow> DeploymentBody" where
  "deployment_spec L r atom configMapName old =
     old\<lparr>dp_Selector := Some (getLabelSelector L atom),
         dp_MinReadySeconds := 0,
         dp_Strategy :=
           \<lparr>ds_Type = ''RollingUpdate'', ds_MaxUnavailable = Some (IntVal 0),
            ds_MaxSurge = Some (IntVal 4)\<rparr>,
         dp_RevisionHistoryLimit := Pointer_int32 L 1,
         dp_Replicas := Pointer_int32 L 2,
         dp_Template := pod_template L r atom configMapName (dp_Template old)\<rparr>"

definition deployment_prep ::
  "AtomReconciler \<Rightarrow> string \<Rightarrow> libs \<Rightarrow> Atom \<Rightarrow> Deployment \<Rightarrow> Deployment" where
  "deployment_prep r configMapName L atom deployment =
     (with_labels L atom deployment)
       \<lparr>ob_Spec := deployment_spec L r atom configMapName (ob_Spec deployment)\<rparr>"

definition mutateDeployment ::
  "AtomReconciler \<Rightarrow> libs \<Rightarrow> Atom \<Rightarrow> Deployment \<Rightarrow> string \<Rightarrow> (Deployment \<times> go_error option) go" where
  "mutateDeployment r L atom deployment configMapName =
     Ret (set_gvk_and_owner L DeploymentKind atom (deployment_prep r configMapName L atom deployment))"

lemma pod_annotations_idem:
  "labels_contract L \<Longrightarrow> pod_annotations L (pod_annotations L m) = pod_annotations L m"
  by (simp add: pod_annotations_def labels_contract_def fun_eq_iff)

lemma deployment_spec_idem:
  "labels_contract L \<Longrightarrow>
     deployment_spec L r atom c (deployment_spec L r atom c s) = deployment_spec L r atom c s"
  by (simp add: deployment_spec_def pod_template_def getObjectLabels_idem pod_annotations_idem)

interpretation deploymentm: object_mutation DeploymentKind "deployment_prep r c"
  "\<lambda>L atom d. mutateDeployment r L atom d c"
  for r c
  by unfold_locales
    (simp_all add: deployment_prep_def mutateDeployment_def with_labels_idem deployment_spec_idem)

section \<open>Service\<close>

definition zero_ServiceBody :: ServiceBody where
  "zero_ServiceBody = \<lparr>ks_Ports = [], ks_Selector = Map.empty\<rparr>"

definition getBareService :: "Atom \<Rightarrow> KService" where
  "getBareService obj = bare (at_Name obj @ nameSuffix) (at_Namespace obj) zero_ServiceBody"

definition service_spec :: "libs \<Rightarrow> Atom \<Rightarrow> ServiceBody" where
  "service_spec L atom =
     \<lparr>ks_Ports = [\<lparr>sp_Name = atomPortName, sp_Port = atomPortNr, sp_Protocol = ''TCP''\<rparr>],
      ks_Selector = ls_MatchLabels (getLabelSelector L atom)\<rparr>"

definition service_prep :: "libs \<Rightarrow> Atom \<Rightarrow> KService \<Rightarrow> KService" where
  "service_prep L atom service = (with_labels L atom service)\<lparr>ob_Spec := service_spec L atom\<rparr>"

definition mutateService :: "libs \<Rightarrow> Atom \<Rightarrow> KService \<Rightarrow> (KService \<times> go_error option) go" where
  "mutateService L atom service =
     Ret (set_gvk_and_owner L ServiceKind atom (service_prep L atom service))"

interpretation servicem: object_mutation ServiceKind service_prep mutateService
  by unfold_locales (simp_all add: service_prep_def mutateService_def with_labels_idem)

section \<open>PodDisruptionBudget\<close>

definition zero_PodDisruptionBudgetBody :: PodDisruptionBudgetBody where
  "zero_PodDisruptionBudgetBody = \<lparr>pdb_MaxUnavailable = None, pdb_Selector = None\<rparr>"

definition getBarePodDisruptionBudget :: "Atom \<Rightarrow> PodDisruptionBudget" where
  "getBarePodDisruptionBudget obj =
     bare (at_Name obj @ ''-'' @ appName) (at_Namespace obj) zero_PodDisruptionBudgetBody"

definition pdb_prep :: "libs \<Rightarrow> Atom \<Rightarrow> PodDisruptionBudget \<Rightarrow> PodDisruptionBudget" where
  "pdb_prep L atom podDisruptionBudget =
     (with_labels L atom podDisruptionBudget)
       \<lparr>ob_Spec := \<lparr>pdb_MaxUnavailable = Some (IntVal 1),
          pdb_Selector = Some (getLabelSelector L atom)\<rparr>\<rparr>"

definition mutatePodDisruptionBudget ::
  "libs \<Rightarrow> Atom \<Rightarrow> PodDisruptionBudget \<Rightarrow> (PodDisruptionBudget \<times> go_error option) go" where
  "mutatePodDisruptionBudget L atom podDisruptionBudget =
     Ret (set_gvk_and_owner L PodDisruptionBudgetKind atom (pdb_prep L atom podDisruptionBudget))"

interpretation pdbm: object_mutation PodDisruptionBudgetKind pdb_prep mutatePodDisruptionBudget
  by unfold_locales (simp_all add: pdb_prep_def mutatePodDisruptionBudget_def with_labels_idem)

section \<open>Selectors and pods\<close>

text \<open>
  The three selectors are the same, and the labels of the pod template satisfy them: the pods of
  the deployment are the ones the service sends traffic to and the budget protects.
\<close>

lemma deployment_template_labels:
  assumes "labels_contract L" and "ownership_contract L"
    and "mutateDeployment r L atom d c = Ret (d', None)"
  shows "pt_Labels (dp_Template (ob_Spec d')) =
    pt_Labels (dp_Template (ob_Spec d)) ++ at_Labels atom ++ defaultLabels"
  using deploymentm.spec_of_prep [OF assms(2,3)]
  by (simp add: deployment_prep_def deployment_spec_def pod_template_def
      getObjectLabels_lookup [OF assms(1)])

lemma selectors:
  assumes "ownership_contract L"
  shows "mutateDeployment r L atom d c = Ret (d', None) \<Longrightarrow>
      dp_Selector (ob_Spec d') = Some (getLabelSelector L atom)"
    and "mutateService L atom s = Ret (s', None) \<Longrightarrow>
      ks_Selector (ob_Spec s') = ls_MatchLabels (getLabelSelector L atom)"
    and "mutatePodDisruptionBudget L atom p = Ret (p', None) \<Longrightarrow>
      pdb_Selector (ob_Spec p') = Some (getLabelSelector L atom)"
  using deploymentm.spec_of_prep [OF assms] servicem.spec_of_prep [OF assms]
    pdbm.spec_of_prep [OF assms]
  by (simp_all add: deployment_prep_def deployment_spec_def service_prep_def service_spec_def
      pdb_prep_def)

lemma deployment_selector_template:
  assumes "labels_contract L" and "ownership_contract L"
    and "mutateDeployment r L atom d c = Ret (d', None)"
  shows "ls_MatchLabels (getLabelSelector L atom) \<subseteq>\<^sub>m pt_Labels (dp_Template (ob_Spec d'))"
  unfolding deployment_template_labels [OF assms] getLabelSelector_lookup [OF assms(1)]
  by (auto simp: map_le_def map_add_def split: option.splits)

end
