(* ===== verification/Ingress.thy ===== *)
theory Ingress
  imports Middleware Workloads
begin

text \<open>
  The Traefik IngressRoute, \<open>internal/controller/ingressroute.go\<close>: per URL one route for the
  service feed, one per dataset feed and one for the downloads, which goes through the download
  middlewares in the order of their names.

  The order in which Go ranges over the download groups is the parameter \<open>ord\<close>; the results show
  that the route does not depend on it. On URLs made of plain segments the match rules are spelled
  out, and they are distinct when the feeds' names are.
\<close>

section \<open>Match rules and routes\<close>

definition getMatchRule :: "url \<Rightarrow> bool \<Rightarrow> string" where
  "getMatchRule url pathPrefix =
     (let host = ''(Host(`localhost`) || Host(`'' @ Hostname url @ ''`))'';
          pathType = (if pathPrefix then ''PathPrefix'' else ''Path'');
          path = pathType @ ''(`'' @ url_Path url @ ''`)''
      in host @ '' && '' @ path)"

definition getDefaultRule :: "Atom \<Rightarrow> string \<Rightarrow> Route" where
  "getDefaultRule atom matchRule =
     \<lparr>rt_Kind = ''Rule'',
      rt_Match = matchRule,
      rt_Services =
        [\<lparr>rs_Name = ob_Name (getBareService atom), rs_Kind = ''Service'',
          rs_Port = IntVal (of_nat atomPortNr), rs_PassHostHeader = None\<rparr>],
      rt_Middlewares = [at_Name atom @ headersSuffix, at_Name atom @ stripPrefixSuffix]\<rparr>"

definition azureStorageRule :: "libs \<Rightarrow> Atom \<Rightarrow> url \<Rightarrow> string list \<Rightarrow> Route" where
  "azureStorageRule L atom url downloadMiddlewares =
     \<lparr>rt_Kind = ''Rule'',
      rt_Match = getMatchRule (JoinPath url [''downloads/'']) True,
      rt_Services =
        [\<lparr>rs_Name = ''azure-storage'', rs_Kind = ''Service'', rs_Port = StrVal ''azure-storage'',
          rs_PassHostHeader = Pointer_bool L False\<rparr>],
      rt_Middlewares = (at_Name atom @ headersSuffix) # downloadMiddlewares\<rparr>"

definition getRoutesForURL :: "libs \<Rightarrow> Atom \<Rightarrow> URL \<Rightarrow> string list \<Rightarrow> Route list go" where
  "getRoutesForURL L atom url downloadMiddlewares =
     go_bind (deref url) (\<lambda>u.
     Ret (getDefaultRule atom (getMatchRule (JoinPath u [''index.xml'']) False) #
       map (\<lambda>datasetFeed. getDefaultRule atom
              (getMatchRule (JoinPath u [df_TechnicalName datasetFeed @ ''.xml'']) False))
         (at_DatasetFeeds atom) @
       [azureStorageRule L atom u downloadMiddlewares]))"

section \<open>The mutate function\<close>

definition getBareIngressRoute :: "Atom \<Rightarrow> IngressRoute" where
  "getBareIngressRoute obj =
     bare (at_Name obj @ nameSuffix) (at_Namespace obj) \<lparr>ir_Routes = []\<rparr>"

definition uptime_title :: "string \<Rightarrow> string" where
  "uptime_title title = (if \<not> str_HasSuffix title ''ATOM'' then title @ '' ATOM'' else title)"

definition downloadMiddlewareRef :: "Atom \<Rightarrow> string \<times> link_group \<Rightarrow> string go" where
  "downloadMiddlewareRef atom grp =
     go_bind (deref (lg_index (snd grp))) (\<lambda>i. Ret (at_Name atom @ downloadsSuffix @ itoa i))"

type_synonym iteration = "(string \<times> link_group) list \<Rightarrow> (string \<times> link_group) list"

definition downloadMiddlewareRefs :: "iteration \<Rightarrow> Atom \<Rightarrow> string list go" where
  "downloadMiddlewareRefs ord atom =
     go_bind (getDownloadLinkGroups (GetDownloadLinks atom)) (\<lambda>groups.
     go_bind (go_map (downloadMiddlewareRef atom) (ord groups)) (\<lambda>refs.
     Ret (sort refs)))"

definition ingress_routes :: "iteration \<Rightarrow> libs \<Rightarrow> Atom \<Rightarrow> Route list go" where
  "ingress_routes ord L atom =
     go_bind (downloadMiddlewareRefs ord atom) (\<lambda>downloadMiddlewares.
     if slice (as_IngressRouteURLs (at_Spec atom)) \<noteq> []
     then go_bind (go_map (\<lambda>i. getRoutesForURL L atom (iru_URL i) downloadMiddlewares)
                     (slice (as_IngressRouteURLs (at_Spec atom)))) (\<lambda>routes. Ret (concat routes))
     else getRoutesForURL L atom (sv_BaseURL (at_Service atom)) downloadMiddlewares)"

definition ingress_annotations :: "libs \<Rightarrow> Atom \<Rightarrow> labels go" where
  "ingress_annotations L atom =
     go_bind (deref (sv_BaseURL (at_Service atom))) (\<lambda>baseURL.
     Ret (GetUptimeAnnotations L (om_Annotations (at_ObjectMeta atom)) (at_Name atom @ nameSuffix)
       (uptime_title (sv_Title (at_Service atom))) (url_String (JoinPath baseURL [''index.xml'']))
       (at_Labels atom)))"

definition ingress_object ::
  "libs \<Rightarrow> Atom \<Rightarrow> labels \<Rightarrow> Route list \<Rightarrow> IngressRoute \<Rightarrow> IngressRoute" where
  "ingress_object L atom annotations routes ingressRoute =
     (let o1 = with_labels L atom ingressRoute
      in o1\<lparr>ob_ObjectMeta := (ob_ObjectMeta o1)\<lparr>om_Annotations := annotations\<rparr>,
            ob_Spec := \<lparr>ir_Routes = routes\<rparr>\<rparr>)"

definition mutateIngressRoute ::
  "iteration \<Rightarrow> libs \<Rightarrow> Atom \<Rightarrow> IngressRoute \<Rightarrow> (IngressRoute \<times> go_error option) go" where
  "mutateIngressRoute ord L atom ingressRoute =
     go_bind (ingress_annotations L atom) (\<lambda>annotations.
     go_bind (ingress_routes ord L atom) (\<lambda>routes.
     Ret (set_gvk_and_owner L IngressRouteKind atom
       (ingress_object L atom annotations routes ingressRoute))))"

definition ingress_prep :: "iteration \<Rightarrow> libs \<Rightarrow> Atom \<Rightarrow> IngressRoute \<Rightarrow> IngressRoute" where
  "ingress_prep ord L atom o1 =
     (case ingress_annotations L atom of
        Panic _ \<Rightarrow> with_labels L atom o1
      | Ret annotations \<Rightarrow>
          (case ingress_routes ord L atom of
             Panic _ \<Rightarrow> with_labels L atom o1
           | Ret routes \<Rightarrow> ingress_object L atom annotations routes o1))"

lemma ingress_object_simps [simp]:
  "ob_Name (ingress_object L atom an rs o1) = ob_Name o1"
  "ob_Namespace (ingress_object L atom an rs o1) = ob_Namespace o1"
  "ob_Labels (ingress_object L atom an rs o1) = getObjectLabels L atom (ob_Labels o1)"
  "om_Annotations (ob_ObjectMeta (ingress_object L atom an rs o1)) = an"
  "ob_Spec (ingress_object L atom an rs o1) = \<lparr>ir_Routes = rs\<rparr>"
  by (simp_all add: ingress_object_def Let_def)

lemma ingress_object_idem:
  assumes "labels_contract L" and "ob_Labels o2 = getObjectLabels L atom ls"
    and "om_Annotations (ob_ObjectMeta o2) = an" and "ob_Spec o2 = \<lparr>ir_Routes = rs\<rparr>"
  shows "ingress_object L atom an rs o2 = o2"
  using assms with_labels_idem [OF assms(1,2)] by (simp add: ingress_object_def Let_def)

interpretation ingressm: object_mutation IngressRouteKind "ingress_prep ord" "mutateIngressRoute ord"
  for ord
proof
  fix L atom and o1 o2 o3 :: IngressRoute
  show "mutateIngressRoute ord L atom o3 =
      Ret (set_gvk_and_owner L IngressRouteKind atom (ingress_prep ord L atom o3))"
    if "mutateIngressRoute ord L atom o1 = Ret (o2, None)"
    using that by (auto simp: mutateIngressRoute_def ingress_prep_def go_bind_eq_Ret)
  show "ingress_prep ord L atom o2 = o2"
    if "labels_contract L" "ob_Labels o2 = ob_Labels (ingress_prep ord L atom o1)"
      "om_Annotations (ob_ObjectMeta o2) = om_Annotations (ob_ObjectMeta (ingress_prep ord L atom o1))"
      "ob_Spec o2 = ob_Spec (ingress_prep ord L atom o1)"
    using that
    by (simp add: ingress_prep_def with_labels_idem ingress_object_idem split: go.splits)
qed (simp_all add: ingress_prep_def split: go.split)

section \<open>The middlewares a route refers to\<close>

definition iteration_order :: "iteration \<Rightarrow> bool" where
  "iteration_order ord \<longleftrightarrow> (\<forall>G. mset (ord G) = mset G)"

definition atom_keys_valid :: "Atom \<Rightarrow> bool" where
  "atom_keys_valid atom \<longleftrightarrow> list_all has_blob_key (GetDownloadLinks atom)"

lemma iteration_order_set: "iteration_order ord \<Longrightarrow> set (ord G) = set G"
  by (metis iteration_order_def set_mset_mset)

lemma sort_mset_eq: "mset xs = mset ys \<Longrightarrow> sort xs = sort (ys :: string list)"
  by (metis sorted_list_of_multiset_mset)

lemma downloadMiddlewareRef_group:
  assumes "atom_keys_valid atom" and "getDownloadLinkGroups (GetDownloadLinks atom) = Ret G"
    and "x \<in> set G"
  shows "downloadMiddlewareRef atom x =
    Ret (ob_Name (getBareDownloadLinkMiddleware atom (the (lg_index (snd x)))))"
proof -
  obtain i where "lg_index (snd x) = Some i"
    using dlg.index_some assms unfolding atom_keys_valid_def by blast
  then show ?thesis
    by (simp add: downloadMiddlewareRef_def getBareDownloadLinkMiddleware_def go_simps)
qed

lemma downloadMiddlewareRefs_eq:
  assumes "iteration_order ord" and "atom_keys_valid atom"
    and "getDownloadLinkGroups (GetDownloadLinks atom) = Ret G"
  shows "downloadMiddlewareRefs ord atom =
    Ret (sort (map (\<lambda>x. ob_Name (getBareDownloadLinkMiddleware atom (the (lg_index (snd x))))) G))"
    (is "_ = Ret (sort (map ?f G))")
proof -
  have "go_map (downloadMiddlewareRef atom) (ord G) = Ret (map ?f (ord G))"
    using downloadMiddlewareRef_group [OF assms(2,3)] iteration_order_set [OF assms(1)]
    by (intro go_map_Ret) simp
  moreover have "sort (map ?f (ord G)) = sort (map ?f G)"
    using assms(1) by (intro sort_mset_eq) (simp add: iteration_order_def)
  ultimately show ?thesis by (simp add: downloadMiddlewareRefs_def assms(3))
qed

lemma group_names_indices:
  assumes "atom_keys_valid atom" and "getDownloadLinkGroups (GetDownloadLinks atom) = Ret G"
  shows "map (\<lambda>x. ob_Name (getBareDownloadLinkMiddleware atom (the (lg_index (snd x))))) G =
    map (\<lambda>i. ob_Name (getBareDownloadLinkMiddleware atom i)) [0..<length G]"
proof (rule nth_equalityI)
  fix i
  assume "i < length (map (\<lambda>x. ob_Name (getBareDownloadLinkMiddleware atom (the (lg_index (snd x))))) G)"
  then have "lg_index (snd (G ! i)) = Some i" "i < length G"
    using dlg.index_nth [OF _ assms(2)] assms(1) by (simp_all add: atom_keys_valid_def)
  then show "map (\<lambda>x. ob_Name (getBareDownloadLinkMiddleware atom (the (lg_index (snd x))))) G ! i =
      map (\<lambda>i. ob_Name (getBareDownloadLinkMiddleware atom i)) [0..<length G] ! i"
    by simp
qed simp

text \<open>Whatever the order of the iteration, the result is the same, a panic included.\<close>

lemma downloadMiddlewareRefs_order:
  assumes "iteration_order ord1" and "iteration_order ord2"
  shows "downloadMiddlewareRefs ord1 atom = downloadMiddlewareRefs ord2 atom"
proof (cases "getDownloadLinkGroups (GetDownloadLinks atom)")
  case (Ret G)
  then have "atom_keys_valid atom"
    using getDownloadLinkGroups_panics unfolding atom_keys_valid_def by (metis panics.simps(1))
  with Ret show ?thesis
    using downloadMiddlewareRefs_eq assms by metis
qed (simp add: downloadMiddlewareRefs_def)

lemma ingress_routes_order:
  "iteration_order ord1 \<Longrightarrow> iteration_order ord2 \<Longrightarrow> ingress_routes ord1 L atom = ingress_routes ord2 L atom"
  unfolding ingress_routes_def by (simp only: downloadMiddlewareRefs_order [of ord1 ord2])

section \<open>Routes of plain URLs\<close>

text \<open>Names that need no escaping and hold no slash: their file \<open>name.xml\<close> is a plain segment.\<close>

definition plain_name :: "string \<Rightarrow> bool" where
  "plain_name n \<longleftrightarrow> slash \<notin> set n \<and> list_all (\<lambda>c. \<not> shouldEscape c encodePath) n"

lemma plain_xml [url_simps]: "plain_name n \<Longrightarrow> plain_segment (n @ ''.xml'')"
  by (auto simp: plain_name_def plain_segment_def shouldEscape_def alphanum_def less_eq_char_def
      append_eq_Cons_conv)

lemma plain_index [url_simps]: "plain_segment ''index.xml''" "plain_segment ''downloads''"
  by (simp_all add: plain_segment_def shouldEscape_def alphanum_def less_eq_char_def)

definition path_rule :: "url \<Rightarrow> string \<Rightarrow> string" where
  "path_rule u p = ''(Host(`localhost`) || Host(`'' @ Hostname u @ ''`)) && Path(`'' @ p @ ''`)''"

lemma getMatchRule_JoinPath:
  assumes "plain_url u segs" and "plain_segment s"
  shows "getMatchRule (JoinPath u [s]) False = path_rule u (abs_path (segs @ [s]))"
proof -
  have "Hostname (u\<lparr>url_Path := p, url_RawPath := []\<rparr>) = Hostname u" for p
    by (simp add: Hostname_def)
  then show ?thesis
    using JoinPath_plain [OF assms(1), of "[s]"] assms(2)
    by (simp add: getMatchRule_def path_rule_def)
qed

lemma path_rule_inj: "path_rule u p = path_rule u q \<longleftrightarrow> p = q"
  by (simp add: path_rule_def)

lemma abs_path_snoc_inj: "abs_path (segs @ [s]) = abs_path (segs @ [t]) \<longleftrightarrow> s = t"
  by (simp add: url_simps)

lemma feed_routes_plain:
  assumes "plain_url u segs" and "list_all (\<lambda>f. plain_name (df_TechnicalName f)) (at_DatasetFeeds atom)"
    and "getRoutesForURL L atom (Some u) ms = Ret rs"
  shows "map rt_Match (butlast rs) =
    map (\<lambda>n. path_rule u (abs_path (segs @ [n @ ''.xml''])))
      (''index'' # map df_TechnicalName (at_DatasetFeeds atom))"
proof -
  have "getMatchRule (JoinPath u [n @ ''.xml'']) False = path_rule u (abs_path (segs @ [n @ ''.xml'']))"
    if "plain_name n" for n
    using getMatchRule_JoinPath [OF assms(1) plain_xml [OF that]] .
  then have "map (\<lambda>f. getMatchRule (JoinPath u [df_TechnicalName f @ ''.xml'']) False) (at_DatasetFeeds atom)
      = map (\<lambda>f. path_rule u (abs_path (segs @ [df_TechnicalName f @ ''.xml'']))) (at_DatasetFeeds atom)"
    using assms(2) by (intro map_cong) (simp_all add: list_all_iff)
  then show ?thesis
    using assms(3) getMatchRule_JoinPath [OF assms(1) plain_index(1)]
    by (auto simp: getRoutesForURL_def go_simps getDefaultRule_def butlast_append comp_def)
qed

text \<open>No request path is claimed by two of the feed routes of one URL.\<close>

lemma feed_routes_distinct:
  assumes "plain_url u segs" and "list_all (\<lambda>f. plain_name (df_TechnicalName f)) (at_DatasetFeeds atom)"
    and "distinct (map df_TechnicalName (at_DatasetFeeds atom))"
    and "''index'' \<notin> set (map df_TechnicalName (at_DatasetFeeds atom))"
    and "getRoutesForURL L atom (Some u) ms = Ret rs"
  shows "distinct (map rt_Match (butlast rs))"
  unfolding feed_routes_plain [OF assms(1,2,5)]
  using assms(3,4)
  by (subst distinct_map) (auto simp: inj_on_def path_rule_inj abs_path_snoc_inj)

end
