(* ===== verification/GoTime.thy ===== *)
theory GoTime
  imports ApiV3 "HOL-Library.Monad_Syntax"
begin

text \<open>
  The part of Go's package \<open>time\<close> the operator uses on time stamps: the calendar date of an
  instant, \<open>Time.In\<close> with a fixed zone, and \<open>Time.Format\<close> and \<open>time.Parse\<close> with the layout RFC 3339.

  The main results: the conversion between days and dates is exact, every date it gives is a date of the
  calendar, and parsing a formatted time stamp gives it back.
\<close>

section \<open>Calendar\<close>

text \<open>
  The proleptic Gregorian date of a day, counted from 1 January 1970, as (year, month, day). Years
  are counted from 1 March inside, so that the leap day is the last day of a year. As in package
  \<open>time\<close>, the cycles of 400, 100, 4 and 1 years are cut off one after the other; the subtraction of a fourth
  takes care of the long last part of a cycle.
\<close>

definition civil_of_days :: "int \<Rightarrow> int \<times> int \<times> int" where
  "civil_of_days n =
     (let z = n + 719468;
          era = z div 146097; doe = z mod 146097;
          c = doe div 36524 - doe div 36524 div 4; doc = doe - 36524 * c;
          q = doc div 1461; doq = doc mod 1461;
          a = doq div 365 - doq div 365 div 4; doy = doq - 365 * a;
          mp = (5 * doy + 2) div 153;
          d = doy - (153 * mp + 2) div 5 + 1;
          m = (if mp < 10 then mp + 3 else mp - 9);
          y = 400 * era + 100 * c + 4 * q + a + (if m \<le> 2 then 1 else 0)
      in (y, m, d))"

definition days_of_civil :: "int \<Rightarrow> int \<Rightarrow> int \<Rightarrow> int" where
  "days_of_civil y m d =
     (let y' = (if m \<le> 2 then y - 1 else y);
          mp = (if m \<le> 2 then m + 9 else m - 3)
      in 365 * y' + y' div 4 - y' div 100 + y' div 400 + (153 * mp + 2) div 5 + d - 1 - 719468)"

definition isLeap :: "int \<Rightarrow> bool" where
  "isLeap y \<longleftrightarrow> y mod 4 = 0 \<and> (y mod 100 \<noteq> 0 \<or> y mod 400 = 0)"

definition daysIn :: "int \<Rightarrow> int \<Rightarrow> int" where
  "daysIn m y = (if m = 2 then if isLeap y then 29 else 28 else if m \<in> {4, 6, 9, 11} then 30 else 31)"

text \<open>The parts of a day number, with their bounds.\<close>

lemma day_parts:
  fixes n :: int
  obtains era c q a doy
  where "n + 719468 = 146097 * era + 36524 * c + 1461 * q + 365 * a + doy"
    and "0 \<le> c" "c \<le> 3" "0 \<le> q" "q \<le> 24" "0 \<le> a" "a \<le> 3" "0 \<le> doy" "doy \<le> 365"
    and "doy = 365 \<longrightarrow> a = 3 \<and> (q = 24 \<longrightarrow> c = 3)"
    and "civil_of_days n =
      (let mp = (5 * doy + 2) div 153; m = (if mp < 10 then mp + 3 else mp - 9)
       in (400 * era + 100 * c + 4 * q + a + (if m \<le> 2 then 1 else 0), m, doy - (153 * mp + 2) div 5 + 1))"
proof -
  define z where "z = n + 719468"
  define doe where "doe = z mod 146097"
  define c where "c = doe div 36524 - doe div 36524 div 4"
  define doc where "doc = doe - 36524 * c"
  define a where "a = doc mod 1461 div 365 - doc mod 1461 div 365 div 4"
  define doy where "doy = doc mod 1461 - 365 * a"
  have doe: "0 \<le> doe" "doe < 146097" by (simp_all add: doe_def)
  then have k: "0 \<le> doe div 36524" "doe div 36524 \<le> 4" by linarith+
  have c: "0 \<le> c" "c \<le> 3" "0 \<le> doc" "doc \<le> 36524" "doc = 36524 \<longrightarrow> c = 3"
  proof -
    have "doe div 36524 \<in> {0, 1, 2, 3, 4}" using k by auto
    then show "0 \<le> c" "c \<le> 3" "0 \<le> doc" "doc \<le> 36524" "doc = 36524 \<longrightarrow> c = 3"
      using doe unfolding doc_def c_def by auto
  qed
  have q: "0 \<le> doc div 1461" "doc div 1461 \<le> 24" using c(3,4) by linarith+
  define j where "j = doc mod 1461 div 365"
  have r: "0 \<le> doc mod 1461" "doc mod 1461 < 1461" by simp_all
  then have "j \<in> {0, 1, 2, 3, 4}" unfolding j_def by auto linarith+
  then have a: "0 \<le> a" "a \<le> 3" "0 \<le> doy" "doy \<le> 365" "doy = 365 \<longrightarrow> a = 3 \<and> doc mod 1461 = 1460"
    using r unfolding doy_def a_def j_def by auto
  have last1: "doy = 365 \<longrightarrow> a = 3 \<and> (doc div 1461 = 24 \<longrightarrow> c = 3)"
  proof (intro impI conjI)
    assume "doy = 365"
    then show "a = 3" using a(5) by simp
    assume "doc div 1461 = 24"
    moreover have "doc = 1461 * (doc div 1461) + doc mod 1461" by simp
    ultimately have "doc = 36524" using a(5) \<open>doy = 365\<close> by linarith
    then show "c = 3" using c(5) by simp
  qed
  have "doc = 1461 * (doc div 1461) + doc mod 1461" by simp
  then have "doe = 36524 * c + 1461 * (doc div 1461) + 365 * a + doy"
    unfolding doy_def doc_def by linarith
  then have sum: "n + 719468 = 146097 * (z div 146097) + 36524 * c + 1461 * (doc div 1461) + 365 * a + doy"
    unfolding doe_def z_def [symmetric] by (metis add.assoc mult_div_mod_eq)
  show thesis
    by (rule that [OF sum c(1,2) q a(1-4) last1])
      (simp only: civil_of_days_def Let_def z_def doe_def c_def doc_def a_def doy_def)
qed

lemma month_parts:
  fixes doy :: int
  assumes "0 \<le> doy" and "doy \<le> 365"
  defines "mp \<equiv> (5 * doy + 2) div 153"
  shows "0 \<le> mp" and "mp \<le> 11" and "1 \<le> doy - (153 * mp + 2) div 5 + 1"
    and "mp = 11 \<Longrightarrow> doy - (153 * mp + 2) div 5 + 1 = doy - 336"
    and "mp \<noteq> 11 \<Longrightarrow> doy - (153 * mp + 2) div 5 + 1 \<le> (if mp \<in> {1, 3, 6, 8} then 30 else 31)"
proof -
  show mp: "0 \<le> mp" "mp \<le> 11" using assms by (simp_all add: mp_def)
  have bounds: "153 * mp \<le> 5 * doy + 2" "5 * doy + 2 < 153 * mp + 153"
    unfolding mp_def by linarith+
  have "mp \<in> {0, 1, 2, 3, 4, 5, 6, 7, 8, 9, 10, 11}" using mp unfolding insert_iff empty_iff by presburger
  then show "1 \<le> doy - (153 * mp + 2) div 5 + 1" "mp = 11 \<Longrightarrow> doy - (153 * mp + 2) div 5 + 1 = doy - 336"
    "mp \<noteq> 11 \<Longrightarrow> doy - (153 * mp + 2) div 5 + 1 \<le> (if mp \<in> {1, 3, 6, 8} then 30 else 31)"
    using bounds by auto
qed

text \<open>No day is lost, and every date is one of the calendar.\<close>

lemma month_year:
  fixes mp y :: int
  shows "mp < 10 \<Longrightarrow> 0 \<le> mp \<Longrightarrow> (mp + 3 \<le> 2) = False"
    and "(y + 1) - 1 = y" and "y + 0 = y"
    and "(mp + 3) - 3 = mp" and "(mp - 9) + 9 = mp"
    and "mp \<le> 11 \<Longrightarrow> (mp - 9 \<le> 2) = True"
  by simp_all

lemma days_of_civil_of_days: "(case civil_of_days n of (y, m, d) \<Rightarrow> days_of_civil y m d) = n"
proof -
  obtain era c q a doy where parts: "n + 719468 = 146097 * era + 36524 * c + 1461 * q + 365 * a + doy"
      "0 \<le> c" "c \<le> 3" "0 \<le> q" "q \<le> 24" "0 \<le> a" "a \<le> 3" "0 \<le> doy" "doy \<le> 365"
    and civil: "civil_of_days n =
      (let mp = (5 * doy + 2) div 153; m = (if mp < 10 then mp + 3 else mp - 9)
       in (400 * era + 100 * c + 4 * q + a + (if m \<le> 2 then 1 else 0), m, doy - (153 * mp + 2) div 5 + 1))"
    by (rule day_parts [of n])
  let ?y = "400 * era + 100 * c + 4 * q + a"
  have "?y div 4 = 100 * era + 25 * c + q" "?y div 100 = 4 * era + c" "?y div 400 = era"
    using parts(2-7) by linarith+
  then have "365 * ?y + ?y div 4 - ?y div 100 + ?y div 400 + doy - 719468 = n"
    using parts(1) by simp
  then have n: "365 * ?y + ?y div 4 - ?y div 100 + ?y div 400 + k + (doy - k + 1) - 1 - 719468 = n" for k
    by simp
  define mp where "mp = (5 * doy + 2) div 153"
  have "0 \<le> mp" "mp \<le> 11" unfolding mp_def using month_parts(1,2) [OF parts(8,9)] by simp_all
  then show ?thesis
    by (cases "mp < 10")
      (simp_all only: civil days_of_civil_def Let_def mp_def [symmetric] month_year prod.case if_True if_False n)
qed

lemma civil_of_days_valid:
  assumes "civil_of_days n = (y, m, d)"
  shows "1 \<le> m" and "m \<le> 12" and "1 \<le> d" and "d \<le> daysIn m y"
proof -
  obtain era c q a doy where parts: "0 \<le> c" "c \<le> 3" "0 \<le> q" "q \<le> 24" "0 \<le> a" "a \<le> 3" "0 \<le> doy" "doy \<le> 365"
      "doy = 365 \<longrightarrow> a = 3 \<and> (q = 24 \<longrightarrow> c = 3)"
    and civil: "civil_of_days n =
      (let mp = (5 * doy + 2) div 153; m = (if mp < 10 then mp + 3 else mp - 9)
       in (400 * era + 100 * c + 4 * q + a + (if m \<le> 2 then 1 else 0), m, doy - (153 * mp + 2) div 5 + 1))"
    by (rule day_parts [of n])
  define mp where "mp = (5 * doy + 2) div 153"
  note month = month_parts [OF parts(7,8), folded mp_def]
  have ymd: "m = (if mp < 10 then mp + 3 else mp - 9)" "d = doy - (153 * mp + 2) div 5 + 1"
      "y = 400 * era + 100 * c + 4 * q + a + (if m \<le> 2 then 1 else 0)"
    using civil assms by (simp_all add: Let_def mp_def [symmetric])
  show "1 \<le> m" "m \<le> 12" "1 \<le> d" using month(1,2,3) by (simp_all add: ymd)
  show "d \<le> daysIn m y"
  proof (cases "mp = 11")
    case False
    then have "d \<le> (if mp \<in> {1, 3, 6, 8} then 30 else 31)" "m \<noteq> 2" using month(5) month(1,2) by (auto simp: ymd)
    moreover have "mp \<in> {1, 3, 6, 8} \<longleftrightarrow> m \<in> {4, 6, 9, 11}"
      using month(1,2) False unfolding ymd insert_iff empty_iff by presburger
    ultimately show ?thesis by (simp add: daysIn_def)
  next
    case True
    then have m: "m = 2" and d: "d = doy - 336" using month(4) by (simp_all add: ymd)
    show ?thesis
    proof (cases "doy = 365")
      case False
      then show ?thesis using parts(8) by (simp add: m d daysIn_def)
    next
      case True
      then have y: "y = 400 * era + 100 * c + 4 * q + 4" using parts(9) by (simp add: ymd(3) m)
      have "isLeap y"
      proof (cases "q = 24")
        case True
        then have "y = 400 * (era + 1)" using y parts(9) \<open>doy = 365\<close> by simp
        then show ?thesis by (simp add: isLeap_def)
      next
        case False
        have "y = (4 * q + 4) + 100 * (4 * era + c)" using y by simp
        then have "y mod 100 = (4 * q + 4) mod 100" by (simp only: mod_mult_self2)
        then have "y mod 100 = 4 * q + 4" using False parts(3,4) by (simp add: mod_pos_pos_trivial)
        moreover have "y mod 4 = 0" unfolding y by presburger
        ultimately show ?thesis using parts(3) by (simp add: isLeap_def)
      qed
      then show ?thesis using True by (simp add: m d daysIn_def)
    qed
  qed
qed

section \<open>Formatting\<close>

text \<open>\<open>appendInt(b, x, width)\<close>: a sign for negative numbers, zeros up to the width.\<close>

definition pad_int :: "int \<Rightarrow> nat \<Rightarrow> string" where
  "pad_int x width =
     (let ds = itoa (nat (abs x))
      in (if x < 0 then ''-'' else []) @ replicate (width - length ds) (CHR ''0'') @ ds)"

definition time_In :: "Time \<Rightarrow> int \<Rightarrow> Time" where
  "time_In t offset = t\<lparr>time_Offset := offset\<rparr>"

definition zone_suffix :: "int \<Rightarrow> string" where
  "zone_suffix offset =
     (if offset = 0 then ''Z''
      else let zone = abs offset div 60
           in (if offset < 0 \<and> zone \<noteq> 0 then ''-'' else ''+'') @ pad_int (zone div 60) 2 @ '':'' @ pad_int (zone mod 60) 2)"

definition FormatRFC3339 :: "Time \<Rightarrow> string" where
  "FormatRFC3339 t =
     (let secs = time_UnixNano t div 1000000000 + time_Offset t;
          sod = secs mod 86400
      in (case civil_of_days (secs div 86400) of
            (y, m, d) \<Rightarrow>
              pad_int y 4 @ ''-'' @ pad_int m 2 @ ''-'' @ pad_int d 2 @ ''T'' @
              pad_int (sod div 3600) 2 @ '':'' @ pad_int (sod mod 3600 div 60) 2 @ '':'' @
              pad_int (sod mod 60) 2 @ zone_suffix (time_Offset t)))"

text \<open>The time stamp of the repository's own test data.\<close>

lemma FormatRFC3339_example:
  "FormatRFC3339 \<lparr>time_UnixNano = 1136214245000000000, time_Offset = 0\<rparr> = ''2006-01-02T15:04:05Z''"
  by code_simp

lemma FormatRFC3339_offset_example:
  "FormatRFC3339 \<lparr>time_UnixNano = 1136214245000000000, time_Offset = -25200\<rparr> =
    ''2006-01-02T08:04:05-07:00''"
  by code_simp

text \<open>In UTC the text depends on the second only, not on where the time was written.\<close>

lemma time_In_UnixNano [simp]: "time_UnixNano (time_In t z) = time_UnixNano t"
  by (simp add: time_In_def)

lemma FormatRFC3339_In_offset_irrelevant:
  "time_UnixNano t = time_UnixNano u \<Longrightarrow> FormatRFC3339 (time_In t z) = FormatRFC3339 (time_In u z)"
  by (simp add: FormatRFC3339_def time_In_def)

section \<open>Parsing\<close>

text \<open>
  \<open>time.Parse(time.RFC3339, s)\<close>. Each step takes the text and returns what it read and the rest; \<open>None\<close> is
  an error (the callers look at the error only to see whether there is one). The strict first
  attempt of the package accepts a part of what this general one accepts, with the same result.
\<close>

definition is_digit :: "char \<Rightarrow> bool" where
  "is_digit c \<longleftrightarrow> CHR ''0'' \<le> c \<and> c \<le> CHR ''9''"

definition digit_val :: "char \<Rightarrow> int" where
  "digit_val c = int (of_char c) - 48"

fun getnum :: "bool \<Rightarrow> string \<Rightarrow> (int \<times> string) option" where
  "getnum fixed [] = None"
| "getnum fixed [a] = (if is_digit a \<and> \<not> fixed then Some (digit_val a, []) else None)"
| "getnum fixed (a # b # s) =
     (if \<not> is_digit a then None
      else if is_digit b then Some (10 * digit_val a + digit_val b, s)
      else if fixed then None else Some (digit_val a, b # s))"

fun get_year :: "string \<Rightarrow> (int \<times> string) option" where
  "get_year (a # b # c # d # s) =
     (if list_all is_digit [a, b, c, d]
      then Some (1000 * digit_val a + 100 * digit_val b + 10 * digit_val c + digit_val d, s) else None)"
| "get_year s = None"

fun skip :: "char \<Rightarrow> string \<Rightarrow> string option" where
  "skip c [] = None"
| "skip c (d # s) = (if d = c then Some s else None)"

definition in_range :: "int \<Rightarrow> int \<Rightarrow> int \<Rightarrow> unit option" where
  "in_range lo x hi = (if lo \<le> x \<and> x \<le> hi then Some () else None)"

text \<open>A fraction of a second, which the layout does not mention: digits behind the ninth are dropped.\<close>

definition get_fraction :: "string \<Rightarrow> int \<times> string" where
  "get_fraction s =
     (case s of
        p # d # _ \<Rightarrow>
          if (p = CHR ''.'' \<or> p = CHR '','') \<and> is_digit d
          then let ds = takeWhile is_digit (tl s); ns = take 9 ds
               in (foldl (\<lambda>n c. 10 * n + digit_val c) 0 ns * 10 ^ (9 - length ns), drop (length ds) (tl s))
          else (0, s)
      | _ \<Rightarrow> (0, s))"

text \<open>The zone; 24 hours and 60 minutes are let through.\<close>

definition get_zone :: "string \<Rightarrow> (int \<times> string) option" where
  "get_zone s =
     (if s \<noteq> [] \<and> hd s = CHR ''Z'' then Some (0, tl s)
      else case s of
        sign # h1 # h2 # colon # m1 # m2 # r \<Rightarrow> do {
          _ \<leftarrow> (if colon = CHR '':'' then Some () else None);
          (hr, _) \<leftarrow> getnum True [h1, h2];
          (mm, _) \<leftarrow> getnum True [m1, m2];
          in_range 0 hr 24;
          in_range 0 mm 60;
          let offset = (hr * 60 + mm) * 60;
          if sign = CHR ''+'' then Some (offset, r)
          else if sign = CHR ''-'' then Some (- offset, r) else None
        }
      | _ \<Rightarrow> None)"

definition time_Parse :: "string \<Rightarrow> Time option" where
  "time_Parse s = do {
     (y, s) \<leftarrow> get_year s;
     s \<leftarrow> skip (CHR ''-'') s;
     (m, s) \<leftarrow> getnum True s;
     in_range 1 m 12;
     s \<leftarrow> skip (CHR ''-'') s;
     (d, s) \<leftarrow> getnum True s;
     s \<leftarrow> skip (CHR ''T'') s;
     (hour, s) \<leftarrow> getnum False s;
     in_range 0 hour 23;
     s \<leftarrow> skip (CHR '':'') s;
     (mins, s) \<leftarrow> getnum True s;
     in_range 0 mins 59;
     s \<leftarrow> skip (CHR '':'') s;
     (sec, s) \<leftarrow> getnum True s;
     in_range 0 sec 59;
     let (nsec, s) = get_fraction s;
     (offset, s) \<leftarrow> get_zone s;
     in_range 1 d (daysIn m y);
     if s = [] then
       Some \<lparr>time_UnixNano =
               (86400 * days_of_civil y m d + 3600 * hour + 60 * mins + sec - offset) * 1000000000 + nsec,
             time_Offset = offset\<rparr>
     else None
   }"

lemma time_Parse_examples:
  "time_Parse ''2006-01-02T15:04:05Z'' = Some \<lparr>time_UnixNano = 1136214245000000000, time_Offset = 0\<rparr>"
  "time_Parse ''2006-01-02T8:04:05,25-07:00'' =
     Some \<lparr>time_UnixNano = 1136214245250000000, time_Offset = -25200\<rparr>"
  "time_Parse ''2023-02-29T00:00:00Z'' = None"
  "time_Parse ''2006-01-02'' = None"
  "time_Parse [] = None"
  by code_simp+

text \<open>Every step reads back what the formatting of its part wrote.\<close>

lemma digit_of_nat:
  "n < 10 \<Longrightarrow> is_digit (char_of (48 + n :: nat))" "n < 10 \<Longrightarrow> digit_val (char_of (48 + n :: nat)) = int n"
  by (simp_all add: is_digit_def digit_val_def less_eq_char_def)

lemma last_digit:
  fixes n :: nat
  assumes "n < 10 * b"
  obtains k d where "n = 10 * k + d" and "k < b" and "d < 10"
  by (rule that [of "n div 10" "n mod 10"]) (use assms in auto)

lemma itoa_snoc:
  "d < 10 \<Longrightarrow> itoa (10 * k + d) = (if k = 0 then [] else itoa k) @ [char_of (48 + d)]"
  by (simp add: itoa.simps [of "10 * k + d"])

lemma char_of_48: "CHR ''0'' = char_of (48 :: nat)"
  by code_simp

lemma replicate_small: "replicate 2 x = [x, x]" "replicate 3 x = [x, x, x]"
  by (simp_all add: numeral_eq_Suc)

lemma itoa_digit: "d < 10 \<Longrightarrow> itoa d = [char_of (48 + d)]"
  using itoa_snoc [of d 0] by simp

lemma pad_nat_2:
  assumes "a < 10" and "b < 10"
  shows "pad_int (int (10 * a + b)) 2 = [char_of (48 + a), char_of (48 + b)]"
  using assms by (simp add: pad_int_def nat_int itoa_snoc itoa_digit char_of_48 Let_def del: of_nat_add of_nat_mult)

lemma pad_nat_4:
  assumes "a < 10" and "b < 10" and "c < 10" and "d < 10"
  shows "pad_int (int (10 * (10 * (10 * a + b) + c) + d)) 4 =
    [char_of (48 + a), char_of (48 + b), char_of (48 + c), char_of (48 + d)]"
proof -
  define k where "k = 10 * a + b"
  define l where "l = 10 * k + c"
  have k: "itoa k = (if a = 0 then [] else [char_of (48 + a)]) @ [char_of (48 + b)]" "k = 0 \<longleftrightarrow> a = 0 \<and> b = 0"
    using assms by (simp_all add: k_def itoa_snoc itoa_digit)
  have l: "itoa l = (if k = 0 then [] else itoa k) @ [char_of (48 + c)]" "l = 0 \<longleftrightarrow> k = 0 \<and> c = 0"
    using assms by (simp_all add: l_def itoa_snoc)
  have "itoa (10 * l + d) = (if l = 0 then [] else itoa l) @ [char_of (48 + d)]"
    using assms by (simp add: itoa_snoc)
  then have "pad_int (int (10 * l + d)) 4 =
      [char_of (48 + a), char_of (48 + b), char_of (48 + c), char_of (48 + d)]"
    by (simp add: pad_int_def nat_int l k char_of_48 Let_def replicate_small del: of_nat_add of_nat_mult)
  then show ?thesis by (simp only: l_def k_def)
qed

lemma pad_2_cases:
  assumes "0 \<le> x" and "x < 100"
  obtains a b where "pad_int x 2 = [a, b]"
proof -
  obtain n where n: "x = int n" using assms(1) by (rule nonneg_int_cases)
  obtain k d where "n = 10 * k + d" "k < 10" "d < 10" using assms(2) n by (auto intro: last_digit [of n 10])
  then show ?thesis using that by (simp only: n pad_nat_2)
qed

lemma getnum_pad:
  assumes "0 \<le> x" and "x < 100"
  shows "getnum fixed (pad_int x 2 @ s) = Some (x, s)"
proof -
  obtain n where n: "x = int n" using assms(1) by (rule nonneg_int_cases)
  obtain a b where "n = 10 * a + b" "a < 10" "b < 10"
    using assms(2) n by (auto intro: last_digit [of n 10])
  then show ?thesis by (simp only: n pad_nat_2) (simp add: digit_of_nat)
qed

lemma get_year_pad:
  assumes "0 \<le> y" and "y < 10000"
  shows "get_year (pad_int y 4 @ s) = Some (y, s)"
proof -
  obtain n where n: "y = int n" using assms(1) by (rule nonneg_int_cases)
  obtain k d where k: "n = 10 * k + d" "k < 1000" "d < 10" using assms(2) n by (auto intro: last_digit [of n 1000])
  obtain l c where l: "k = 10 * l + c" "l < 100" "c < 10" using k(2) by (auto intro: last_digit [of k 100])
  obtain a b where a: "l = 10 * a + b" "a < 10" "b < 10" using l(2) by (auto intro: last_digit [of l 10])
  show ?thesis
    using k(3) l(3) a(2,3) by (simp only: n k(1) l(1) a(1) pad_nat_4) (simp add: digit_of_nat)
qed

lemma get_zone_suffix:
  assumes "offset mod 60 = 0" and "\<bar>offset\<bar> < 90000"
  shows "get_zone (zone_suffix offset) = Some (offset, [])"
    and "get_fraction (zone_suffix offset) = (0, zone_suffix offset)"
proof -
  define h where "h = \<bar>offset\<bar> div 60 div 60"
  define m where "m = \<bar>offset\<bar> div 60 mod 60"
  define sign where "sign = (if offset < 0 then CHR ''-'' else CHR ''+'')"
  have h: "0 \<le> h" "h \<le> 24" and m: "0 \<le> m" "m < 60" using assms(2) by (simp_all add: h_def m_def)
  have "\<bar>offset\<bar> mod 60 = 0"
    using assms(1) by (cases "offset < 0") (simp_all add: zmod_zminus1_eq_if)
  then have abs: "60 * (\<bar>offset\<bar> div 60) = \<bar>offset\<bar>" by (metis add.right_neutral mult_div_mod_eq)
  moreover have "\<bar>offset\<bar> div 60 = h * 60 + m" by (simp add: h_def m_def)
  ultimately have sum: "(h * 60 + m) * 60 = \<bar>offset\<bar>" by (metis mult.commute)
  obtain a b where ab: "pad_int h 2 = [a, b]" using h by (auto intro: pad_2_cases [of h])
  obtain c d where cd: "pad_int m 2 = [c, d]" using m by (auto intro: pad_2_cases [of m])
  have nums: "getnum True [a, b] = Some (h, [])" "getnum True [c, d] = Some (m, [])"
    using getnum_pad [of h True "[]"] getnum_pad [of m True "[]"] h m by (simp_all add: ab cd)
  have suffix: "zone_suffix offset = [sign, a, b, CHR '':'', c, d]" if "offset \<noteq> 0"
  proof -
    have "\<bar>offset\<bar> div 60 \<noteq> 0" using that abs by (metis abs_eq_0 mult_zero_right)
    then show ?thesis
      using that by (simp add: zone_suffix_def Let_def h_def [symmetric] m_def [symmetric] ab cd sign_def)
  qed
  have sign: "sign \<noteq> CHR ''Z''" "sign \<noteq> CHR ''.''" "sign \<noteq> CHR '',''" by (simp_all add: sign_def)
  show "get_zone (zone_suffix offset) = Some (offset, [])"
  proof (cases "offset = 0")
    case True
    then show ?thesis by (simp add: zone_suffix_def get_zone_def)
  next
    case False
    then show ?thesis
      using sign h m sum
      by (simp add: suffix get_zone_def nums in_range_def sign_def Let_def del: getnum.simps)
  qed
  show "get_fraction (zone_suffix offset) = (0, zone_suffix offset)"
  proof (cases "offset = 0")
    case True
    then show ?thesis by (simp add: zone_suffix_def get_fraction_def)
  next
    case False
    then show ?thesis using sign by (simp add: suffix get_fraction_def)
  qed
qed

lemma time_Parse_parts:
  assumes "0 \<le> y" "y < 10000" and "1 \<le> m" "m \<le> 12" and "1 \<le> d" "d \<le> daysIn m y"
    and "0 \<le> hour" "hour \<le> 23" and "0 \<le> mins" "mins \<le> 59" and "0 \<le> sec" "sec \<le> 59"
    and "offset mod 60 = 0" and "\<bar>offset\<bar> < 90000"
  shows "time_Parse
      (pad_int y 4 @ ''-'' @ pad_int m 2 @ ''-'' @ pad_int d 2 @ ''T'' @ pad_int hour 2 @ '':'' @ pad_int mins 2 @
       '':'' @ pad_int sec 2 @ zone_suffix offset) =
    Some \<lparr>time_UnixNano = (86400 * days_of_civil y m d + 3600 * hour + 60 * mins + sec - offset) * 1000000000 + 0,
          time_Offset = offset\<rparr>"
proof -
  have "d \<le> 31" using assms(6) by (simp add: daysIn_def split: if_splits)
  then show ?thesis
    using assms get_zone_suffix [OF assms(13,14)]
    by (simp add: time_Parse_def get_year_pad getnum_pad in_range_def del: getnum.simps get_year.simps)
qed

definition time_Year :: "Time \<Rightarrow> int" where
  "time_Year t = fst (civil_of_days ((time_UnixNano t div 1000000000 + time_Offset t) div 86400))"

lemma time_Parse_Format:
  assumes "0 \<le> time_Year t" and "time_Year t < 10000"
    and "time_Offset t mod 60 = 0" and "\<bar>time_Offset t\<bar> < 90000"
  shows "time_Parse (FormatRFC3339 t) = Some (t\<lparr>time_UnixNano := time_UnixNano t div 1000000000 * 1000000000\<rparr>)"
proof -
  define secs where "secs = time_UnixNano t div 1000000000 + time_Offset t"
  define sod where "sod = secs mod 86400"
  obtain y m d where civil: "civil_of_days (secs div 86400) = (y, m, d)" by (cases "civil_of_days (secs div 86400)")
  have y: "0 \<le> y" "y < 10000" using assms(1,2) civil by (simp_all add: time_Year_def secs_def)
  note valid = civil_of_days_valid [OF civil]
  have days: "86400 * days_of_civil y m d + sod = secs"
    using days_of_civil_of_days [of "secs div 86400"] by (simp add: civil sod_def)
  have clock: "0 \<le> sod div 3600" "sod div 3600 \<le> 23" "0 \<le> sod mod 3600 div 60" "sod mod 3600 div 60 \<le> 59"
    "0 \<le> sod mod 60" "sod mod 60 \<le> 59" and sum: "3600 * (sod div 3600) + 60 * (sod mod 3600 div 60) + sod mod 60 = sod"
  proof -
    have "0 \<le> sod" "sod < 86400" by (simp_all add: sod_def)
    then show "0 \<le> sod div 3600" "sod div 3600 \<le> 23" by linarith+
    have "0 \<le> sod mod 3600" "sod mod 3600 < 3600" by simp_all
    then show "0 \<le> sod mod 3600 div 60" "sod mod 3600 div 60 \<le> 59" by linarith+
    have "0 \<le> sod mod 60" "sod mod 60 < 60" by simp_all
    then show "0 \<le> sod mod 60" "sod mod 60 \<le> 59" by linarith+
    show "3600 * (sod div 3600) + 60 * (sod mod 3600 div 60) + sod mod 60 = sod"
      using mult_div_mod_eq [of 3600 sod] mult_div_mod_eq [of 60 "sod mod 3600"]
        mod_mod_cancel [of 60 3600 sod] by (simp add: add.assoc)
  qed
  have "FormatRFC3339 t = pad_int y 4 @ ''-'' @ pad_int m 2 @ ''-'' @ pad_int d 2 @ ''T'' @
      pad_int (sod div 3600) 2 @ '':'' @ pad_int (sod mod 3600 div 60) 2 @ '':'' @
      pad_int (sod mod 60) 2 @ zone_suffix (time_Offset t)"
    by (simp add: FormatRFC3339_def Let_def secs_def [symmetric] sod_def [symmetric] civil)
  then have "time_Parse (FormatRFC3339 t) = Some
      \<lparr>time_UnixNano = (86400 * days_of_civil y m d + 3600 * (sod div 3600) + 60 * (sod mod 3600 div 60) +
          sod mod 60 - time_Offset t) * 1000000000 + 0, time_Offset = time_Offset t\<rparr>"
    using time_Parse_parts [OF y valid clock assms(3,4)] by (simp only:)
  moreover have "86400 * days_of_civil y m d + 3600 * (sod div 3600) + 60 * (sod mod 3600 div 60) + sod mod 60 -
      time_Offset t = time_UnixNano t div 1000000000"
    using days sum secs_def by linarith
  ultimately show ?thesis by simp
qed

end
