(* ===== verification/Generator.thy ===== *)
theory Generator
  imports GoTime DownloadGroups
begin

text \<open>
  The translation of an Atom and its OwnerInfo into the configuration of the atom generator,
  \<open>internal/controller/generator/mapper.go\<close>. This theory holds the translation itself; its
  properties are in \<open>Generator_Props\<close>.

  The functions of other modules are the parameters of \<open>gen_libs\<close>: rendering a Mustache template,
  the two text forms of a bounding box, taking a pointer to a string, and writing YAML. A result of type
  \<open>'a res\<close> is a value, an error, or a panic (a nil pointer on the way).
\<close>

section \<open>The types of the generator and of the OwnerInfo resource\<close>

record FeedLink =
  fl_Href :: string
  fl_Data :: "string option"
  fl_Rel :: string
  fl_Type :: string
  fl_Hreflang :: "string option"
  fl_Title :: string
  fl_Time :: "string option"
  fl_Bbox :: "string option"

record FeedCategory =
  fc_Term :: string
  fc_Label :: string

record FeedAuthor =
  fa_Name :: string
  fa_Email :: string

record FeedEntry =
  fe_ID :: string
  fe_Title :: string
  fe_Content :: string
  fe_Summary :: string
  fe_Link :: "FeedLink list"
  fe_Rights :: string
  fe_Updated :: "string option"
  fe_Polygon :: string
  fe_Category :: "FeedCategory list"
  fe_SpatialDatasetIdentifierCode :: "string option"
  fe_SpatialDatasetIdentifierNamespace :: "string option"

record Feed =
  fd_XMLStylesheet :: "string option"
  fd_Xmlns :: string
  fd_Georss :: string
  fd_InspireDls :: string
  fd_Lang :: "string option"
  fd_ID :: string
  fd_Title :: string
  fd_Subtitle :: string
  fd_Link :: "FeedLink list"
  fd_Rights :: string
  fd_Author :: FeedAuthor
  fd_Entry :: "FeedEntry list"

record Feeds =
  fs_Feeds :: "Feed list"

definition zero_FeedLink :: FeedLink where
  "zero_FeedLink = \<lparr>fl_Href = [], fl_Data = None, fl_Rel = [], fl_Type = [], fl_Hreflang = None,
     fl_Title = [], fl_Time = None, fl_Bbox = None\<rparr>"

definition zero_FeedEntry :: FeedEntry where
  "zero_FeedEntry = \<lparr>fe_ID = [], fe_Title = [], fe_Content = [], fe_Summary = [], fe_Link = [],
     fe_Rights = [], fe_Updated = None, fe_Polygon = [], fe_Category = [],
     fe_SpatialDatasetIdentifierCode = None, fe_SpatialDatasetIdentifierNamespace = None\<rparr>"

record MetadataURL =
  mu_HrefTemplate :: string

record MetadataURLs =
  mus_CSW :: "MetadataURL option"
  mus_OpenSearch :: "MetadataURL option"
  mus_HTML :: "MetadataURL option"

record OwnerAtom =
  oa_Author :: Author
  oa_DefaultStylesheet :: "URL option"

record OwnerInfo =
  oi_Name :: string
  oi_Atom :: "OwnerAtom option"
  oi_MetadataUrls :: "MetadataURLs option"

record gen_libs =
  Render :: "string \<Rightarrow> (string \<times> string) list \<Rightarrow> go_error + string"
  ToPolygon :: "BBox \<Rightarrow> string"
  ToExtent :: "BBox \<Rightarrow> string"
  Pointer_string :: "string \<Rightarrow> string option"
  Marshal :: "Feeds \<Rightarrow> go_error + string"

section \<open>Small helpers\<close>

definition escapeQuotes :: "string \<Rightarrow> string" where
  "escapeQuotes s = str_ReplaceByte s (CHR 0x22) [CHR 0x5C, CHR 0x22]"

text \<open>\<open>BaseURL.JoinPath(elem).String()\<close>, which panics when the base URL is nil.\<close>

definition joined :: "URL \<Rightarrow> string list \<Rightarrow> string res" where
  "joined base elem = go_bind (deref base) (\<lambda>u. ok (url_String (JoinPath u elem)))"

abbreviation base_of :: "Atom \<Rightarrow> URL" where
  "base_of atom \<equiv> sv_BaseURL (at_Service atom)"

definition getCategory :: "SRS \<Rightarrow> FeedCategory res" where
  "getCategory srs =
     go_bind (deref (srs_URI srs)) (\<lambda>u. ok \<lparr>fc_Term = url_String u, fc_Label = srs_Name srs\<rparr>)"

definition getAuthor :: "Author \<Rightarrow> FeedAuthor" where
  "getAuthor author = \<lparr>fa_Name = au_Name author, fa_Email = au_Email author\<rparr>"

definition getSelfLink :: "Atom \<Rightarrow> FeedLink res" where
  "getSelfLink atom =
     res_bind (joined (base_of atom) [''index.xml'']) (\<lambda>href.
     ok (zero_FeedLink\<lparr>fl_Rel := ''self'', fl_Href := href,
           fl_Title := escapeQuotes (sv_Title (at_Service atom)),
           fl_Type := ''application/atom+xml''\<rparr>))"

definition replaceMustacheTemplate :: "gen_libs \<Rightarrow> string \<Rightarrow> string \<Rightarrow> string res" where
  "replaceMustacheTemplate G hrefTemplate identifier =
     Ret (Render G hrefTemplate [(''identifier'', identifier)])"

section \<open>Metadata links\<close>

text \<open>
  The href of a metadata link: \<open>ownerInfo.Spec.MetadataUrls\<close> and the record in it are pointers.
\<close>

definition metadata_href ::
  "gen_libs \<Rightarrow> OwnerInfo \<Rightarrow> (MetadataURLs \<Rightarrow> MetadataURL option) \<Rightarrow> string \<Rightarrow> string res" where
  "metadata_href G ownerInfo sel identifier =
     go_bind (deref (oi_MetadataUrls ownerInfo)) (\<lambda>mus.
     go_bind (deref (sel mus)) (\<lambda>mu.
     replaceMustacheTemplate G (mu_HrefTemplate mu) identifier))"

fun metadata_loop ::
  "gen_libs \<Rightarrow> string \<Rightarrow> OwnerInfo \<Rightarrow> string \<Rightarrow> bool \<Rightarrow> string list \<Rightarrow> FeedLink list \<Rightarrow> FeedLink list res"
where
  "metadata_loop G ident ownerInfo htmlTitle onlyCSW [] links = ok links"
| "metadata_loop G ident ownerInfo htmlTitle onlyCSW (template # templates) links =
     (if template = ''csw'' then
        res_bind (metadata_href G ownerInfo mus_CSW ident) (\<lambda>href.
        let links' = links @ [zero_FeedLink\<lparr>fl_Rel := ''describedby'', fl_Href := href,
                                fl_Type := ''application/xml''\<rparr>]
        in if onlyCSW then ok links'
           else metadata_loop G ident ownerInfo htmlTitle onlyCSW templates links')
      else if template = ''opensearch'' then
        res_bind (metadata_href G ownerInfo mus_OpenSearch ident) (\<lambda>href.
        metadata_loop G ident ownerInfo htmlTitle onlyCSW templates
          (links @ [zero_FeedLink\<lparr>fl_Rel := ''search'', fl_Href := href,
             fl_Title := ''Open Search document voor INSPIRE Download service PDOK'',
             fl_Type := ''application/opensearchdescription+xml''\<rparr>]))
      else if template = ''html'' then
        res_bind (metadata_href G ownerInfo mus_HTML ident) (\<lambda>href.
        metadata_loop G ident ownerInfo htmlTitle onlyCSW templates
          (links @ [zero_FeedLink\<lparr>fl_Rel := ''describedby'', fl_Href := href,
             fl_Type := ''text/html'', fl_Title := htmlTitle\<rparr>]))
      else metadata_loop G ident ownerInfo htmlTitle onlyCSW templates links)"

definition addMetadataLinks ::
  "gen_libs \<Rightarrow> MetadataLink \<Rightarrow> OwnerInfo \<Rightarrow> FeedLink list \<Rightarrow> string \<Rightarrow> bool \<Rightarrow> FeedLink list res" where
  "addMetadataLinks G metadataLinks ownerInfo links htmlTitle onlyCSW =
     metadata_loop G (ml_MetadataIdentifier metadataLinks) ownerInfo htmlTitle onlyCSW
       (ml_Templates metadataLinks) links"

text \<open>The call sites: only when the pointer to the metadata links is not nil.\<close>

definition addMetadataLinks_opt ::
  "gen_libs \<Rightarrow> MetadataLink option \<Rightarrow> OwnerInfo \<Rightarrow> FeedLink list \<Rightarrow> string \<Rightarrow> bool \<Rightarrow> FeedLink list res" where
  "addMetadataLinks_opt G metadataLinks ownerInfo links htmlTitle onlyCSW =
     (case metadataLinks of
        None \<Rightarrow> ok links
      | Some ml \<Rightarrow> addMetadataLinks G ml ownerInfo links htmlTitle onlyCSW)"

section \<open>The entries of the service feed\<close>

text \<open>Categories are collected in order, each once (\<open>slices.Contains\<close>).\<close>

fun collect_categories :: "Entry list \<Rightarrow> FeedCategory list \<Rightarrow> FeedCategory list res" where
  "collect_categories [] cs = ok cs"
| "collect_categories (entry # entries) cs =
     res_bind (getCategory (en_SRS entry)) (\<lambda>category.
     collect_categories entries (if category \<in> set cs then cs else cs @ [category]))"

definition serviceEntry :: "gen_libs \<Rightarrow> Atom \<Rightarrow> OwnerInfo \<Rightarrow> DatasetFeed \<Rightarrow> FeedEntry res" where
  "serviceEntry G atom ownerInfo datasetFeed =
     res_bind (joined (base_of atom) [df_TechnicalName datasetFeed @ ''.xml'']) (\<lambda>id.
     res_bind (addMetadataLinks_opt G (df_DatasetMetadataLinks datasetFeed) ownerInfo [] [] True) (\<lambda>links.
     res_bind (collect_categories (df_Entries datasetFeed) []) (\<lambda>categories.
     ok (zero_FeedEntry\<lparr>
           fe_ID := id,
           fe_Title := escapeQuotes (df_Title datasetFeed),
           fe_SpatialDatasetIdentifierCode := df_SpatialDatasetIdentifierCode datasetFeed,
           fe_SpatialDatasetIdentifierNamespace := df_SpatialDatasetIdentifierNamespace datasetFeed,
           fe_Link := links @ [zero_FeedLink\<lparr>fl_Rel := ''alternate'', fl_Href := id,
             fl_Type := ''application/atom+xml'', fl_Title := escapeQuotes (df_Title datasetFeed)\<rparr>],
           fe_Summary := escapeQuotes (df_Subtitle datasetFeed),
           fe_Polygon := (case df_Entries datasetFeed of
               [] \<Rightarrow> [] | first # _ \<Rightarrow> ToPolygon G (pg_BBox (en_Polygon first))),
           fe_Category := categories\<rparr>))))"

definition getServiceEntries :: "gen_libs \<Rightarrow> Atom \<Rightarrow> OwnerInfo \<Rightarrow> FeedEntry list res" where
  "getServiceEntries G atom ownerInfo =
     res_map (serviceEntry G atom ownerInfo) (at_DatasetFeeds atom)"

section \<open>The dataset feeds\<close>

definition customLink :: "Link \<Rightarrow> FeedLink res" where
  "customLink link =
     go_bind (deref (ln_Href link)) (\<lambda>href.
     ok (zero_FeedLink\<lparr>fl_Rel := ln_Rel link, fl_Href := url_String href, fl_Type := ln_Type link,
           fl_Hreflang := ln_Hreflang link,
           fl_Title := (case ln_Title link of None \<Rightarrow> [] | Some t \<Rightarrow> escapeQuotes t)\<rparr>))"

definition getDatasetLinks :: "gen_libs \<Rightarrow> Atom \<Rightarrow> OwnerInfo \<Rightarrow> DatasetFeed \<Rightarrow> FeedLink list res" where
  "getDatasetLinks G atom ownerInfo datasetFeed =
     res_bind (joined (base_of atom) [df_TechnicalName datasetFeed @ ''.xml'']) (\<lambda>self.
     res_bind (joined (base_of atom) [''index.xml'']) (\<lambda>up.
     res_bind (addMetadataLinks_opt G (df_DatasetMetadataLinks datasetFeed) ownerInfo
         [zero_FeedLink\<lparr>fl_Rel := ''self'', fl_Href := self\<rparr>,
          zero_FeedLink\<lparr>fl_Rel := ''up'', fl_Href := up, fl_Type := ''application/atom+xml'',
            fl_Title := ''Top Atom Download Service Feed''\<rparr>]
         ''NGR pagina voor deze dataset'' False) (\<lambda>links.
     res_bind (res_map customLink (df_Links datasetFeed)) (\<lambda>custom.
     ok (links @ custom)))))"

definition empty_rel :: "DownloadLink \<Rightarrow> bool" where
  "empty_rel dl \<longleftrightarrow> dl_Rel dl = None \<or> dl_Rel dl = Some []"

definition getEmptyRelCount :: "Entry \<Rightarrow> nat" where
  "getEmptyRelCount entry =
     foldl (\<lambda>count downloadLink. if empty_rel downloadLink then Suc count else count) 0
       (en_DownloadLinks entry)"

definition getDownloadLinkRel :: "DownloadLink \<Rightarrow> nat \<Rightarrow> string" where
  "getDownloadLinkRel downloadLink emptyRelCount =
     (case dl_Rel downloadLink of
        Some (c # cs) \<Rightarrow> c # cs
      | _ \<Rightarrow> if emptyRelCount > 1 then ''section'' else ''alternate'')"

definition getDownloadLinkHref :: "DownloadLink \<Rightarrow> Atom \<Rightarrow> string res" where
  "getDownloadLinkHref downloadLink atom =
     go_bind (GetBlobName downloadLink) (\<lambda>name. joined (base_of atom) [''downloads'', name])"

definition getDownloadLinkData :: "api_vars \<Rightarrow> DownloadLink \<Rightarrow> string option" where
  "getDownloadLinkData v downloadLink = Some (GetBlobEndpoint v @ ''/'' @ dl_Data downloadLink)"

definition getDownloadLinkTitle :: "DatasetFeed \<Rightarrow> Entry \<Rightarrow> DownloadLink \<Rightarrow> string res" where
  "getDownloadLinkTitle datasetFeed entry downloadLink =
     (let title = (case en_Title entry of
                     Some (c # cs) \<Rightarrow> c # cs
                   | _ \<Rightarrow> escapeQuotes (df_Title datasetFeed))
      in go_bind (GetBlobName downloadLink) (\<lambda>name. ok (title @ '' - '' @ name)))"

definition downloadFeedLink ::
  "gen_libs \<Rightarrow> api_vars \<Rightarrow> Atom \<Rightarrow> DatasetFeed \<Rightarrow> Entry \<Rightarrow> nat \<Rightarrow> DownloadLink \<Rightarrow> FeedLink res" where
  "downloadFeedLink G v atom datasetFeed entry emptyRelCount downloadLink =
     res_bind (getDownloadLinkHref downloadLink atom) (\<lambda>href.
     res_bind (getDownloadLinkTitle datasetFeed entry downloadLink) (\<lambda>title.
     ok (zero_FeedLink\<lparr>
           fl_Rel := getDownloadLinkRel downloadLink emptyRelCount,
           fl_Href := href,
           fl_Data := getDownloadLinkData v downloadLink,
           fl_Title := title,
           fl_Time := dl_Time downloadLink,
           fl_Bbox := map_option (ToExtent G) (dl_BBox downloadLink)\<rparr>)))"

definition datasetEntry :: "gen_libs \<Rightarrow> api_vars \<Rightarrow> Atom \<Rightarrow> DatasetFeed \<Rightarrow> Entry \<Rightarrow> FeedEntry res" where
  "datasetEntry G v atom datasetFeed entry =
     res_bind (joined (base_of atom) [en_TechnicalName entry @ ''.xml'']) (\<lambda>id.
     res_bind (getCategory (en_SRS entry)) (\<lambda>category.
     res_bind (res_map (downloadFeedLink G v atom datasetFeed entry (getEmptyRelCount entry))
                 (en_DownloadLinks entry)) (\<lambda>links.
     ok (zero_FeedEntry\<lparr>
           fe_ID := id,
           fe_Link := links,
           fe_Rights := sv_Rights (at_Service atom),
           fe_Category := [category],
           fe_Polygon := ToPolygon G (pg_BBox (en_Polygon entry)),
           fe_Title := (case en_Title entry of
               Some t \<Rightarrow> escapeQuotes t | None \<Rightarrow> escapeQuotes (df_Title datasetFeed)),
           fe_Content := (case en_Content entry of Some c \<Rightarrow> c | None \<Rightarrow> []),
           fe_Updated := Some (FormatRFC3339 (time_In (en_Updated entry) 0))\<rparr>))))"

definition getDatasetEntries :: "gen_libs \<Rightarrow> api_vars \<Rightarrow> Atom \<Rightarrow> DatasetFeed \<Rightarrow> FeedEntry list res" where
  "getDatasetEntries G v atom datasetFeed =
     res_map (datasetEntry G v atom datasetFeed) (df_Entries datasetFeed)"

section \<open>The whole configuration\<close>

text \<open>The stylesheet of the service, or else the default of the owner; \<open>String()\<close> needs its URL.\<close>

definition xmlStylesheet :: "gen_libs \<Rightarrow> Atom \<Rightarrow> OwnerAtom \<Rightarrow> string option res" where
  "xmlStylesheet G atom ownerAtom =
     (let stylesheet = (case sv_Stylesheet (at_Service atom) of
                          None \<Rightarrow> oa_DefaultStylesheet ownerAtom | Some s \<Rightarrow> Some s)
      in case stylesheet of
           None \<Rightarrow> ok None
         | Some s \<Rightarrow> go_bind (deref s) (\<lambda>u. ok (Pointer_string G (url_String u))))"

definition serviceFeed ::
  "Atom \<Rightarrow> OwnerAtom \<Rightarrow> string option \<Rightarrow> FeedLink list \<Rightarrow> FeedEntry list \<Rightarrow> string \<Rightarrow> Feed" where
  "serviceFeed atom ownerAtom stylesheet links entries feedID =
     \<lparr>fd_XMLStylesheet = stylesheet,
      fd_Xmlns = ''http://www.w3.org/2005/Atom'',
      fd_Georss = ''http://www.georss.org/georss'',
      fd_InspireDls = ''http://inspire.ec.europa.eu/schemas/inspire_dls/1.0'',
      fd_Lang = Some (sv_Lang (at_Service atom)),
      fd_ID = feedID,
      fd_Title = escapeQuotes (sv_Title (at_Service atom)),
      fd_Subtitle = escapeQuotes (sv_Subtitle (at_Service atom)),
      fd_Link = links,
      fd_Rights = sv_Rights (at_Service atom),
      fd_Author = getAuthor (oa_Author ownerAtom),
      fd_Entry = entries\<rparr>"

definition datasetFeedConfig ::
  "gen_libs \<Rightarrow> api_vars \<Rightarrow> Atom \<Rightarrow> OwnerInfo \<Rightarrow> string option \<Rightarrow> DatasetFeed \<Rightarrow> Feed res" where
  "datasetFeedConfig G v atom ownerInfo stylesheet datasetFeed =
     res_bind (getDatasetLinks G atom ownerInfo datasetFeed) (\<lambda>datasetLinks.
     res_bind (joined (base_of atom) [df_TechnicalName datasetFeed @ ''.xml'']) (\<lambda>id.
     res_bind (getDatasetEntries G v atom datasetFeed) (\<lambda>entries.
     ok \<lparr>fd_XMLStylesheet = stylesheet, fd_Xmlns = [], fd_Georss = [], fd_InspireDls = [],
         fd_Lang = Some (sv_Lang (at_Service atom)),
         fd_ID = id,
         fd_Title = escapeQuotes (df_Title datasetFeed),
         fd_Subtitle = escapeQuotes (df_Subtitle datasetFeed),
         fd_Link = datasetLinks,
         fd_Rights = sv_Rights (at_Service atom),
         fd_Author = getAuthor (df_Author datasetFeed),
         fd_Entry = entries\<rparr>)))"

definition MapAtomV3ToAtomGeneratorConfig ::
  "gen_libs \<Rightarrow> api_vars \<Rightarrow> Atom \<Rightarrow> OwnerInfo \<Rightarrow> Feeds res" where
  "MapAtomV3ToAtomGeneratorConfig G v atom ownerInfo =
     (case oi_Atom ownerInfo of
        None \<Rightarrow> fail (ErrNew ''ownerInfo has no Atom information defined'')
      | Some ownerAtom \<Rightarrow>
          res_bind (getSelfLink atom) (\<lambda>selfLink.
          res_bind (addMetadataLinks_opt G (sv_ServiceMetadataLinks (at_Service atom)) ownerInfo
              [selfLink] ''NGR pagina voor deze download service'' False) (\<lambda>links.
          res_bind (xmlStylesheet G atom ownerAtom) (\<lambda>stylesheet.
          res_bind (getServiceEntries G atom ownerInfo) (\<lambda>entries.
          res_bind (joined (base_of atom) [''index.xml'']) (\<lambda>id.
          res_bind (res_map (datasetFeedConfig G v atom ownerInfo stylesheet)
              (at_DatasetFeeds atom)) (\<lambda>dsFeeds.
          ok \<lparr>fs_Feeds = serviceFeed atom ownerAtom stylesheet links entries id # dsFeeds\<rparr>)))))))"

end
