(* ===== verification/ConfigMaps.thy ===== *)
theory ConfigMaps
  imports Generator
begin

text \<open>
  The ConfigMap that carries the generator configuration into the pods,
  \<open>internal/controller/atom_generator_configmap.go\<close>. Its data is generated only while it is
  empty, and its name gets a suffix from its content (\<open>AddHashSuffix\<close>, a library function).
\<close>

definition getBareConfigMap :: "Atom \<Rightarrow> ConfigMap" where
  "getBareConfigMap obj =
     bare (at_Name obj @ generatorSuffix) (at_Namespace obj) \<lparr>cm_Data = Map.empty, cm_Immutable = None\<rparr>"

definition getGeneratorConfig :: "gen_libs \<Rightarrow> api_vars \<Rightarrow> Atom \<Rightarrow> OwnerInfo \<Rightarrow> string res" where
  "getGeneratorConfig G v atom ownerInfo =
     go_bind (MapAtomV3ToAtomGeneratorConfig G v atom ownerInfo) (\<lambda>r.
     case r of
       Inl err \<Rightarrow> fail (ErrWrap ''failed to map the V3 atom to generator config: '' err)
     | Inr atomGeneratorConfig \<Rightarrow>
         (case Marshal G atomGeneratorConfig of
            Inl err \<Rightarrow> fail (ErrWrap ''failed to marshal the generator config to yaml: '' err)
          | Inr yamlConfig \<Rightarrow> ok yamlConfig))"

text \<open>The data of the config map: kept when there is some, generated otherwise.\<close>

definition configMapData :: "gen_libs \<Rightarrow> api_vars \<Rightarrow> Atom \<Rightarrow> OwnerInfo \<Rightarrow> labels \<Rightarrow> labels res" where
  "configMapData G v atom ownerInfo old =
     (if old = Map.empty
      then res_bind (getGeneratorConfig G v atom ownerInfo) (\<lambda>generatorConfig.
             ok [configFileName \<mapsto> generatorConfig])
      else ok old)"

definition mutateAtomGeneratorConfigMap ::
  "libs \<Rightarrow> gen_libs \<Rightarrow> api_vars \<Rightarrow> Atom \<Rightarrow> OwnerInfo \<Rightarrow> ConfigMap \<Rightarrow> (ConfigMap \<times> go_error option) go"
where
  "mutateAtomGeneratorConfigMap L G v atom ownerInfo configMap =
     (let c1 = with_labels L atom configMap in
      go_bind (configMapData G v atom ownerInfo (cm_Data (ob_Spec configMap))) (\<lambda>r.
      case r of
        Inl err \<Rightarrow> Ret (c1, Some err)
      | Inr data \<Rightarrow>
          (case set_gvk_and_owner L ConfigMapKind atom
                  (c1\<lparr>ob_Spec := \<lparr>cm_Data = data, cm_Immutable = Pointer_bool L True\<rparr>\<rparr>) of
             (c2, Some err) \<Rightarrow> Ret (c2, Some err)
           | (c2, None) \<Rightarrow> Ret (AddHashSuffix L c2))))"

text \<open>
  What is assumed of \<open>AddHashSuffix\<close>: it changes the name only, the new name is a function of
  the rest, and an object that has its suffix keeps it.
\<close>

definition hash_contract :: "libs \<Rightarrow> bool" where
  "hash_contract L \<longleftrightarrow>
     (\<forall>c c'. AddHashSuffix L c = (c', None) \<longrightarrow>
        c' = c\<lparr>ob_ObjectMeta := (ob_ObjectMeta c)\<lparr>om_Name := ob_Name c'\<rparr>\<rparr> \<and>
        AddHashSuffix L c' = (c', None))"

lemma configMapData_idem:
  assumes "configMapData G v atom oi old = ok d"
  shows "d \<noteq> Map.empty" and "configMapData G v' atom' oi' d = ok d"
proof -
  show "d \<noteq> Map.empty"
    using assms by (auto simp: configMapData_def res_bind_eq_ok split: if_splits)
  then show "configMapData G v' atom' oi' d = ok d"
    by (simp add: configMapData_def)
qed

text \<open>Without a translation the bare config map gets no data.\<close>

lemma mutateConfigMap_untranslatable:
  assumes "\<And>feeds. MapAtomV3ToAtomGeneratorConfig G v atom oi \<noteq> ok feeds"
  shows "(\<exists>p. mutateAtomGeneratorConfigMap L G v atom oi (getBareConfigMap atom) = Panic p) \<or>
    (\<exists>c err. mutateAtomGeneratorConfigMap L G v atom oi (getBareConfigMap atom) = Ret (c, Some err))"
proof (cases "MapAtomV3ToAtomGeneratorConfig G v atom oi")
  case (Ret r)
  then obtain err where "r = Inl err" using assms by (cases r) auto
  with Ret show ?thesis
    by (simp add: mutateAtomGeneratorConfigMap_def configMapData_def getGeneratorConfig_def getBareConfigMap_def Let_def)
next
  case (Panic p)
  then show ?thesis
    by (simp add: mutateAtomGeneratorConfigMap_def configMapData_def getGeneratorConfig_def getBareConfigMap_def Let_def)
qed

text \<open>What a successful run leaves behind.\<close>

text \<open>A successful run in its steps: the data, the shared tail, the hash.\<close>

lemma mutateConfigMap_steps:
  assumes "mutateAtomGeneratorConfigMap L G v atom oi c = Ret (c', None)"
  obtains d c2 where "configMapData G v atom oi (cm_Data (ob_Spec c)) = ok d"
    and "set_gvk_and_owner L ConfigMapKind atom
      ((with_labels L atom c)\<lparr>ob_Spec := \<lparr>cm_Data = d, cm_Immutable = Pointer_bool L True\<rparr>\<rparr>) = (c2, None)"
    and "AddHashSuffix L c2 = (c', None)"
proof -
  let ?c1 = "\<lambda>d. (with_labels L atom c)\<lparr>ob_Spec := \<lparr>cm_Data = d, cm_Immutable = Pointer_bool L True\<rparr>\<rparr>"
  obtain r where r: "configMapData G v atom oi (cm_Data (ob_Spec c)) = Ret r"
    using assms unfolding mutateAtomGeneratorConfigMap_def Let_def go_bind_eq_Ret by blast
  obtain d where d: "configMapData G v atom oi (cm_Data (ob_Spec c)) = ok d"
    using assms r by (cases r) (simp_all add: mutateAtomGeneratorConfigMap_def Let_def)
  obtain c2 where "set_gvk_and_owner L ConfigMapKind atom (?c1 d) = (c2, None)" "AddHashSuffix L c2 = (c', None)"
    using assms d by (cases "set_gvk_and_owner L ConfigMapKind atom (?c1 d)")
      (auto simp: mutateAtomGeneratorConfigMap_def Let_def split: option.splits)
  with d show thesis by (rule that)
qed

text \<open>Its name is the one the library hashes the bare name to.\<close>

lemma mutateConfigMap_hashed:
  assumes "ownership_contract L" and "mutateAtomGeneratorConfigMap L G v atom oi c = Ret (c', None)"
  obtains c2 where "AddHashSuffix L c2 = (c', None)" and "ob_Name c2 = ob_Name c"
proof -
  obtain d c2 where "set_gvk_and_owner L ConfigMapKind atom
      ((with_labels L atom c)\<lparr>ob_Spec := \<lparr>cm_Data = d, cm_Immutable = Pointer_bool L True\<rparr>\<rparr>) = (c2, None)"
    and "AddHashSuffix L c2 = (c', None)"
    by (rule mutateConfigMap_steps [OF assms(2)])
  then show thesis using that set_gvk_and_owner_ok(2) [OF assms(1)] by fastforce
qed

lemma mutateConfigMap_ok:
  assumes "labels_contract L" and "ownership_contract L" and "hash_contract L"
    and "mutateAtomGeneratorConfigMap L G v atom oi c = Ret (c', None)"
  shows "configMapData G v atom oi (cm_Data (ob_Spec c)) = ok (cm_Data (ob_Spec c'))"
    and "cm_Immutable (ob_Spec c') = Pointer_bool L True"
    and "ob_Labels c' = getObjectLabels L atom (ob_Labels c)"
    and "ob_Namespace c' = ob_Namespace c"
    and "set_gvk_and_owner L ConfigMapKind atom c' = (c', None)"
    and "AddHashSuffix L c' = (c', None)"
proof -
  let ?c1 = "\<lambda>d. (with_labels L atom c)\<lparr>ob_Spec := \<lparr>cm_Data = d, cm_Immutable = Pointer_bool L True\<rparr>\<rparr>"
  obtain d c2 where d: "configMapData G v atom oi (cm_Data (ob_Spec c)) = ok d"
    and c2: "set_gvk_and_owner L ConfigMapKind atom (?c1 d) = (c2, None)"
    and c': "AddHashSuffix L c2 = (c', None)"
    by (rule mutateConfigMap_steps [OF assms(4)])
  note owner = set_gvk_and_owner_ok [OF assms(2) c2]
  have name: "c' = c2\<lparr>ob_ObjectMeta := (ob_ObjectMeta c2)\<lparr>om_Name := ob_Name c'\<rparr>\<rparr>"
    and again: "AddHashSuffix L c' = (c', None)"
    using assms(3) c' unfolding hash_contract_def by blast+
  have spec: "ob_Spec c' = ob_Spec c2" and lab: "ob_Labels c' = ob_Labels c2"
    and ns: "ob_Namespace c' = ob_Namespace c2"
    and meta: "ob_TypeMeta c' = ob_TypeMeta c2"
    and refs: "om_OwnerReferences (ob_ObjectMeta c') = om_OwnerReferences (ob_ObjectMeta c2)"
    by (subst name, simp)+
  show "configMapData G v atom oi (cm_Data (ob_Spec c)) = ok (cm_Data (ob_Spec c'))"
    "cm_Immutable (ob_Spec c') = Pointer_bool L True"
    "ob_Labels c' = getObjectLabels L atom (ob_Labels c)"
    "ob_Namespace c' = ob_Namespace c"
    by (simp_all add: spec lab ns owner d)
  show "AddHashSuffix L c' = (c', None)" by (rule again)
  show "set_gvk_and_owner L ConfigMapKind atom c' = (c', None)"
    using meta ns refs by (rule set_gvk_and_owner_again [OF assms(2) c2])
qed

end
