(* ===== verification/Reconcile.thy ===== *)
theory Reconcile
  imports Ingress ConfigMaps
begin

text \<open>
  The reconciler, \<open>internal/controller/atom_controller.go\<close>: fetching the Atom and its OwnerInfo,
  the expiry of an Atom, creating or updating all objects in order, and the status updates.

  The cluster is an abstract state \<open>'w\<close> that only the client changes. The client
  (controller-runtime's \<open>Get\<close>, \<open>Delete\<close>, \<open>controllerutil.CreateOrUpdate\<close>, and the status
  functions of smooth-operator) is a parameter, the record \<open>client\<close>. A computation on the cluster
  returns the new cluster whether it returns, fails or panics.
\<close>

section \<open>Objects of the cluster\<close>

datatype kobj =
    KConfigMap ConfigMap
  | KDeployment Deployment
  | KService KService
  | KMiddleware Middleware
  | KIngressRoute IngressRoute
  | KPodDisruptionBudget PodDisruptionBudget
  | KAtom Atom

type_synonym key = "kind \<times> string \<times> string"

fun kobj_key :: "kobj \<Rightarrow> key" where
  "kobj_key (KConfigMap c) = (ConfigMapKind, ob_Namespace c, ob_Name c)"
| "kobj_key (KDeployment d) = (DeploymentKind, ob_Namespace d, ob_Name d)"
| "kobj_key (KService s) = (ServiceKind, ob_Namespace s, ob_Name s)"
| "kobj_key (KMiddleware m) = (MiddlewareKind, ob_Namespace m, ob_Name m)"
| "kobj_key (KIngressRoute i) = (IngressRouteKind, ob_Namespace i, ob_Name i)"
| "kobj_key (KPodDisruptionBudget p) = (PodDisruptionBudgetKind, ob_Namespace p, ob_Name p)"
| "kobj_key (KAtom a) = (AtomKind, at_Namespace a, at_Name a)"

fun kobj_meta :: "kobj \<Rightarrow> ObjectMeta" where
  "kobj_meta (KConfigMap x) = ob_ObjectMeta x"
| "kobj_meta (KDeployment x) = ob_ObjectMeta x"
| "kobj_meta (KService x) = ob_ObjectMeta x"
| "kobj_meta (KMiddleware x) = ob_ObjectMeta x"
| "kobj_meta (KIngressRoute x) = ob_ObjectMeta x"
| "kobj_meta (KPodDisruptionBudget x) = ob_ObjectMeta x"
| "kobj_meta (KAtom x) = at_ObjectMeta x"

abbreviation kobj_Name :: "kobj \<Rightarrow> string" where
  "kobj_Name o1 \<equiv> snd (snd (kobj_key o1))"

text \<open>
  The closures handed to \<open>CreateOrUpdate\<close> work on one Go type; on the sum of all objects they act
  on their own constructor.
\<close>

type_synonym mutator = "kobj \<Rightarrow> (kobj \<times> go_error option) go"

definition wrap :: "('o \<Rightarrow> kobj) \<Rightarrow> ('o \<times> go_error option) go \<Rightarrow> (kobj \<times> go_error option) go" where
  "wrap K m = go_bind m (\<lambda>(o', err). Ret (K o', err))"

fun on_ConfigMap :: "(ConfigMap \<Rightarrow> (ConfigMap \<times> go_error option) go) \<Rightarrow> mutator" where
  "on_ConfigMap f (KConfigMap c) = wrap KConfigMap (f c)"
| "on_ConfigMap f k = Ret (k, None)"

fun on_Deployment :: "(Deployment \<Rightarrow> (Deployment \<times> go_error option) go) \<Rightarrow> mutator" where
  "on_Deployment f (KDeployment d) = wrap KDeployment (f d)"
| "on_Deployment f k = Ret (k, None)"

fun on_Service :: "(KService \<Rightarrow> (KService \<times> go_error option) go) \<Rightarrow> mutator" where
  "on_Service f (KService s) = wrap KService (f s)"
| "on_Service f k = Ret (k, None)"

fun on_Middleware :: "(Middleware \<Rightarrow> (Middleware \<times> go_error option) go) \<Rightarrow> mutator" where
  "on_Middleware f (KMiddleware m) = wrap KMiddleware (f m)"
| "on_Middleware f k = Ret (k, None)"

fun on_IngressRoute :: "(IngressRoute \<Rightarrow> (IngressRoute \<times> go_error option) go) \<Rightarrow> mutator" where
  "on_IngressRoute f (KIngressRoute i) = wrap KIngressRoute (f i)"
| "on_IngressRoute f k = Ret (k, None)"

fun on_PodDisruptionBudget ::
  "(PodDisruptionBudget \<Rightarrow> (PodDisruptionBudget \<times> go_error option) go) \<Rightarrow> mutator" where
  "on_PodDisruptionBudget f (KPodDisruptionBudget p) = wrap KPodDisruptionBudget (f p)"
| "on_PodDisruptionBudget f k = Ret (k, None)"

section \<open>The client and the environment\<close>

type_synonym results = "string \<rightharpoonup> string"

record 'w client =
  GetAtom :: "'w \<Rightarrow> string \<times> string \<Rightarrow> go_error + Atom"
  GetOwnerInfo :: "'w \<Rightarrow> string \<times> string \<Rightarrow> go_error + OwnerInfo"
  DeleteAtom :: "Atom \<Rightarrow> 'w \<Rightarrow> go_error option \<times> 'w"
  CreateOrUpdate :: "kobj \<Rightarrow> mutator \<Rightarrow> 'w \<Rightarrow> (string \<times> go_error option \<times> kobj) go \<times> 'w"
  LogAndUpdateStatusError :: "Atom \<Rightarrow> go_error \<Rightarrow> 'w \<Rightarrow> 'w"
  LogAndUpdateStatusFinished :: "Atom \<Rightarrow> results \<Rightarrow> 'w \<Rightarrow> 'w"
  GetObjectFullName :: "kobj \<Rightarrow> string"
  IgnoreNotFound :: "go_error option \<Rightarrow> go_error option"
  ErrorText :: "go_error \<Rightarrow> string"

text \<open>
  The reconciler with everything it refers to: its own fields, the package variables of the API,
  the libraries, and the orders in which Go happens to range over the download groups.
\<close>

record 'w env =
  ev_reconciler :: AtomReconciler
  ev_vars :: api_vars
  ev_libs :: libs
  ev_gen :: gen_libs
  ev_client :: "'w client"
  ev_ord :: iteration
  ev_ord_ingress :: iteration

section \<open>Steps on the cluster\<close>

text \<open>
  A step threads the map of operation results and the cluster. \<open>Inl\<close> is an error that ends
  \<open>createOrUpdateAllForAtom\<close>.
\<close>

type_synonym ('a, 'w) step = "results \<times> 'w \<Rightarrow> 'a res \<times> (results \<times> 'w)"

definition step_ok :: "'a \<Rightarrow> ('a, 'w) step" where
  "step_ok x = (\<lambda>s. (ok x, s))"

definition step_lift :: "'a res \<Rightarrow> ('a, 'w) step" where
  "step_lift r = (\<lambda>s. (r, s))"

definition step_bind :: "('a, 'w) step \<Rightarrow> ('a \<Rightarrow> ('b, 'w) step) \<Rightarrow> ('b, 'w) step" where
  "step_bind m f = (\<lambda>s. case m s of
      (Ret (Inr x), s') \<Rightarrow> f x s'
    | (Ret (Inl e), s') \<Rightarrow> (fail e, s')
    | (Panic p, s') \<Rightarrow> (Panic p, s'))"

fun step_for :: "('x \<Rightarrow> (unit, 'w) step) \<Rightarrow> 'x list \<Rightarrow> (unit, 'w) step" where
  "step_for f [] = step_ok ()"
| "step_for f (x # xs) = step_bind (f x) (\<lambda>_. step_for f xs)"

text \<open>
  One statement \<open>operationResults[key], err = controllerutil.CreateOrUpdate(\<dots>)\<close> with the error check
  after it. \<open>tolerated\<close> holds for the errors the check lets pass; the others are wrapped with the
  text \<open>msg\<close> and the full name of the object.
\<close>

definition create_or_update ::
  "'w client \<Rightarrow> string \<Rightarrow> string \<Rightarrow> (go_error \<Rightarrow> bool) \<Rightarrow> kobj \<Rightarrow> mutator \<Rightarrow> (kobj, 'w) step" where
  "create_or_update C resultKey msg tolerated obj mutate = (\<lambda>(rs, w).
     case CreateOrUpdate C obj mutate w of
       (Panic p, w') \<Rightarrow> (Panic p, (rs, w'))
     | (Ret (opr, err, obj'), w') \<Rightarrow>
         (case err of
            None \<Rightarrow> (ok obj', (rs(resultKey \<mapsto> opr), w'))
          | Some e \<Rightarrow>
              if tolerated e then (ok obj', (rs(resultKey \<mapsto> opr), w'))
              else (fail (ErrWrap (msg @ GetObjectFullName C obj' @ '': '') e),
                    (rs(resultKey \<mapsto> opr), w'))))"

definition unable :: string where "unable = ''unable to create/update resource ''"
definition could_not :: string where "could_not = ''could not create or update resource ''"

definition none_tolerated :: "go_error \<Rightarrow> bool" where
  "none_tolerated e = False"

definition conflict_tolerated :: "'w client \<Rightarrow> go_error \<Rightarrow> bool" where
  "conflict_tolerated C e =
     str_Contains (ErrorText C e)
       ''the object has been modified; please apply your changes to the latest version and try again''"

text \<open>The statement for an object whose result is stored under its own full name.\<close>

definition apply_object ::
  "'w client \<Rightarrow> string \<Rightarrow> (go_error \<Rightarrow> bool) \<Rightarrow> kobj \<Rightarrow> mutator \<Rightarrow> (unit, 'w) step" where
  "apply_object C msg tolerated obj mutate =
     step_bind (create_or_update C (GetObjectFullName C obj) msg tolerated obj mutate) (\<lambda>_. step_ok ())"

section \<open>Creating or updating everything\<close>

text \<open>
  The config map is mutated once on its own, for the hash suffix of its name, and its result is
  stored under the name of the Atom.
\<close>

definition apply_configMap :: "'w env \<Rightarrow> Atom \<Rightarrow> OwnerInfo \<Rightarrow> (kobj, 'w) step" where
  "apply_configMap E atom ownerInfo =
     (let C = ev_client E;
          mut = mutateAtomGeneratorConfigMap (ev_libs E) (ev_gen E) (ev_vars E) atom ownerInfo
      in step_bind (step_lift (go_bind (mut (getBareConfigMap atom)) (\<lambda>(configMap, err).
             Ret (case err of Some e \<Rightarrow> Inl e | None \<Rightarrow> Inr configMap)))) (\<lambda>configMap.
         create_or_update C (GetObjectFullName C (KAtom atom)) unable none_tolerated
           (KConfigMap configMap) (on_ConfigMap mut)))"

definition apply_deployment :: "'w env \<Rightarrow> Atom \<Rightarrow> string \<Rightarrow> (unit, 'w) step" where
  "apply_deployment E atom configMapName =
     apply_object (ev_client E) unable (conflict_tolerated (ev_client E))
       (KDeployment (getBareDeployment atom))
       (on_Deployment (\<lambda>d. mutateDeployment (ev_reconciler E) (ev_libs E) atom d configMapName))"

definition apply_service :: "'w env \<Rightarrow> Atom \<Rightarrow> (unit, 'w) step" where
  "apply_service E atom =
     apply_object (ev_client E) unable none_tolerated (KService (getBareService atom))
       (on_Service (mutateService (ev_libs E) atom))"

definition apply_stripPrefix :: "'w env \<Rightarrow> Atom \<Rightarrow> (unit, 'w) step" where
  "apply_stripPrefix E atom =
     apply_object (ev_client E) could_not none_tolerated
       (KMiddleware (getBareStripPrefixMiddleware atom))
       (on_Middleware (mutateStripPrefixMiddleware (ev_libs E) atom))"

definition apply_headers :: "'w env \<Rightarrow> Atom \<Rightarrow> (unit, 'w) step" where
  "apply_headers E atom =
     apply_object (ev_client E) could_not none_tolerated
       (KMiddleware (getBareHeadersMiddleware atom))
       (on_Middleware (\<lambda>m. mutateHeadersMiddleware (ev_libs E) atom m (rc_CSP (ev_reconciler E))))"

definition apply_download :: "'w env \<Rightarrow> Atom \<Rightarrow> string \<times> link_group \<Rightarrow> (unit, 'w) step" where
  "apply_download E atom = (\<lambda>(pfx, grp).
     step_bind (step_lift (go_bind (deref (lg_index grp)) ok)) (\<lambda>index.
     apply_object (ev_client E) unable none_tolerated
       (KMiddleware (getBareDownloadLinkMiddleware atom index))
       (on_Middleware (mutateDownloadLinkMiddleware (ev_libs E) atom pfx (lg_files grp)))))"

definition apply_downloads :: "'w env \<Rightarrow> Atom \<Rightarrow> (unit, 'w) step" where
  "apply_downloads E atom =
     step_bind (step_lift (go_bind (getDownloadLinkGroups (GetDownloadLinks atom)) ok)) (\<lambda>groups.
     step_for (apply_download E atom) (ev_ord E groups))"

definition apply_ingressRoute :: "'w env \<Rightarrow> Atom \<Rightarrow> (unit, 'w) step" where
  "apply_ingressRoute E atom =
     apply_object (ev_client E) unable none_tolerated (KIngressRoute (getBareIngressRoute atom))
       (on_IngressRoute (mutateIngressRoute (ev_ord_ingress E) (ev_libs E) atom))"

definition apply_podDisruptionBudget :: "'w env \<Rightarrow> Atom \<Rightarrow> (unit, 'w) step" where
  "apply_podDisruptionBudget E atom =
     apply_object (ev_client E) unable none_tolerated
       (KPodDisruptionBudget (getBarePodDisruptionBudget atom))
       (on_PodDisruptionBudget (mutatePodDisruptionBudget (ev_libs E) atom))"

definition createOrUpdateAllForAtom :: "'w env \<Rightarrow> Atom \<Rightarrow> OwnerInfo \<Rightarrow> (unit, 'w) step" where
  "createOrUpdateAllForAtom E atom ownerInfo =
     step_bind (apply_configMap E atom ownerInfo) (\<lambda>configMap.
     step_bind (apply_deployment E atom (kobj_Name configMap)) (\<lambda>_.
     step_bind (apply_service E atom) (\<lambda>_.
     step_bind (apply_stripPrefix E atom) (\<lambda>_.
     step_bind (apply_headers E atom) (\<lambda>_.
     step_bind (apply_downloads E atom) (\<lambda>_.
     step_bind (apply_ingressRoute E atom) (\<lambda>_.
     apply_podDisruptionBudget E atom)))))))"

section \<open>Expiry\<close>

text \<open>
  \<open>time.Duration(*TTLInDays) * 24 * time.Hour\<close>: the 32-bit count is widened to 64 bits and multiplied
  there, in nanoseconds, with wrap-around.
\<close>

definition ttl_duration :: "32 word \<Rightarrow> 64 word" where
  "ttl_duration days = (scast days :: 64 word) * 24 * 3600000000000"

text \<open>
  \<open>Time.Add\<close> and \<open>Time.Before\<close> work on instants; \<open>now\<close> is what \<open>time.Now\<close> returns.
\<close>

definition ttlExpired :: "Atom \<Rightarrow> int \<Rightarrow> bool" where
  "ttlExpired atom now =
     (case as_Lifecycle (at_Spec atom) of
        None \<Rightarrow> False
      | Some lifecycle \<Rightarrow>
          (case lc_TTLInDays lifecycle of
             None \<Rightarrow> False
           | Some days \<Rightarrow>
               let expiresAt = om_CreationTimestamp (at_ObjectMeta atom)
                               + sint (ttl_duration days)
               in expiresAt < now))"

text \<open>
  Within the range of a 64-bit duration, some 292 years, the product is exact; the first count of days
  beyond it wraps to a negative duration.
\<close>

lemma ttl_duration_sint: "sint (ttl_duration days) = signed_take_bit 63 (sint days * 86400000000000)"
proof -
  have "ttl_duration days = of_int (sint days * 86400000000000)"
    by (simp add: ttl_duration_def)
  then show ?thesis by (simp only: signed_of_int) simp
qed

lemma ttl_duration_exact:
  "\<bar>sint days\<bar> \<le> 106751 \<Longrightarrow> sint (ttl_duration days) = sint days * 86400000000000"
  unfolding ttl_duration_sint signed_take_bit_int_eq_self_iff by (simp add: abs_le_iff)

lemma ttl_duration_wraps: "sint (ttl_duration 106752) = 106752 * 86400000000000 - 2 ^ 64"
  by (simp add: ttl_duration_sint signed_take_bit_int_eq_self_iff) 

section \<open>Reconciling\<close>

definition recoveredPanicToError :: "panicval \<Rightarrow> go_error" where
  "recoveredPanicToError rec =
     ErrStack (case rec of
        PanicString x \<Rightarrow> ErrNew x
      | PanicError e \<Rightarrow> e
      | PanicOther \<Rightarrow> ErrNew ''unknown panic'')"

text \<open>
  The body below the \<open>defer\<close>, and \<open>Reconcile\<close> itself. The deferred function recovers from a panic of
  the body, with the cluster as the body left it. \<open>None\<close> is a nil error; the \<open>Result\<close> is always zero.
\<close>

definition reconcile_found :: "'w env \<Rightarrow> int \<Rightarrow> Atom \<Rightarrow> OwnerInfo \<Rightarrow> 'w \<Rightarrow> go_error option go \<times> 'w" where
  "reconcile_found E now atom ownerInfo w =
     (let C = ev_client E
      in if ttlExpired atom now
         then (let (err, w') = DeleteAtom C atom w in (Ret err, w'))
         else (case createOrUpdateAllForAtom E atom ownerInfo (Map.empty, w) of
             (Panic p, (rs, w')) \<Rightarrow> (Panic p, w')
           | (Ret (Inl err), (rs, w')) \<Rightarrow> (Ret (Some err), LogAndUpdateStatusError C atom err w')
           | (Ret (Inr u), (rs, w')) \<Rightarrow> (Ret None, LogAndUpdateStatusFinished C atom rs w')))"

definition recovering :: "'w client \<Rightarrow> Atom \<Rightarrow> go_error option go \<times> 'w \<Rightarrow> go_error option \<times> 'w" where
  "recovering C atom r = (case r of
      (Ret err, w') \<Rightarrow> (err, w')
    | (Panic p, w') \<Rightarrow>
        (let err = recoveredPanicToError p in (Some err, LogAndUpdateStatusError C atom err w')))"

definition Reconcile :: "'w env \<Rightarrow> string \<times> string \<Rightarrow> int \<Rightarrow> 'w \<Rightarrow> go_error option \<times> 'w" where
  "Reconcile E req now w =
     (let C = ev_client E
      in case GetAtom C w req of
           Inl err \<Rightarrow> (IgnoreNotFound C (Some err), w)
         | Inr atom \<Rightarrow>
             (case GetOwnerInfo C w (at_Namespace atom, sv_OwnerInfoRef (at_Service atom)) of
                Inl err \<Rightarrow> (IgnoreNotFound C (Some err), w)
              | Inr ownerInfo \<Rightarrow> recovering C atom (reconcile_found E now atom ownerInfo w)))"

end
