(* ===== verification/Cluster.thy ===== *)
theory Cluster
  imports Reconcile
begin

text \<open>
  What the reconciler promises about the cluster, given what \<open>controllerutil.CreateOrUpdate\<close> and the
  API server do with an object: the contract of the client, a small logic of steps on the cluster (what
  holds after success, what holds however the step ends), and the two results.

  \<^item> No stored Deployment or IngressRoute refers to an object that is not there, at any point at
    which a reconcile may end.
  \<^item> A reconcile that succeeded leaves every object as its own mutate function wants it, so that the
    next one finds nothing to change.
\<close>

section \<open>References between objects\<close>

fun kobj_refs :: "kobj \<Rightarrow> key set" where
  "kobj_refs (KDeployment d) =
     {(ConfigMapKind, ob_Namespace d, n) | n.
        ConfigMapVolume n \<in> set (map vo_Source (pt_Volumes (dp_Template (ob_Spec d))))}"
| "kobj_refs (KIngressRoute i) =
     (\<Union>rt\<in>set (ir_Routes (ob_Spec i)).
        (\<lambda>n. (MiddlewareKind, ob_Namespace i, n)) ` set (rt_Middlewares rt) \<union>
        (\<lambda>s. (ServiceKind, ob_Namespace i, rs_Name s)) ` set (rt_Services rt))"
| "kobj_refs _ = {}"

text \<open>The service in front of the blob storage is deployed apart from the operator.\<close>

definition external_refs :: "key set" where
  "external_refs = {(ServiceKind, ns, ''azure-storage'') | ns. True}"

text \<open>A view shows the stored objects the operator manages, the Atoms themselves left out.\<close>

type_synonym 'w view = "'w \<Rightarrow> key \<Rightarrow> kobj option"

definition refs_closed :: "'w view \<Rightarrow> 'w \<Rightarrow> bool" where
  "refs_closed view w \<longleftrightarrow>
     (\<forall>k o1. view w k = Some o1 \<longrightarrow> kobj_refs o1 \<subseteq> dom (view w) \<union> external_refs)"

section \<open>The contract of the client\<close>

text \<open>
  \<open>CreateOrUpdate\<close> runs the closure on the stored object, or on the one it is given when there is
  none, and stores the result under the same key; the server may fill in defaults, but no references.
\<close>

definition written :: "'w view \<Rightarrow> kobj \<Rightarrow> mutator \<Rightarrow> 'w \<Rightarrow> 'w \<Rightarrow> bool" where
  "written view obj mut w w' \<longleftrightarrow>
     (\<exists>o0 o1 o2. kobj_key o0 = kobj_key obj \<and> mut o0 = Ret (o1, None) \<and>
        kobj_key o2 = kobj_key obj \<and> kobj_refs o2 = kobj_refs o1 \<and>
        view w' = (view w)(kobj_key obj \<mapsto> o2))"

definition cluster_contract :: "'w client \<Rightarrow> 'w view \<Rightarrow> bool" where
  "cluster_contract C view \<longleftrightarrow>
     (\<forall>obj mut w r w'. CreateOrUpdate C obj mut w = (r, w') \<longrightarrow>
        view w' = view w \<or> written view obj mut w w') \<and>
     (\<forall>obj mut w opr obj' w'. CreateOrUpdate C obj mut w = (Ret (opr, None, obj'), w') \<longrightarrow>
        written view obj mut w w' \<and> kobj_key obj' = kobj_key obj) \<and>
     (\<forall>atom e w. view (LogAndUpdateStatusError C atom e w) = view w) \<and>
     (\<forall>atom rs w. view (LogAndUpdateStatusFinished C atom rs w) = view w) \<and>
     (\<forall>atom w. view (snd (DeleteAtom C atom w)) = view w)"

lemma cluster_contract_run:
  assumes "cluster_contract C view" and "CreateOrUpdate C obj mut w = (r, w')"
  shows "view w' = view w \<or> written view obj mut w w'"
    and "r = Ret (opr, None, obj') \<Longrightarrow> written view obj mut w w' \<and> kobj_key obj' = kobj_key obj"
  using assms by (simp_all add: cluster_contract_def)

section \<open>Steps: what holds after success, and what holds at any end\<close>

fun outcome :: "('a \<Rightarrow> 'w \<Rightarrow> bool) \<Rightarrow> ('w \<Rightarrow> bool) \<Rightarrow> 'a res \<times> (results \<times> 'w) \<Rightarrow> bool" where
  "outcome Q X (Ret (Inr x), s) = Q x (snd s)"
| "outcome Q X (Ret (Inl e), s) = X (snd s)"
| "outcome Q X (Panic p, s) = X (snd s)"

definition triple ::
  "('w \<Rightarrow> bool) \<Rightarrow> ('a, 'w) step \<Rightarrow> ('a \<Rightarrow> 'w \<Rightarrow> bool) \<Rightarrow> ('w \<Rightarrow> bool) \<Rightarrow> bool" where
  "triple P m Q X \<longleftrightarrow> (\<forall>rs w. P w \<longrightarrow> outcome Q X (m (rs, w)))"

lemma step_cases:
  obtains (ok) x s where "r = (Ret (Inr x), s)" | (fail) e s where "r = (Ret (Inl e), s)"
  | (panic) p s where "r = (Panic p, s)"
  by (metis go.exhaust old.sum.exhaust surj_pair)

lemma triple_ok: "(\<And>w. P w \<Longrightarrow> Q x w) \<Longrightarrow> triple P (step_ok x) Q X"
  by (simp add: triple_def step_ok_def)

lemma triple_lift:
  assumes "\<And>w. P w \<Longrightarrow> X w" and "\<And>x w. r = ok x \<Longrightarrow> P w \<Longrightarrow> Q x w"
  shows "triple P (step_lift r) Q X"
  unfolding triple_def step_lift_def
proof (intro allI impI)
  fix rs w
  assume "P w"
  then show "outcome Q X (r, (rs, w))"
    using assms by (cases "(r, (rs, w))" rule: step_cases) auto
qed

lemma triple_bind:
  assumes "triple P m Q X" and "\<And>x. triple (Q x) (f x) R X"
  shows "triple P (step_bind m f) R X"
  unfolding triple_def
proof (intro allI impI)
  fix rs w
  assume "P w"
  with assms(1) have m: "outcome Q X (m (rs, w))"
    unfolding triple_def by blast
  show "outcome R X (step_bind m f (rs, w))"
  proof (cases "m (rs, w)" rule: step_cases)
    case (ok x s)
    with m have "Q x (snd s)" by simp
    with assms(2) [of x] have "outcome R X (f x (fst s, snd s))"
      unfolding triple_def by blast
    with ok show ?thesis by (simp add: step_bind_def)
  qed (use m in \<open>simp_all add: step_bind_def\<close>)
qed

lemma triple_conseq:
  assumes "triple P m Q X" and "\<And>w. P' w \<Longrightarrow> P w" and "\<And>x w. Q x w \<Longrightarrow> Q' x w"
  shows "triple P' m Q' X"
  unfolding triple_def
proof (intro allI impI)
  fix rs w
  assume "P' w"
  with assms(1,2) have "outcome Q X (m (rs, w))"
    unfolding triple_def by blast
  then show "outcome Q' X (m (rs, w))"
    using assms(3) by (cases "m (rs, w)" rule: step_cases) simp_all
qed

lemma triple_for:
  assumes "\<And>ys x zs. xs = ys @ x # zs \<Longrightarrow> triple (P ys) (f x) (\<lambda>_. P (ys @ [x])) X"
  shows "triple (P []) (step_for f xs) (\<lambda>_. P xs) X"
proof -
  have "triple (P ys) (step_for f zs) (\<lambda>_. P xs) X" if "xs = ys @ zs" for ys zs
    using that
  proof (induction zs arbitrary: ys)
    case Nil
    then show ?case by (auto intro: triple_ok)
  next
    case (Cons z zs)
    show ?case
      unfolding step_for.simps
      by (rule triple_bind [OF assms [OF Cons.prems]]) (rule Cons.IH, simp add: Cons.prems)
  qed
  from this [of "[]" xs] show ?thesis by simp
qed

section \<open>References stay closed\<close>

definition closed_with :: "'w view \<Rightarrow> key set \<Rightarrow> 'w \<Rightarrow> bool" where
  "closed_with view K w \<longleftrightarrow> refs_closed view w \<and> K \<subseteq> dom (view w)"

definition refs_within :: "kobj \<Rightarrow> mutator \<Rightarrow> key set \<Rightarrow> bool" where
  "refs_within obj mut K \<longleftrightarrow>
     (\<forall>o0 o1. kobj_key o0 = kobj_key obj \<longrightarrow> mut o0 = Ret (o1, None) \<longrightarrow>
        kobj_refs o1 \<subseteq> K \<union> external_refs)"

lemma written_closed:
  assumes "written view obj mut w w'" and "closed_with view K w" and "refs_within obj mut K"
  shows "closed_with view (insert (kobj_key obj) K) w'"
proof -
  obtain o0 o1 o2 where w: "kobj_key o0 = kobj_key obj" "mut o0 = Ret (o1, None)"
    "kobj_refs o2 = kobj_refs o1" "view w' = (view w)(kobj_key obj \<mapsto> o2)"
    using assms(1) unfolding written_def by blast
  have "kobj_refs o2 \<subseteq> K \<union> external_refs"
    using w assms(3) unfolding refs_within_def by metis
  then show ?thesis
    using assms(2) by (auto simp: closed_with_def refs_closed_def w(4)) blast+
qed

lemma closed_with_same: "view w' = view w \<Longrightarrow> closed_with view K w \<Longrightarrow> closed_with view K w'"
  by (simp add: closed_with_def refs_closed_def)

lemma closed_with_mono: "closed_with view K w \<Longrightarrow> K' \<subseteq> K \<Longrightarrow> closed_with view K' w"
  by (auto simp: closed_with_def)

lemma CreateOrUpdate_closed:
  assumes "cluster_contract C view" and "refs_within obj mut K" and "closed_with view K w"
    and "CreateOrUpdate C obj mut w = (r, w')"
  shows "closed_with view K w'"
    and "r = Ret (opr, None, obj') \<Longrightarrow>
      closed_with view (insert (kobj_key obj) K) w' \<and> kobj_key obj' = kobj_key obj"
proof -
  note run = cluster_contract_run [OF assms(1,4)]
  show "closed_with view K w'"
    using run(1) closed_with_same [OF _ assms(3)] closed_with_mono [OF written_closed [OF _ assms(3,2)]]
    by blast
  assume "r = Ret (opr, None, obj')"
  then show "closed_with view (insert (kobj_key obj) K) w' \<and> kobj_key obj' = kobj_key obj"
    using run(2) written_closed [OF _ assms(3,2)] by blast
qed

text \<open>One statement: whatever the error check tolerates, the references stay closed.\<close>

lemma create_or_update_closed:
  assumes "cluster_contract C view" and "refs_within obj mut K"
  shows "triple (closed_with view K) (create_or_update C resultKey msg tolerated obj mut)
    (\<lambda>obj' w. closed_with view K w \<and> ((\<forall>e. \<not> tolerated e) \<longrightarrow>
       closed_with view (insert (kobj_key obj) K) w \<and> kobj_key obj' = kobj_key obj))
    (closed_with view K)"
  unfolding triple_def
proof (intro allI impI)
  fix rs w
  assume "closed_with view K w"
  note closed = CreateOrUpdate_closed [OF assms this]
  obtain r w' where r: "CreateOrUpdate C obj mut w = (r, w')" by fastforce
  show "outcome (\<lambda>obj' w. closed_with view K w \<and> ((\<forall>e. \<not> tolerated e) \<longrightarrow>
       closed_with view (insert (kobj_key obj) K) w \<and> kobj_key obj' = kobj_key obj))
    (closed_with view K) (create_or_update C resultKey msg tolerated obj mut (rs, w))"
    using closed [OF r] r
    by (cases r) (auto simp: create_or_update_def split: option.split)
qed

lemma apply_object_closed:
  assumes "cluster_contract C view" and "refs_within obj mut K"
  shows "triple (closed_with view K) (apply_object C msg tolerated obj mut)
    (\<lambda>_. closed_with view K) (closed_with view K)"
    and "(\<And>e. \<not> tolerated e) \<Longrightarrow>
      triple (closed_with view K) (apply_object C msg tolerated obj mut)
        (\<lambda>_. closed_with view (insert (kobj_key obj) K)) (closed_with view K)"
  unfolding apply_object_def
  by (rule triple_bind [OF create_or_update_closed [OF assms]], rule triple_ok, simp)+

end
