(* ===== verification/Referential.thy ===== *)
theory Referential
  imports Cluster
begin

text \<open>
  The references between the objects of an Atom: what each mutate function makes its object refer
  to, and that \<open>createOrUpdateAllForAtom\<close> and \<open>Reconcile\<close> keep the references closed, whether they
  return, fail or panic.
\<close>

section \<open>What the mutated objects refer to\<close>

text \<open>The kind of a key tells the constructor.\<close>

lemma key_constructor:
  "kobj_key o1 = (ConfigMapKind, p) \<longleftrightarrow> (\<exists>x. o1 = KConfigMap x \<and> (ob_Namespace x, ob_Name x) = p)"
  "kobj_key o1 = (DeploymentKind, p) \<longleftrightarrow> (\<exists>x. o1 = KDeployment x \<and> (ob_Namespace x, ob_Name x) = p)"
  "kobj_key o1 = (ServiceKind, p) \<longleftrightarrow> (\<exists>x. o1 = KService x \<and> (ob_Namespace x, ob_Name x) = p)"
  "kobj_key o1 = (MiddlewareKind, p) \<longleftrightarrow> (\<exists>x. o1 = KMiddleware x \<and> (ob_Namespace x, ob_Name x) = p)"
  "kobj_key o1 = (IngressRouteKind, p) \<longleftrightarrow> (\<exists>x. o1 = KIngressRoute x \<and> (ob_Namespace x, ob_Name x) = p)"
  "kobj_key o1 = (PodDisruptionBudgetKind, p) \<longleftrightarrow> (\<exists>x. o1 = KPodDisruptionBudget x \<and> (ob_Namespace x, ob_Name x) = p)"
  by (cases o1; simp)+

lemma wrap_eq_Ret: "wrap K m = Ret (o1, err) \<longleftrightarrow> (\<exists>x. m = Ret (x, err) \<and> o1 = K x)"
  by (auto simp: wrap_def go_bind_eq_Ret)

lemma refs_within_simple:
  "refs_within (KConfigMap c) (on_ConfigMap f1) K"
  "refs_within (KService s) (on_Service f2) K"
  "refs_within (KMiddleware m) (on_Middleware f3) K"
  "refs_within (KPodDisruptionBudget p) (on_PodDisruptionBudget f4) K"
  unfolding refs_within_def
  by (auto simp: key_constructor wrap_eq_Ret)

lemma refs_within_deployment:
  assumes "ownership_contract L" and "(ConfigMapKind, at_Namespace atom, n) \<in> K"
  shows "refs_within (KDeployment (getBareDeployment atom))
    (on_Deployment (\<lambda>d. mutateDeployment r L atom d n)) K"
  unfolding refs_within_def
proof (intro allI impI)
  fix o0 o1
  assume key: "kobj_key o0 = kobj_key (KDeployment (getBareDeployment atom))"
    and run: "on_Deployment (\<lambda>d. mutateDeployment r L atom d n) o0 = Ret (o1, None)"
  then obtain d where d: "o0 = KDeployment d" "ob_Namespace d = at_Namespace atom"
    by (auto simp: key_constructor getBareDeployment_def)
  then obtain d' where d': "mutateDeployment r L atom d n = Ret (d', None)" "o1 = KDeployment d'"
    using run by (auto simp: wrap_eq_Ret)
  have "ob_Namespace d' = at_Namespace atom"
    using deploymentm.keeps_key(2) [OF assms(1) d'(1)] d(2) by simp
  moreover have "pt_Volumes (dp_Template (ob_Spec d')) = pod_volumes n"
    using deploymentm.spec_of_prep [OF assms(1) d'(1)]
    by (simp add: deployment_prep_def deployment_spec_def pod_template_def)
  ultimately show "kobj_refs o1 \<subseteq> K \<union> external_refs"
    using assms(2) by (auto simp: d'(2) pod_volumes_def)
qed

text \<open>The keys that the routes of an Atom lead to.\<close>

definition route_keys :: "Atom \<Rightarrow> key set" where
  "route_keys atom =
     {kobj_key (KService (getBareService atom)),
      kobj_key (KMiddleware (getBareStripPrefixMiddleware atom)),
      kobj_key (KMiddleware (getBareHeadersMiddleware atom))}"

definition download_key :: "Atom \<Rightarrow> string \<times> link_group \<Rightarrow> key" where
  "download_key atom x =
     kobj_key (KMiddleware (getBareDownloadLinkMiddleware atom (the (lg_index (snd x)))))"

lemma getRoutesForURL_refs:
  assumes "getRoutesForURL L atom u ms = Ret rs" and "rt \<in> set rs"
  shows "set (rt_Middlewares rt) \<subseteq> {at_Name atom @ headersSuffix, at_Name atom @ stripPrefixSuffix} \<union> set ms"
    and "rs_Name ` set (rt_Services rt) \<subseteq> {ob_Name (getBareService atom), ''azure-storage''}"
  using assms
  by (auto simp: getRoutesForURL_def go_bind_eq_Ret getDefaultRule_def azureStorageRule_def)

lemma ingress_routes_refs:
  assumes "ingress_routes ord L atom = Ret rs" and "rt \<in> set rs"
  obtains ms where "downloadMiddlewareRefs ord atom = Ret ms"
    and "set (rt_Middlewares rt) \<subseteq> {at_Name atom @ headersSuffix, at_Name atom @ stripPrefixSuffix} \<union> set ms"
    and "rs_Name ` set (rt_Services rt) \<subseteq> {ob_Name (getBareService atom), ''azure-storage''}"
proof -
  obtain ms where ms: "downloadMiddlewareRefs ord atom = Ret ms"
    using assms(1) by (auto simp: ingress_routes_def go_bind_eq_Ret)
  have "\<exists>u rs'. getRoutesForURL L atom u ms = Ret rs' \<and> rt \<in> set rs'"
  proof (cases "slice (as_IngressRouteURLs (at_Spec atom)) = []")
    case True
    then show ?thesis using assms ms by (auto simp: ingress_routes_def)
  next
    case False
    then obtain rss where rss: "rs = concat rss"
      and loop: "go_map (\<lambda>i. getRoutesForURL L atom (iru_URL i) ms)
        (slice (as_IngressRouteURLs (at_Spec atom))) = Ret rss"
      using assms(1) ms by (auto simp: ingress_routes_def go_bind_eq_Ret)
    then show ?thesis
      using assms(2) by (fastforce simp: go_map_eq_Ret list_all2_conv_all_nth in_set_conv_nth [of _ rss])
  qed
  then show thesis
    using ms getRoutesForURL_refs that by metis
qed

lemma refs_within_ingress:
  assumes "ownership_contract L" and "iteration_order ord" and "route_keys atom \<subseteq> K"
    and "\<And>G. getDownloadLinkGroups (GetDownloadLinks atom) = Ret G \<Longrightarrow> download_key atom ` set G \<subseteq> K"
  shows "refs_within (KIngressRoute (getBareIngressRoute atom))
    (on_IngressRoute (mutateIngressRoute ord L atom)) K"
  unfolding refs_within_def
proof (intro allI impI)
  fix o0 o1
  assume key: "kobj_key o0 = kobj_key (KIngressRoute (getBareIngressRoute atom))"
    and run: "on_IngressRoute (mutateIngressRoute ord L atom) o0 = Ret (o1, None)"
  then obtain i where i: "o0 = KIngressRoute i" "ob_Namespace i = at_Namespace atom"
    by (auto simp: key_constructor getBareIngressRoute_def)
  then obtain i' where i': "mutateIngressRoute ord L atom i = Ret (i', None)" "o1 = KIngressRoute i'"
    using run by (auto simp: wrap_eq_Ret)
  have ns: "ob_Namespace i' = at_Namespace atom"
    using ingressm.keeps_key(2) [OF assms(1) i'(1)] i(2) by simp
  obtain an rs where an: "ingress_annotations L atom = Ret an" and rs: "ingress_routes ord L atom = Ret rs"
    using i'(1) by (auto simp: mutateIngressRoute_def go_bind_eq_Ret)
  have routes: "ir_Routes (ob_Spec i') = rs"
    using ingressm.spec_of_prep [OF assms(1) i'(1)] by (simp add: ingress_prep_def an rs)
  have "(\<lambda>n. (MiddlewareKind, at_Namespace atom, n)) ` set (rt_Middlewares rt) \<union>
      (\<lambda>s. (ServiceKind, at_Namespace atom, rs_Name s)) ` set (rt_Services rt) \<subseteq> K \<union> external_refs"
    if "rt \<in> set rs" for rt
  proof -
    obtain ms where ms: "downloadMiddlewareRefs ord atom = Ret ms"
      and mid: "set (rt_Middlewares rt) \<subseteq> {at_Name atom @ headersSuffix, at_Name atom @ stripPrefixSuffix} \<union> set ms"
      and srv: "rs_Name ` set (rt_Services rt) \<subseteq> {ob_Name (getBareService atom), ''azure-storage''}"
      using ingress_routes_refs [OF rs \<open>rt \<in> set rs\<close>] .
    obtain G where G: "getDownloadLinkGroups (GetDownloadLinks atom) = Ret G"
      using ms by (auto simp: downloadMiddlewareRefs_def go_bind_eq_Ret)
    then have valid: "atom_keys_valid atom"
      using getDownloadLinkGroups_panics unfolding atom_keys_valid_def by (metis panics.simps(1))
    have "(MiddlewareKind, at_Namespace atom, n) \<in> download_key atom ` set G" if "n \<in> set ms" for n
      using that ms downloadMiddlewareRefs_eq [OF assms(2) valid G]
      by (auto simp: download_key_def getBareDownloadLinkMiddleware_def)
    then have "(MiddlewareKind, at_Namespace atom, n) \<in> K" if "n \<in> set ms" for n
      using that assms(4) [OF G] by blast
    then have "(\<lambda>n. (MiddlewareKind, at_Namespace atom, n)) ` set (rt_Middlewares rt) \<subseteq> K"
      using mid assms(3)
      by (auto simp: route_keys_def getBareStripPrefixMiddleware_def getBareHeadersMiddleware_def Let_def)
    moreover have "(\<lambda>s. (ServiceKind, at_Namespace atom, rs_Name s)) ` set (rt_Services rt)
        \<subseteq> K \<union> external_refs"
      using srv assms(3) by (auto simp: route_keys_def external_refs_def getBareService_def)
    ultimately show ?thesis by blast
  qed
  then show "kobj_refs o1 \<subseteq> K \<union> external_refs"
    by (simp add: i'(2) routes ns UN_subset_iff)
qed

section \<open>Every end of a reconcile keeps the references closed\<close>

text \<open>What the environment has to be for this: the contracts, and orders that are permutations.\<close>

definition sound_env :: "'w env \<Rightarrow> 'w view \<Rightarrow> bool" where
  "sound_env E view \<longleftrightarrow>
     cluster_contract (ev_client E) view \<and> labels_contract (ev_libs E) \<and>
     ownership_contract (ev_libs E) \<and> hash_contract (ev_libs E) \<and>
     iteration_order (ev_ord E) \<and> iteration_order (ev_ord_ingress E)"

lemma sound_env_parts:
  assumes "sound_env E view"
  shows "cluster_contract (ev_client E) view" and "labels_contract (ev_libs E)"
    and "ownership_contract (ev_libs E)" and "hash_contract (ev_libs E)"
    and "iteration_order (ev_ord E)" and "iteration_order (ev_ord_ingress E)"
  using assms by (simp_all add: sound_env_def)

lemma closed_weaken: "closed_with view K w \<Longrightarrow> refs_closed view w"
  by (simp add: closed_with_def)

lemma triple_exit:
  assumes "triple P m Q X" and "\<And>w. X w \<Longrightarrow> X' w"
  shows "triple P m Q X'"
  unfolding triple_def
proof (intro allI impI)
  fix rs w
  assume "P w"
  with assms(1) have "outcome Q X (m (rs, w))" unfolding triple_def by blast
  then show "outcome Q X' (m (rs, w))"
    using assms(2) by (cases "m (rs, w)" rule: step_cases) simp_all
qed

lemma triple_pure: "(A \<Longrightarrow> triple P m Q X) \<Longrightarrow> triple (\<lambda>w. A \<and> P w) m Q X"
  by (auto simp: triple_def)

text \<open>The two ways a statement is used: its key is stored after it, or nothing is claimed.\<close>

lemma stored_after:
  assumes "sound_env E view" and "refs_within obj mut K"
  shows "triple (closed_with view K) (apply_object (ev_client E) msg none_tolerated obj mut)
    (\<lambda>_. closed_with view (insert (kobj_key obj) K)) (refs_closed view)"
  using apply_object_closed(2) [OF sound_env_parts(1) [OF assms(1)] assms(2)]
  by (rule triple_exit) (auto simp: none_tolerated_def closed_weaken)

lemma apply_configMap_closed:
  assumes "sound_env E view"
  shows "triple (refs_closed view) (apply_configMap E atom oi)
    (\<lambda>c. closed_with view {(ConfigMapKind, at_Namespace atom, kobj_Name c)}) (refs_closed view)"
  unfolding apply_configMap_def Let_def
proof (rule triple_bind)
  let ?mut = "mutateAtomGeneratorConfigMap (ev_libs E) (ev_gen E) (ev_vars E) atom oi"
  show "triple (refs_closed view) (step_lift (go_bind (?mut (getBareConfigMap atom)) (\<lambda>(configMap, err).
      Ret (case err of Some e \<Rightarrow> Inl e | None \<Rightarrow> Inr configMap))))
    (\<lambda>c w. ob_Namespace c = at_Namespace atom \<and> closed_with view {} w) (refs_closed view)"
  proof (rule triple_lift)
    fix c w
    assume "go_bind (?mut (getBareConfigMap atom)) (\<lambda>(configMap, err).
      Ret (case err of Some e \<Rightarrow> Inl e | None \<Rightarrow> Inr configMap)) = ok c"
    then have "?mut (getBareConfigMap atom) = Ret (c, None)"
      by (auto simp: go_bind_eq_Ret split: option.splits)
    moreover assume "refs_closed view w"
    ultimately show "ob_Namespace c = at_Namespace atom \<and> closed_with view {} w"
      using mutateConfigMap_ok(4) [OF sound_env_parts(2,3,4) [OF assms]]
      by (simp add: getBareConfigMap_def closed_with_def)
  qed
  fix c
  have "triple (closed_with view {})
      (create_or_update (ev_client E) (GetObjectFullName (ev_client E) (KAtom atom)) unable none_tolerated
        (KConfigMap c) (on_ConfigMap ?mut))
      (\<lambda>obj' w. closed_with view {} w \<and> ((\<forall>e. \<not> none_tolerated e) \<longrightarrow>
         closed_with view (insert (kobj_key (KConfigMap c)) {}) w \<and> kobj_key obj' = kobj_key (KConfigMap c)))
      (closed_with view {})"
    by (rule create_or_update_closed [OF sound_env_parts(1) [OF assms] refs_within_simple(1)])
  then have run: "triple (closed_with view {})
      (create_or_update (ev_client E) (GetObjectFullName (ev_client E) (KAtom atom)) unable none_tolerated
        (KConfigMap c) (on_ConfigMap ?mut))
      (\<lambda>c' w. closed_with view {kobj_key c'} w \<and> kobj_key c' = (ConfigMapKind, ob_Namespace c, ob_Name c))
      (refs_closed view)"
    by (rule triple_exit [OF triple_conseq]) (auto simp: none_tolerated_def closed_weaken)
  show "triple (\<lambda>w. ob_Namespace c = at_Namespace atom \<and> closed_with view {} w)
      (create_or_update (ev_client E) (GetObjectFullName (ev_client E) (KAtom atom)) unable none_tolerated
        (KConfigMap c) (on_ConfigMap ?mut))
      (\<lambda>c'. closed_with view {(ConfigMapKind, at_Namespace atom, kobj_Name c')}) (refs_closed view)"
    by (rule triple_pure, rule triple_conseq [OF run]) auto
qed

lemma apply_download_closed:
  assumes "sound_env E view" and "lg_index (snd x) = Some i"
  shows "triple (closed_with view K) (apply_download E atom x)
    (\<lambda>_. closed_with view (insert (download_key atom x) K)) (refs_closed view)"
  unfolding apply_download_def case_prod_unfold
proof (rule triple_bind)
  show "triple (closed_with view K) (step_lift (go_bind (deref (lg_index (snd x))) ok))
      (\<lambda>j w. j = i \<and> closed_with view K w) (refs_closed view)"
    by (rule triple_lift) (auto simp: assms(2) go_simps closed_weaken)
  fix j
  show "triple (\<lambda>w. j = i \<and> closed_with view K w)
      (apply_object (ev_client E) unable none_tolerated (KMiddleware (getBareDownloadLinkMiddleware atom j))
        (on_Middleware (mutateDownloadLinkMiddleware (ev_libs E) atom (fst x) (lg_files (snd x)))))
      (\<lambda>_. closed_with view (insert (download_key atom x) K)) (refs_closed view)"
    using stored_after [OF assms(1) refs_within_simple(3)]
    by (intro triple_pure) (simp add: download_key_def assms(2))
qed

lemma apply_downloads_closed:
  assumes "sound_env E view"
  shows "triple (closed_with view K) (apply_downloads E atom)
    (\<lambda>_ w. closed_with view K w \<and> (\<forall>G. getDownloadLinkGroups (GetDownloadLinks atom) = Ret G \<longrightarrow>
       closed_with view (K \<union> download_key atom ` set G) w)) (refs_closed view)"
  unfolding apply_downloads_def
proof (rule triple_bind)
  show "triple (closed_with view K) (step_lift (go_bind (getDownloadLinkGroups (GetDownloadLinks atom)) ok))
      (\<lambda>G w. getDownloadLinkGroups (GetDownloadLinks atom) = Ret G \<and> closed_with view K w) (refs_closed view)"
    by (rule triple_lift) (auto simp: go_bind_eq_Ret closed_weaken)
  fix G
  show "triple (\<lambda>w. getDownloadLinkGroups (GetDownloadLinks atom) = Ret G \<and> closed_with view K w)
      (step_for (apply_download E atom) (ev_ord E G))
      (\<lambda>_ w. closed_with view K w \<and> (\<forall>G. getDownloadLinkGroups (GetDownloadLinks atom) = Ret G \<longrightarrow>
         closed_with view (K \<union> download_key atom ` set G) w)) (refs_closed view)"
  proof (rule triple_pure)
    assume True: "getDownloadLinkGroups (GetDownloadLinks atom) = Ret G"
    then have "atom_keys_valid atom"
      using getDownloadLinkGroups_panics unfolding atom_keys_valid_def by (metis panics.simps(1))
    then have index: "\<exists>i. lg_index (snd x) = Some i" if "x \<in> set G" for x
      using dlg.index_some [OF _ True that] unfolding atom_keys_valid_def by blast
    have order: "set (ev_ord E G) = set G"
      by (rule iteration_order_set [OF sound_env_parts(5) [OF assms]])
    have "triple (closed_with view (K \<union> download_key atom ` set [])) (step_for (apply_download E atom) (ev_ord E G))
        (\<lambda>_. closed_with view (K \<union> download_key atom ` set (ev_ord E G))) (refs_closed view)"
    proof (rule triple_for)
      fix ys x zs
      assume "ev_ord E G = ys @ x # zs"
      then have "x \<in> set G" using order by (metis in_set_conv_decomp)
      then obtain i where "lg_index (snd x) = Some i" using index by blast
      from apply_download_closed [OF assms this, of "K \<union> download_key atom ` set ys" atom]
      show "triple (closed_with view (K \<union> download_key atom ` set ys)) (apply_download E atom x)
          (\<lambda>_. closed_with view (K \<union> download_key atom ` set (ys @ [x]))) (refs_closed view)"
        by simp
    qed
    then show "triple (closed_with view K) (step_for (apply_download E atom) (ev_ord E G))
        (\<lambda>_ w. closed_with view K w \<and> (\<forall>G. getDownloadLinkGroups (GetDownloadLinks atom) = Ret G \<longrightarrow>
           closed_with view (K \<union> download_key atom ` set G) w)) (refs_closed view)"
      by (rule triple_conseq) (use True in \<open>auto simp: order closed_with_def\<close>)
  qed
qed

lemma apply_deployment_closed:
  assumes "sound_env E view"
  shows "triple (closed_with view {(ConfigMapKind, at_Namespace atom, n)}) (apply_deployment E atom n)
    (\<lambda>_. closed_with view {(ConfigMapKind, at_Namespace atom, n)}) (refs_closed view)"
proof -
  have "refs_within (KDeployment (getBareDeployment atom))
      (on_Deployment (\<lambda>d. mutateDeployment (ev_reconciler E) (ev_libs E) atom d n))
      {(ConfigMapKind, at_Namespace atom, n)}"
    by (rule refs_within_deployment [OF sound_env_parts(3) [OF assms]]) simp
  from apply_object_closed(1) [OF sound_env_parts(1) [OF assms] this] show ?thesis
    unfolding apply_deployment_def by (rule triple_exit) (rule closed_weaken)
qed

text \<open>The keys of all objects but the config map and the deployment.\<close>

definition download_keys :: "Atom \<Rightarrow> key set" where
  "download_keys atom = (case getDownloadLinkGroups (GetDownloadLinks atom) of
      Ret G \<Rightarrow> download_key atom ` set G | Panic _ \<Rightarrow> {})"

definition object_keys :: "Atom \<Rightarrow> key set" where
  "object_keys atom =
     route_keys atom \<union>
     {kobj_key (KIngressRoute (getBareIngressRoute atom)),
      kobj_key (KPodDisruptionBudget (getBarePodDisruptionBudget atom))} \<union>
     download_keys atom"

lemma createOrUpdateAll_closed:
  assumes "sound_env E view"
  shows "triple (refs_closed view) (createOrUpdateAllForAtom E atom oi)
    (\<lambda>_. closed_with view (object_keys atom)) (refs_closed view)"
proof -
  let ?S = "kobj_key (KService (getBareService atom))"
    and ?P = "kobj_key (KMiddleware (getBareStripPrefixMiddleware atom))"
    and ?H = "kobj_key (KMiddleware (getBareHeadersMiddleware atom))"
    and ?I = "kobj_key (KIngressRoute (getBareIngressRoute atom))"
  let ?D = "download_keys atom"
  have within: "refs_within (KIngressRoute (getBareIngressRoute atom))
      (on_IngressRoute (mutateIngressRoute (ev_ord_ingress E) (ev_libs E) atom)) (route_keys atom \<union> ?D)"
    by (rule refs_within_ingress [OF sound_env_parts(3,6) [OF assms]]) (auto simp: download_keys_def)
  have K: "insert ?H (insert ?P (insert ?S {})) = route_keys atom"
    by (auto simp: route_keys_def)
  have first: "triple (refs_closed view) (apply_configMap E atom oi)
      (\<lambda>c. closed_with view {(ConfigMapKind, at_Namespace atom, kobj_Name c)}) (refs_closed view)"
    by (rule apply_configMap_closed [OF assms])
  have second: "triple (closed_with view {(ConfigMapKind, at_Namespace atom, n)}) (apply_deployment E atom n)
      (\<lambda>_. closed_with view {}) (refs_closed view)" for n
    by (rule triple_conseq [OF apply_deployment_closed [OF assms]]) (auto simp: closed_with_def)
  have downloads: "triple (closed_with view (route_keys atom)) (apply_downloads E atom)
      (\<lambda>_. closed_with view (route_keys atom \<union> ?D)) (refs_closed view)"
    by (rule triple_conseq [OF apply_downloads_closed [OF assms]])
      (cases "getDownloadLinkGroups (GetDownloadLinks atom)"; simp add: download_keys_def)+
  note stored = stored_after [OF assms refs_within_simple(2)] stored_after [OF assms refs_within_simple(3)]
    stored_after [OF assms refs_within_simple(4)]
  show ?thesis
    unfolding createOrUpdateAllForAtom_def apply_service_def apply_stripPrefix_def apply_headers_def
      apply_ingressRoute_def apply_podDisruptionBudget_def
    by (rule triple_bind [OF first], rule triple_bind [OF second], rule triple_bind [OF stored(1)],
        rule triple_bind [OF stored(2)], rule triple_bind [OF stored(2)], unfold K,
        rule triple_bind [OF downloads], rule triple_bind [OF stored_after [OF assms within]],
        rule triple_conseq [OF stored(3)], assumption)
      (auto simp: object_keys_def closed_with_def)
qed

text \<open>Writing the status, or deleting the Atom, changes nothing that is referred to.\<close>

lemma client_keeps_closed:
  assumes "cluster_contract C view" and "refs_closed view w"
  shows "refs_closed view (LogAndUpdateStatusError C atom e w)"
    and "refs_closed view (LogAndUpdateStatusFinished C atom rs w)"
    and "refs_closed view (snd (DeleteAtom C atom w))"
  using assms by (simp_all add: cluster_contract_def refs_closed_def)

lemma recovering_closed:
  assumes "cluster_contract C view" and "refs_closed view (snd r)"
  shows "refs_closed view (snd (recovering C atom r))"
  using assms client_keeps_closed(1) [OF assms]
  by (auto simp: recovering_def Let_def split: prod.split go.split)

lemma reconcile_found_closed:
  assumes "sound_env E view" and "refs_closed view w"
  shows "refs_closed view (snd (reconcile_found E now atom oi w))"
proof (cases "ttlExpired atom now")
  case True
  then show ?thesis
    using client_keeps_closed(3) [OF sound_env_parts(1) [OF assms(1)] assms(2), of atom]
    by (auto simp: reconcile_found_def Let_def split: prod.split)
next
  case False
  have "outcome (\<lambda>_. closed_with view (object_keys atom)) (refs_closed view)
      (createOrUpdateAllForAtom E atom oi (Map.empty, w))"
    using createOrUpdateAll_closed [OF assms(1)] assms(2) unfolding triple_def by blast
  then show ?thesis
    using False client_keeps_closed(1,2) [OF sound_env_parts(1) [OF assms(1)]]
    by (cases "createOrUpdateAllForAtom E atom oi (Map.empty, w)" rule: step_cases)
      (auto simp: reconcile_found_def Let_def dest!: closed_weaken split: prod.split)
qed

text \<open>The keys an Atom may ever use, for any number of download groups.\<close>

definition own_keys :: "Atom \<Rightarrow> key set" where
  "own_keys atom =
     {kobj_key (KDeployment (getBareDeployment atom))} \<union> route_keys atom \<union>
     {kobj_key (KIngressRoute (getBareIngressRoute atom)),
      kobj_key (KPodDisruptionBudget (getBarePodDisruptionBudget atom))} \<union>
     range (\<lambda>i. kobj_key (KMiddleware (getBareDownloadLinkMiddleware atom i)))"

lemma object_keys_own: "object_keys atom \<subseteq> own_keys atom"
  by (auto simp: object_keys_def own_keys_def download_keys_def download_key_def split: go.splits)

end
