(* ===== verification/Convergence.thy ===== *)
theory Convergence
  imports Referential
begin

text \<open>
  Convergence: after a successful run of \<open>createOrUpdateAllForAtom\<close> every stored object is a fixed
  point of its own mutate function (by the idempotence that \<open>object_mutation\<close> gives), no statement
  undoes what another one did (their keys differ), and a second run changes nothing. The Deployment is
  an exception: a run tolerates that its request ends in a conflict, and leaves it as it was then.

  The contract here is stricter than \<open>cluster_contract\<close>: the server stores exactly what it is sent.
\<close>

section \<open>The stricter contract\<close>

definition stores_result :: "'w client \<Rightarrow> 'w view \<Rightarrow> bool" where
  "stores_result C view \<longleftrightarrow>
     (\<forall>obj mut w opr obj' w'. CreateOrUpdate C obj mut w = (Ret (opr, None, obj'), w') \<longrightarrow>
        (\<exists>o0. kobj_key o0 = kobj_key obj \<and> mut o0 = Ret (obj', None) \<and>
           kobj_key obj' = kobj_key obj \<and> view w' = (view w)(kobj_key obj \<mapsto> obj')))"

definition leaves_unchanged :: "'w client \<Rightarrow> 'w view \<Rightarrow> bool" where
  "leaves_unchanged C view \<longleftrightarrow>
     (\<forall>obj mut w s. view w (kobj_key obj) = Some s \<longrightarrow> mut s = Ret (s, None) \<longrightarrow>
        (\<exists>opr w'. CreateOrUpdate C obj mut w = (Ret (opr, None, s), w') \<and> view w' = view w))"

definition exact_contract :: "'w client \<Rightarrow> 'w view \<Rightarrow> bool" where
  "exact_contract C view \<longleftrightarrow>
     stores_result C view \<and> leaves_unchanged C view \<and>
     (\<forall>atom rs w. view (LogAndUpdateStatusFinished C atom rs w) = view w)"

lemma exact_contract_parts:
  assumes "exact_contract C view"
  shows "stores_result C view" and "leaves_unchanged C view"
    and "view (LogAndUpdateStatusFinished C atom rs w) = view w"
  using assms by (simp_all add: exact_contract_def)

section \<open>Mutators at rest\<close>

definition idempotent_on :: "key \<Rightarrow> mutator \<Rightarrow> bool" where
  "idempotent_on k mut \<longleftrightarrow>
     (\<forall>o0 o1. kobj_key o0 = k \<longrightarrow> mut o0 = Ret (o1, None) \<longrightarrow> mut o1 = Ret (o1, None))"

type_synonym application = "key \<times> mutator"

definition settled :: "'w view \<Rightarrow> application \<Rightarrow> 'w \<Rightarrow> bool" where
  "settled view x w \<longleftrightarrow> (\<exists>s. view w (fst x) = Some s \<and> kobj_key s = fst x \<and> snd x s = Ret (s, None))"

definition all_settled :: "'w view \<Rightarrow> application list \<Rightarrow> 'w \<Rightarrow> bool" where
  "all_settled view xs w \<longleftrightarrow> list_all (\<lambda>x. settled view x w) xs"

lemma all_settled_simps [simp]:
  "all_settled view [] w"
  "all_settled view (x # xs) w \<longleftrightarrow> settled view x w \<and> all_settled view xs w"
  "all_settled view (xs @ ys) w \<longleftrightarrow> all_settled view xs w \<and> all_settled view ys w"
  by (simp_all add: all_settled_def)

lemma all_settled_same: "view w' = view w \<Longrightarrow> all_settled view xs w' = all_settled view xs w"
  by (simp add: all_settled_def settled_def)

lemma all_settled_other:
  assumes "view w' = (view w)(k \<mapsto> s)" and "k \<notin> set (map fst xs)" and "all_settled view xs w"
  shows "all_settled view xs w'"
  using assms(2,3) unfolding all_settled_def list_all_iff settled_def assms(1)
  by auto

text \<open>A request that succeeded has settled its object, and nothing that was settled is unsettled.\<close>

lemma CreateOrUpdate_settles:
  assumes "exact_contract C view" and "idempotent_on (kobj_key obj) mut"
    and "kobj_key obj \<notin> set (map fst xs)" and "all_settled view xs w"
    and "CreateOrUpdate C obj mut w = (Ret (opr, None, obj'), w')"
  shows "kobj_key obj' = kobj_key obj" and "all_settled view (xs @ [(kobj_key obj, mut)]) w'"
proof -
  obtain o0 where o0: "kobj_key o0 = kobj_key obj" "mut o0 = Ret (obj', None)"
    "kobj_key obj' = kobj_key obj" "view w' = (view w)(kobj_key obj \<mapsto> obj')"
    using exact_contract_parts(1) [OF assms(1)] assms(5) unfolding stores_result_def by blast
  then have "mut obj' = Ret (obj', None)"
    using assms(2) unfolding idempotent_on_def by blast
  then show "kobj_key obj' = kobj_key obj" "all_settled view (xs @ [(kobj_key obj, mut)]) w'"
    using o0 all_settled_other [OF o0(4) assms(3,4)] by (simp_all add: settled_def)
qed

lemma create_or_update_settles:
  assumes "exact_contract C view" and "idempotent_on (kobj_key obj) mut"
    and "kobj_key obj \<notin> set (map fst xs)"
  shows "triple (all_settled view xs) (create_or_update C resultKey msg none_tolerated obj mut)
    (\<lambda>obj' w. kobj_key obj' = kobj_key obj \<and> all_settled view (xs @ [(kobj_key obj, mut)]) w) (\<lambda>_. True)"
  unfolding triple_def
proof (intro allI impI)
  fix rs w
  assume S: "all_settled view xs w"
  obtain r w' where run: "CreateOrUpdate C obj mut w = (r, w')" by fastforce
  note good = CreateOrUpdate_settles [OF assms S]
  show "outcome (\<lambda>obj' w. kobj_key obj' = kobj_key obj \<and>
        all_settled view (xs @ [(kobj_key obj, mut)]) w) (\<lambda>_. True)
      (create_or_update C resultKey msg none_tolerated obj mut (rs, w))"
    using good run by (cases r) (auto simp: create_or_update_def none_tolerated_def split: option.split)
qed

lemma apply_object_settles:
  assumes "exact_contract C view" and "idempotent_on (kobj_key obj) mut"
    and "kobj_key obj \<notin> set (map fst xs)"
  shows "triple (all_settled view xs) (apply_object C msg none_tolerated obj mut)
    (\<lambda>_. all_settled view (xs @ [(kobj_key obj, mut)])) (\<lambda>_. True)"
  unfolding apply_object_def
  by (rule triple_bind [OF create_or_update_settles [OF assms]]) (rule triple_ok, simp)

text \<open>
  The request for the Deployment may end in a conflict that the code tolerates. It then leaves the other
  objects alone.
\<close>

definition conflicts :: "'w client \<Rightarrow> kobj \<Rightarrow> mutator \<Rightarrow> 'w \<Rightarrow> bool" where
  "conflicts C obj mut w \<longleftrightarrow>
     (case fst (CreateOrUpdate C obj mut w) of
        Ret (opr, Some e, obj') \<Rightarrow> conflict_tolerated C e
      | _ \<Rightarrow> False)"

lemma tolerant_settles:
  assumes "exact_contract C view" and "cluster_contract C view" and "idempotent_on (kobj_key obj) mut"
    and "kobj_key obj \<notin> set (map fst xs)" and "all_settled view xs w"
    and "apply_object C msg (conflict_tolerated C) obj mut (rs, w) = (ok u, (rs', w'))"
  shows "all_settled view xs w'" and "\<not> conflicts C obj mut w \<Longrightarrow> settled view (kobj_key obj, mut) w'"
proof -
  obtain r w1 where run: "CreateOrUpdate C obj mut w = (r, w1)" by fastforce
  have w1: "w' = w1" and r: "(\<exists>opr obj'. r = Ret (opr, None, obj')) \<or> conflicts C obj mut w"
    using assms(6) run
    by (auto simp: apply_object_def create_or_update_def step_bind_def step_ok_def conflicts_def
        split: go.splits option.splits if_splits)
  have "all_settled view xs w1"
    using cluster_contract_run(1) [OF assms(2) run] all_settled_same all_settled_other [OF _ assms(4,5)] assms(5)
    unfolding written_def by metis
  then show "all_settled view xs w'" by (simp add: w1)
  show "settled view (kobj_key obj, mut) w'" if "\<not> conflicts C obj mut w"
    using r that CreateOrUpdate_settles(2) [OF assms(1,3,4,5)] run by (auto simp: w1)
qed

text \<open>The mutators of the code are idempotent, each by its interpretation of \<open>object_mutation\<close>.\<close>

lemma mutateConfigMap_idem:
  assumes "labels_contract L" and "ownership_contract L" and "hash_contract L"
    and "mutateAtomGeneratorConfigMap L G v atom oi c = Ret (c', None)"
  shows "mutateAtomGeneratorConfigMap L G v atom oi c' = Ret (c', None)"
proof -
  note c' = mutateConfigMap_ok [OF assms]
  have "with_labels L atom c' = c'"
    by (rule with_labels_idem [OF assms(1) c'(3)])
  moreover have "c'\<lparr>ob_Spec := \<lparr>cm_Data = cm_Data (ob_Spec c'), cm_Immutable = Pointer_bool L True\<rparr>\<rparr> = c'"
    using c'(2) by simp
  ultimately show ?thesis
    using configMapData_idem(2) [OF c'(1)] c'(5,6)
    by (simp add: mutateAtomGeneratorConfigMap_def)
qed

lemma mutators_idempotent:
  assumes "labels_contract L" and "ownership_contract L"
  shows "idempotent_on (kobj_key (KDeployment d)) (on_Deployment (\<lambda>d. mutateDeployment r L atom d n))"
    and "idempotent_on (kobj_key (KService s)) (on_Service (mutateService L atom))"
    and "idempotent_on (kobj_key (KMiddleware m)) (on_Middleware (mutateStripPrefixMiddleware L atom))"
    and "idempotent_on (kobj_key (KMiddleware m)) (on_Middleware (\<lambda>m. mutateHeadersMiddleware L atom m csp))"
    and "idempotent_on (kobj_key (KMiddleware m)) (on_Middleware (mutateDownloadLinkMiddleware L atom pfx fs))"
    and "idempotent_on (kobj_key (KIngressRoute i)) (on_IngressRoute (mutateIngressRoute ord L atom))"
    and "idempotent_on (kobj_key (KPodDisruptionBudget p)) (on_PodDisruptionBudget (mutatePodDisruptionBudget L atom))"
  using deploymentm.idempotent [OF assms] servicem.idempotent [OF assms] stripm.idempotent [OF assms]
    headersm.idempotent [OF assms] downloadm.idempotent [OF assms] ingressm.idempotent [OF assms]
    pdbm.idempotent [OF assms]
  unfolding idempotent_on_def by (auto simp: key_constructor wrap_eq_Ret)

lemma mutateConfigMap_idempotent_on:
  assumes "labels_contract L" and "ownership_contract L" and "hash_contract L"
  shows "idempotent_on (kobj_key (KConfigMap c)) (on_ConfigMap (mutateAtomGeneratorConfigMap L G v atom oi))"
  using mutateConfigMap_idem [OF assms] unfolding idempotent_on_def
  by (auto simp: key_constructor wrap_eq_Ret)

section \<open>The statements of a run, as a list\<close>

abbreviation configMap_mutator :: "'w env \<Rightarrow> Atom \<Rightarrow> OwnerInfo \<Rightarrow> ConfigMap \<Rightarrow> (ConfigMap \<times> go_error option) go" where
  "configMap_mutator E atom oi \<equiv> mutateAtomGeneratorConfigMap (ev_libs E) (ev_gen E) (ev_vars E) atom oi"

definition plan_before :: "'w env \<Rightarrow> Atom \<Rightarrow> OwnerInfo \<Rightarrow> ConfigMap \<Rightarrow> application list" where
  "plan_before E atom oi c =
     [(kobj_key (KConfigMap c), on_ConfigMap (configMap_mutator E atom oi)),
      (kobj_key (KDeployment (getBareDeployment atom)),
       on_Deployment (\<lambda>d. mutateDeployment (ev_reconciler E) (ev_libs E) atom d (ob_Name c))),
      (kobj_key (KService (getBareService atom)), on_Service (mutateService (ev_libs E) atom)),
      (kobj_key (KMiddleware (getBareStripPrefixMiddleware atom)),
       on_Middleware (mutateStripPrefixMiddleware (ev_libs E) atom)),
      (kobj_key (KMiddleware (getBareHeadersMiddleware atom)),
       on_Middleware (\<lambda>m. mutateHeadersMiddleware (ev_libs E) atom m (rc_CSP (ev_reconciler E))))]"

definition plan_download :: "'w env \<Rightarrow> Atom \<Rightarrow> string \<times> link_group \<Rightarrow> application" where
  "plan_download E atom x =
     (download_key atom x,
      on_Middleware (mutateDownloadLinkMiddleware (ev_libs E) atom (fst x) (lg_files (snd x))))"

definition plan_after :: "'w env \<Rightarrow> Atom \<Rightarrow> application list" where
  "plan_after E atom =
     [(kobj_key (KIngressRoute (getBareIngressRoute atom)),
       on_IngressRoute (mutateIngressRoute (ev_ord_ingress E) (ev_libs E) atom)),
      (kobj_key (KPodDisruptionBudget (getBarePodDisruptionBudget atom)),
       on_PodDisruptionBudget (mutatePodDisruptionBudget (ev_libs E) atom))]"

definition plan_deployment :: "'w env \<Rightarrow> Atom \<Rightarrow> ConfigMap \<Rightarrow> application" where
  "plan_deployment E atom c =
     (kobj_key (KDeployment (getBareDeployment atom)),
      on_Deployment (\<lambda>d. mutateDeployment (ev_reconciler E) (ev_libs E) atom d (ob_Name c)))"

definition plan ::
  "'w env \<Rightarrow> Atom \<Rightarrow> OwnerInfo \<Rightarrow> ConfigMap \<Rightarrow> (string \<times> link_group) list \<Rightarrow> application list" where
  "plan E atom oi c G =
     plan_before E atom oi c @ map (plan_download E atom) (ev_ord E G) @ plan_after E atom"

text \<open>The list without the Deployment.\<close>

definition plan_others ::
  "'w env \<Rightarrow> Atom \<Rightarrow> OwnerInfo \<Rightarrow> ConfigMap \<Rightarrow> (string \<times> link_group) list \<Rightarrow> application list" where
  "plan_others E atom oi c G =
     take 1 (plan_before E atom oi c) @ drop 2 (plan_before E atom oi c) @
     map (plan_download E atom) (ev_ord E G) @ plan_after E atom"

lemma plan_split:
  "set (plan E atom oi c G) = insert (plan_deployment E atom c) (set (plan_others E atom oi c G))"
  by (auto simp: plan_def plan_others_def plan_before_def plan_deployment_def)

lemma all_settled_plan:
  "all_settled view (plan E atom oi c G) w \<longleftrightarrow>
     settled view (plan_deployment E atom c) w \<and> all_settled view (plan_others E atom oi c G) w"
  unfolding all_settled_def list_all_iff plan_split by simp

lemma plan_others_key:
  "x \<in> set (plan_others E atom oi c G) \<Longrightarrow> fst x \<noteq> kobj_key (KDeployment (getBareDeployment atom))"
  by (auto simp: plan_others_def plan_before_def plan_after_def plan_download_def download_key_def)

text \<open>No two statements write the same key.\<close>

lemma download_key_fresh:
  "download_key atom x \<notin> {kobj_key (KMiddleware (getBareStripPrefixMiddleware atom)),
     kobj_key (KMiddleware (getBareHeadersMiddleware atom))}"
  by (simp add: download_key_def getBareDownloadLinkMiddleware_def
      getBareStripPrefixMiddleware_def getBareHeadersMiddleware_def Let_def name_constants)

lemma download_keys_distinct:
  assumes "getDownloadLinkGroups (GetDownloadLinks atom) = Ret G" and "iteration_order ord"
  shows "distinct (map (download_key atom) (ord G))"
proof -
  have valid: "list_all has_blob_key (GetDownloadLinks atom)"
    using assms(1) getDownloadLinkGroups_panics by (metis panics.simps(1))
  have index: "lg_index (snd (G ! i)) = Some i" if "i < length G" for i
    using dlg.index_nth [OF valid assms(1) that] .
  have "distinct (map (download_key atom) G)"
    using index by (simp add: distinct_conv_nth download_key_def download_middleware_name_inj)
  moreover have "mset (map (download_key atom) (ord G)) = mset (map (download_key atom) G)"
    using assms(2) by (simp add: iteration_order_def)
  ultimately show ?thesis by (metis mset_eq_imp_distinct_iff)
qed

section \<open>The first run settles every object\<close>

lemma apply_configMap_settles:
  assumes "exact_contract (ev_client E) view" and "sound_env E view"
    and "configMap_mutator E atom oi (getBareConfigMap atom) = Ret (c, None)"
  shows "triple (\<lambda>_. True) (apply_configMap E atom oi)
    (\<lambda>c' w. kobj_key c' = kobj_key (KConfigMap c) \<and> all_settled view (take 1 (plan_before E atom oi c)) w)
    (\<lambda>_. True)"
  unfolding apply_configMap_def Let_def
proof (rule triple_bind)
  show "triple (\<lambda>_. True) (step_lift (go_bind (configMap_mutator E atom oi (getBareConfigMap atom))
      (\<lambda>(configMap, err). Ret (case err of Some e \<Rightarrow> Inl e | None \<Rightarrow> Inr configMap))))
    (\<lambda>c' w. c' = c \<and> all_settled view [] w) (\<lambda>_. True)"
    by (rule triple_lift) (simp_all add: assms(3))
  show "triple (\<lambda>w. c' = c \<and> all_settled view [] w)
      (create_or_update (ev_client E) (GetObjectFullName (ev_client E) (KAtom atom)) unable none_tolerated
        (KConfigMap c') (on_ConfigMap (configMap_mutator E atom oi)))
      (\<lambda>c' w. kobj_key c' = kobj_key (KConfigMap c) \<and> all_settled view (take 1 (plan_before E atom oi c)) w)
      (\<lambda>_. True)" for c'
    by (rule triple_pure, rule triple_conseq [OF create_or_update_settles [OF assms(1)
          mutateConfigMap_idempotent_on [OF sound_env_parts(2,3,4) [OF assms(2)]], where xs = "[]"]])
      (auto simp: none_tolerated_def plan_before_def)
qed

lemma apply_downloads_settles:
  assumes "exact_contract (ev_client E) view" and "sound_env E view"
    and "getDownloadLinkGroups (GetDownloadLinks atom) = Ret G"
    and "\<And>x. download_key atom x \<notin> set (map fst xs)"
  shows "triple (all_settled view xs) (apply_downloads E atom)
    (\<lambda>_. all_settled view (xs @ map (plan_download E atom) (ev_ord E G))) (\<lambda>_. True)"
  unfolding apply_downloads_def
proof (rule triple_bind)
  let ?P = "\<lambda>ys. all_settled view (xs @ map (plan_download E atom) ys)"
  show "triple (all_settled view xs)
      (step_lift (go_bind (getDownloadLinkGroups (GetDownloadLinks atom)) ok))
      (\<lambda>G' w. G' = G \<and> ?P [] w) (\<lambda>_. True)"
    by (rule triple_lift) (simp_all add: assms(3))
  fix G'
  have "triple (?P []) (step_for (apply_download E atom) (ev_ord E G)) (\<lambda>_. ?P (ev_ord E G)) (\<lambda>_. True)"
  proof (rule triple_for)
    fix ys x zs
    assume split: "ev_ord E G = ys @ x # zs"
    have "x \<in> set G"
      using split iteration_order_set [OF sound_env_parts(5) [OF assms(2)], of G] by auto
    then obtain i where i: "lg_index (snd x) = Some i"
      using dlg.index_some [OF _ assms(3)] getDownloadLinkGroups_panics assms(3)
      by (metis panics.simps(1))
    have fresh: "download_key atom x \<notin> set (map fst (xs @ map (plan_download E atom) ys))"
      using download_keys_distinct [OF assms(3) sound_env_parts(5) [OF assms(2)]] assms(4) [of x]
      by (simp add: split plan_download_def image_image)
    show "triple (?P ys) (apply_download E atom x) (\<lambda>_. ?P (ys @ [x])) (\<lambda>_. True)"
      unfolding apply_download_def case_prod_unfold
    proof (rule triple_bind)
      show "triple (?P ys) (step_lift (go_bind (deref (lg_index (snd x))) ok)) (\<lambda>j w. j = i \<and> ?P ys w) (\<lambda>_. True)"
        by (rule triple_lift) (simp_all add: i go_simps)
      have key: "kobj_key (KMiddleware (getBareDownloadLinkMiddleware atom i)) = download_key atom x"
        by (simp add: download_key_def i)
      show "triple (\<lambda>w. j = i \<and> ?P ys w)
          (apply_object (ev_client E) unable none_tolerated (KMiddleware (getBareDownloadLinkMiddleware atom j))
            (on_Middleware (mutateDownloadLinkMiddleware (ev_libs E) atom (fst x) (lg_files (snd x)))))
          (\<lambda>_. ?P (ys @ [x])) (\<lambda>_. True)" for j
        using apply_object_settles [OF assms(1)
            mutators_idempotent(5) [OF sound_env_parts(2,3) [OF assms(2)]] fresh [folded key]]
        by (intro triple_pure) (simp add: plan_download_def key del: kobj_key.simps all_settled_simps(3))
    qed
  qed
  then show "triple (\<lambda>w. G' = G \<and> ?P [] w) (step_for (apply_download E atom) (ev_ord E G'))
      (\<lambda>_. ?P (ev_ord E G)) (\<lambda>_. True)"
    by (intro triple_pure) simp
qed

text \<open>The statements behind the Deployment, on top of what is settled before them.\<close>

definition apply_rest :: "'w env \<Rightarrow> Atom \<Rightarrow> (unit, 'w) step" where
  "apply_rest E atom =
     step_bind (apply_service E atom) (\<lambda>_.
     step_bind (apply_stripPrefix E atom) (\<lambda>_.
     step_bind (apply_headers E atom) (\<lambda>_.
     step_bind (apply_downloads E atom) (\<lambda>_.
     step_bind (apply_ingressRoute E atom) (\<lambda>_.
     apply_podDisruptionBudget E atom)))))"

lemma createOrUpdateAll_rest:
  "createOrUpdateAllForAtom E atom oi =
     step_bind (apply_configMap E atom oi) (\<lambda>configMap.
     step_bind (apply_deployment E atom (kobj_Name configMap)) (\<lambda>_. apply_rest E atom))"
  by (simp add: createOrUpdateAllForAtom_def apply_rest_def)

lemma apply_rest_settles:
  assumes "exact_contract (ev_client E) view" and "sound_env E view"
    and "getDownloadLinkGroups (GetDownloadLinks atom) = Ret G"
    and "\<And>k. k \<in> set (map fst xs) \<Longrightarrow> fst k \<in> {ConfigMapKind, DeploymentKind}"
  shows "triple (all_settled view xs) (apply_rest E atom)
    (\<lambda>_. all_settled view (xs @ drop 2 (plan_before E atom oi c) @
       map (plan_download E atom) (ev_ord E G) @ plan_after E atom)) (\<lambda>_. True)"
proof -
  note idem = mutators_idempotent [OF sound_env_parts(2,3) [OF assms(2)]]
  note next1 = apply_object_settles [OF assms(1)]
  let ?B = "drop 2 (plan_before E atom oi c)" and ?D = "map (plan_download E atom) (ev_ord E G)"
  have fresh: "(k, n) \<notin> set (map fst xs)" if "k \<notin> {ConfigMapKind, DeploymentKind}" for k n
    using assms(4) [of "(k, n)"] that by auto
  note [simp] = fresh [unfolded set_map image_iff, simplified]
  have first: "triple (all_settled view xs) (apply_service E atom)
      (\<lambda>_. all_settled view (xs @ take 1 ?B)) (\<lambda>_. True)"
    unfolding apply_service_def
    by (rule triple_conseq [OF next1 [OF idem(2), of _ xs]]) (use fresh in \<open>auto simp: plan_before_def\<close>)
  have second: "triple (all_settled view (xs @ take 1 ?B)) (apply_stripPrefix E atom)
      (\<lambda>_. all_settled view (xs @ take 2 ?B)) (\<lambda>_. True)"
    unfolding apply_stripPrefix_def
    by (rule triple_conseq [OF next1 [OF idem(3), of _ "xs @ take 1 ?B"]]) (use fresh in \<open>auto simp: plan_before_def\<close>)
  have third: "triple (all_settled view (xs @ take 2 ?B)) (apply_headers E atom)
      (\<lambda>_. all_settled view (xs @ ?B)) (\<lambda>_. True)"
    unfolding apply_headers_def
    by (rule triple_conseq [OF next1 [OF idem(4), of _ "xs @ take 2 ?B"]])
      (use fresh in \<open>auto simp: plan_before_def getBareStripPrefixMiddleware_def getBareHeadersMiddleware_def
        Let_def name_constants\<close>)
  have fourth: "triple (all_settled view (xs @ ?B)) (apply_downloads E atom)
      (\<lambda>_. all_settled view ((xs @ ?B) @ ?D)) (\<lambda>_. True)"
    by (rule apply_downloads_settles [OF assms(1-3)])
      (use fresh download_key_fresh [of atom] in \<open>auto simp: plan_before_def download_key_def\<close>)
  have fifth: "triple (all_settled view ((xs @ ?B) @ ?D)) (apply_ingressRoute E atom)
      (\<lambda>_. all_settled view ((xs @ ?B @ ?D) @ take 1 (plan_after E atom))) (\<lambda>_. True)"
    unfolding apply_ingressRoute_def
    by (rule triple_conseq [OF next1 [OF idem(6), of _ "xs @ ?B @ ?D"]])
      (use fresh in \<open>auto simp: plan_before_def plan_download_def download_key_def plan_after_def\<close>)
  have sixth: "triple (all_settled view ((xs @ ?B @ ?D) @ take 1 (plan_after E atom)))
      (apply_podDisruptionBudget E atom) (\<lambda>_. all_settled view (xs @ ?B @ ?D @ plan_after E atom)) (\<lambda>_. True)"
    unfolding apply_podDisruptionBudget_def
    by (rule triple_conseq [OF next1 [OF idem(7), of _ "(xs @ ?B @ ?D) @ take 1 (plan_after E atom)"]])
      (use fresh in \<open>auto simp: plan_before_def plan_download_def download_key_def plan_after_def\<close>)
  show ?thesis
    unfolding apply_rest_def
    by (intro triple_bind [OF first] triple_bind [OF second] triple_bind [OF third] triple_bind [OF fourth]
        triple_bind [OF fifth] sixth)
qed

text \<open>
  The Deployment of a run, with the name of the ConfigMap that the run has stored before, may be in conflict.
\<close>

definition deployment_conflict :: "'w env \<Rightarrow> Atom \<Rightarrow> OwnerInfo \<Rightarrow> 'w \<Rightarrow> bool" where
  "deployment_conflict E atom oi w \<longleftrightarrow>
     (case apply_configMap E atom oi (Map.empty, w) of
        (Ret (Inr configMap), (rs, w1)) \<Rightarrow>
          conflicts (ev_client E) (KDeployment (getBareDeployment atom))
            (on_Deployment (\<lambda>d. mutateDeployment (ev_reconciler E) (ev_libs E) atom d (kobj_Name configMap))) w1
      | _ \<Rightarrow> False)"

text \<open>A run that succeeded has mutated the config map and grouped the links, or it would not have.\<close>

lemma step_bind_ok:
  "step_bind m f s = (ok y, s'') \<longleftrightarrow> (\<exists>x s'. m s = (ok x, s') \<and> f x s' = (ok y, s''))"
  by (auto simp: step_bind_def split: prod.split go.split sum.split)

lemma createOrUpdateAll_settles:
  assumes "exact_contract (ev_client E) view" and "sound_env E view"
    and "createOrUpdateAllForAtom E atom oi (Map.empty, w) = (ok u, (rs', w'))"
  obtains c G where "configMap_mutator E atom oi (getBareConfigMap atom) = Ret (c, None)"
    and "getDownloadLinkGroups (GetDownloadLinks atom) = Ret G"
    and "all_settled view (plan_others E atom oi c G) w'"
    and "\<not> deployment_conflict E atom oi w \<Longrightarrow> settled view (plan_deployment E atom c) w'"
proof -
  obtain cm rs1 w1 u2 rs2 w2 where
    run1: "apply_configMap E atom oi (Map.empty, w) = (ok cm, (rs1, w1))"
    and run2: "apply_deployment E atom (kobj_Name cm) (rs1, w1) = (ok u2, (rs2, w2))"
    and run3: "apply_rest E atom (rs2, w2) = (ok u, (rs', w'))"
    using assms(3) unfolding createOrUpdateAll_rest step_bind_ok by (metis surj_pair)
  obtain c where c: "configMap_mutator E atom oi (getBareConfigMap atom) = Ret (c, None)"
    using run1
    by (cases "configMap_mutator E atom oi (getBareConfigMap atom)")
      (auto simp: apply_configMap_def step_bind_def step_lift_def Let_def split: option.splits)
  obtain G where G: "getDownloadLinkGroups (GetDownloadLinks atom) = Ret G"
  proof (cases "getDownloadLinkGroups (GetDownloadLinks atom)")
    case (Panic p)
    then show thesis
      using run3 by (auto simp: apply_rest_def step_bind_ok apply_downloads_def step_lift_def)
  qed
  let ?C = "take 1 (plan_before E atom oi c)" and ?dep = "plan_deployment E atom c"
  have "outcome (\<lambda>c' w. kobj_key c' = kobj_key (KConfigMap c) \<and> all_settled view ?C w) (\<lambda>_. True)
      (apply_configMap E atom oi (Map.empty, w))"
    using apply_configMap_settles [OF assms(1,2) c] unfolding triple_def by blast
  then have name: "kobj_Name cm = ob_Name c" and C: "all_settled view ?C w1"
    by (simp_all add: run1)
  have dep: "apply_object (ev_client E) unable (conflict_tolerated (ev_client E))
      (KDeployment (getBareDeployment atom)) (snd ?dep) (rs1, w1) = (ok u2, (rs2, w2))"
    using run2 by (simp add: apply_deployment_def name plan_deployment_def)
  have fresh: "kobj_key (KDeployment (getBareDeployment atom)) \<notin> set (map fst ?C)"
    by (simp add: plan_before_def)
  have idem: "idempotent_on (kobj_key (KDeployment (getBareDeployment atom))) (snd ?dep)"
    unfolding plan_deployment_def snd_conv by (rule mutators_idempotent(1) [OF sound_env_parts(2,3) [OF assms(2)]])
  note deployed = tolerant_settles [OF assms(1) sound_env_parts(1) [OF assms(2)] idem fresh C dep]
  have kinds: "fst k \<in> {ConfigMapKind, DeploymentKind}" if "k \<in> set (map fst xs)" "set xs \<subseteq> insert ?dep (set ?C)" for k xs
    using that by (auto simp: plan_before_def plan_deployment_def)
  have rest: "all_settled view (xs @ drop 2 (plan_before E atom oi c) @
       map (plan_download E atom) (ev_ord E G) @ plan_after E atom) w'"
    if "all_settled view xs w2" "set xs \<subseteq> insert ?dep (set ?C)" for xs
  proof -
    have "outcome (\<lambda>_. all_settled view (xs @ drop 2 (plan_before E atom oi c) @
       map (plan_download E atom) (ev_ord E G) @ plan_after E atom)) (\<lambda>_. True) (apply_rest E atom (rs2, w2))"
      using apply_rest_settles [OF assms(1,2) G kinds [OF _ that(2)], of xs oi c] that(1) unfolding triple_def by blast
    then show ?thesis by (simp add: run3)
  qed
  show thesis
  proof (rule that [OF c G])
    show "all_settled view (plan_others E atom oi c G) w'"
      using rest [OF deployed(1)] by (auto simp: plan_others_def)
    assume "\<not> deployment_conflict E atom oi w"
    then have "settled view ?dep w2"
      using deployed(2) by (simp add: deployment_conflict_def run1 name plan_deployment_def)
    then show "settled view ?dep w'" using rest [of "[?dep]"] by simp
  qed
qed

text \<open>The same for \<open>Reconcile\<close>, whose last write is the status.\<close>

lemma Reconcile_settles:
  assumes "exact_contract (ev_client E) view" and "sound_env E view"
    and "GetAtom (ev_client E) w req = Inr atom"
    and "GetOwnerInfo (ev_client E) w (at_Namespace atom, sv_OwnerInfoRef (at_Service atom)) = Inr oi"
    and "\<not> ttlExpired atom now" and "Reconcile E req now w = (None, w')"
  obtains c G where "configMap_mutator E atom oi (getBareConfigMap atom) = Ret (c, None)"
    and "getDownloadLinkGroups (GetDownloadLinks atom) = Ret G"
    and "all_settled view (plan_others E atom oi c G) w'"
    and "\<not> deployment_conflict E atom oi w \<Longrightarrow> settled view (plan_deployment E atom c) w'"
proof -
  obtain rs w1 where run: "createOrUpdateAllForAtom E atom oi (Map.empty, w) = (ok (), (rs, w1))"
    and w': "w' = LogAndUpdateStatusFinished (ev_client E) atom rs w1"
    using assms(3-6) by (cases "createOrUpdateAllForAtom E atom oi (Map.empty, w)" rule: step_cases)
      (auto simp: Reconcile_def Let_def reconcile_found_def recovering_def split: prod.splits)
  have same: "view w' = view w1" by (simp add: w' exact_contract_parts(3) [OF assms(1)])
  obtain c G where "configMap_mutator E atom oi (getBareConfigMap atom) = Ret (c, None)"
    "getDownloadLinkGroups (GetDownloadLinks atom) = Ret G" "all_settled view (plan_others E atom oi c G) w1"
    "\<not> deployment_conflict E atom oi w \<Longrightarrow> settled view (plan_deployment E atom c) w1"
    by (rule createOrUpdateAll_settles [OF assms(1,2) run]) blast
  then show thesis
    using that by (simp add: same all_settled_def settled_def)
qed

section \<open>The next run changes nothing\<close>

definition calm :: "'w view \<Rightarrow> application list \<Rightarrow> ('a, 'w) step \<Rightarrow> ('a \<Rightarrow> bool) \<Rightarrow> bool" where
  "calm view xs m Y \<longleftrightarrow>
     (\<forall>rs w. all_settled view xs w \<longrightarrow>
        (\<exists>y rs' w'. m (rs, w) = (ok y, (rs', w')) \<and> Y y \<and> view w' = view w))"

lemma calm_lift: "r = ok y \<Longrightarrow> Y y \<Longrightarrow> calm view xs (step_lift r) Y"
  by (simp add: calm_def step_lift_def)

lemma calm_bind:
  assumes "calm view xs m Y" and "\<And>y. Y y \<Longrightarrow> calm view xs (f y) Z"
  shows "calm view xs (step_bind m f) Z"
  unfolding calm_def
proof (intro allI impI)
  fix rs w
  assume S: "all_settled view xs w"
  obtain y rs' w' where m: "m (rs, w) = (ok y, (rs', w'))" "Y y" "view w' = view w"
    using assms(1) S unfolding calm_def by blast
  obtain z rs'' w'' where f: "f y (rs', w') = (ok z, (rs'', w''))" "Z z" "view w'' = view w'"
    using assms(2) [OF m(2)] S all_settled_same [OF m(3), of xs] unfolding calm_def by blast
  have "step_bind m f (rs, w) = (ok z, (rs'', w''))"
    by (simp add: step_bind_def m(1) f(1))
  then show "\<exists>z rs' w'. step_bind m f (rs, w) = (ok z, (rs', w')) \<and> Z z \<and> view w' = view w"
    using f m by auto
qed

lemma calm_for:
  assumes "\<And>x. x \<in> set zs \<Longrightarrow> calm view xs (f x) (\<lambda>_. True)"
  shows "calm view xs (step_for f zs) (\<lambda>_. True)"
  using assms
proof (induction zs)
  case Nil
  then show ?case by (simp add: calm_def step_ok_def)
next
  case (Cons z zs)
  show ?case
    unfolding step_for.simps by (rule calm_bind) (use Cons in auto)
qed

lemma create_or_update_calm:
  assumes "exact_contract C view" and "(kobj_key obj, mut) \<in> set xs"
  shows "calm view xs (create_or_update C resultKey msg tolerated obj mut) (\<lambda>y. kobj_key y = kobj_key obj)"
  unfolding calm_def
proof (intro allI impI)
  fix rs w
  assume "all_settled view xs w"
  then have "settled view (kobj_key obj, mut) w"
    using assms(2) unfolding all_settled_def list_all_iff by blast
  then obtain s where s: "view w (kobj_key obj) = Some s" "mut s = Ret (s, None)" "kobj_key s = kobj_key obj"
    unfolding settled_def by auto
  then obtain opr w' where "CreateOrUpdate C obj mut w = (Ret (opr, None, s), w')" "view w' = view w"
    using exact_contract_parts(2) [OF assms(1)] unfolding leaves_unchanged_def by metis
  then show "\<exists>y rs' w'. create_or_update C resultKey msg tolerated obj mut (rs, w) = (ok y, (rs', w')) \<and>
      kobj_key y = kobj_key obj \<and> view w' = view w"
    using s(3) by (simp add: create_or_update_def)
qed

lemma apply_object_calm:
  assumes "exact_contract C view" and "(kobj_key obj, mut) \<in> set xs"
  shows "calm view xs (apply_object C msg tolerated obj mut) (\<lambda>_. True)"
  unfolding apply_object_def
  by (rule calm_bind [OF create_or_update_calm [OF assms]]) (simp add: calm_def step_ok_def)

text \<open>The statements of a run are calm when what they do is settled.\<close>

lemma statements_calm:
  assumes "exact_contract (ev_client E) view" and "sound_env E view"
    and c: "configMap_mutator E atom oi (getBareConfigMap atom) = Ret (c, None)"
    and G: "getDownloadLinkGroups (GetDownloadLinks atom) = Ret G"
    and P: "set (plan_others E atom oi c G) \<subseteq> set P"
  shows "calm view P (apply_configMap E atom oi) (\<lambda>y. kobj_Name y = ob_Name c)"
    and "calm view P (apply_rest E atom) (\<lambda>_. True)"
proof -
  note object = apply_object_calm [OF assms(1), of _ _ P]
  have member: "x \<in> set P" if "x \<in> set (plan_others E atom oi c G)" for x using P that by blast
  show "calm view P (apply_configMap E atom oi) (\<lambda>y. kobj_Name y = ob_Name c)"
    unfolding apply_configMap_def Let_def
  proof (rule calm_bind)
    show "calm view P (step_lift (go_bind (configMap_mutator E atom oi (getBareConfigMap atom))
        (\<lambda>(configMap, err). Ret (case err of Some e \<Rightarrow> Inl e | None \<Rightarrow> Inr configMap)))) (\<lambda>y. y = c)"
      by (rule calm_lift) (simp_all add: c)
    fix y
    assume "y = c"
    with create_or_update_calm [OF assms(1) member, of "KConfigMap c"
        "on_ConfigMap (configMap_mutator E atom oi)"]
    show "calm view P (create_or_update (ev_client E) (GetObjectFullName (ev_client E) (KAtom atom)) unable
        none_tolerated (KConfigMap y) (on_ConfigMap (configMap_mutator E atom oi))) (\<lambda>y. kobj_Name y = ob_Name c)"
      by (fastforce simp: plan_others_def plan_before_def calm_def)
  qed
  have downloads: "calm view P (apply_downloads E atom) (\<lambda>_. True)"
    unfolding apply_downloads_def
  proof (rule calm_bind)
    show "calm view P (step_lift (go_bind (getDownloadLinkGroups (GetDownloadLinks atom)) ok)) (\<lambda>y. y = G)"
      by (rule calm_lift) (simp_all add: G)
    show "calm view P (step_for (apply_download E atom) (ev_ord E y)) (\<lambda>_. True)" if "y = G" for y
    proof (rule calm_for)
      fix x
      assume x: "x \<in> set (ev_ord E y)"
      then have "x \<in> set G"
        using iteration_order_set [OF sound_env_parts(5) [OF assms(2)], of G] that by simp
      then obtain i where i: "lg_index (snd x) = Some i"
        using dlg.index_some [OF _ G] getDownloadLinkGroups_panics G by (metis panics.simps(1))
      have "plan_download E atom x \<in> set P" using x that by (intro member) (simp add: plan_others_def)
      then show "calm view P (apply_download E atom x) (\<lambda>_. True)"
        unfolding apply_download_def case_prod_unfold
        by (intro calm_bind [OF calm_lift [of _ i "\<lambda>j. j = i"]] object)
          (auto simp: i go_simps plan_download_def download_key_def)
    qed
  qed
  have rest: "calm view P (apply_service E atom) (\<lambda>_. True)" "calm view P (apply_stripPrefix E atom) (\<lambda>_. True)"
    "calm view P (apply_headers E atom) (\<lambda>_. True)" "calm view P (apply_ingressRoute E atom) (\<lambda>_. True)"
    "calm view P (apply_podDisruptionBudget E atom) (\<lambda>_. True)"
    unfolding apply_service_def apply_stripPrefix_def apply_headers_def
      apply_ingressRoute_def apply_podDisruptionBudget_def
    by (rule object, rule member, simp add: plan_others_def plan_before_def plan_after_def)+
  show "calm view P (apply_rest E atom) (\<lambda>_. True)"
    unfolding apply_rest_def
    by (intro calm_bind [OF rest(1)] calm_bind [OF rest(2)] calm_bind [OF rest(3)] calm_bind [OF downloads]
        calm_bind [OF rest(4)] rest(5))
qed

lemma createOrUpdateAll_calm:
  assumes "exact_contract (ev_client E) view" and "sound_env E view"
    and "configMap_mutator E atom oi (getBareConfigMap atom) = Ret (c, None)"
    and "getDownloadLinkGroups (GetDownloadLinks atom) = Ret G"
  shows "calm view (plan E atom oi c G) (createOrUpdateAllForAtom E atom oi) (\<lambda>_. True)"
proof -
  have "set (plan_others E atom oi c G) \<subseteq> set (plan E atom oi c G)" by (auto simp: plan_split)
  note calm = statements_calm [OF assms this]
  have deployment: "calm view (plan E atom oi c G) (apply_deployment E atom (ob_Name c)) (\<lambda>_. True)"
    unfolding apply_deployment_def
    by (rule apply_object_calm [OF assms(1)]) (simp add: plan_split plan_deployment_def)
  show ?thesis
    unfolding createOrUpdateAll_rest
    by (rule calm_bind [OF calm(1)], simp) (rule calm_bind [OF deployment calm(2)])
qed

text \<open>When all but the Deployment is settled, a run changes the Deployment at most, however it ends.\<close>

lemma calm_triple:
  assumes "calm view xs m Y" and "\<And>w. P w \<Longrightarrow> all_settled view xs w"
    and "\<And>w w'. view w' = view w \<Longrightarrow> P w \<Longrightarrow> P w'"
  shows "triple P m (\<lambda>y w. P w \<and> Y y) P"
  unfolding triple_def
proof (intro allI impI)
  fix rs w
  assume P: "P w"
  then obtain y rs' w' where "m (rs, w) = (ok y, (rs', w'))" "Y y" "view w' = view w"
    using assms(1,2) unfolding calm_def by blast
  then show "outcome (\<lambda>y w. P w \<and> Y y) P (m (rs, w))" using assms(3) P by auto
qed

lemma createOrUpdateAll_quiet:
  assumes "exact_contract (ev_client E) view" and "sound_env E view"
    and "configMap_mutator E atom oi (getBareConfigMap atom) = Ret (c, None)"
    and "getDownloadLinkGroups (GetDownloadLinks atom) = Ret G"
    and "all_settled view (plan_others E atom oi c G) w0"
  shows "triple (\<lambda>w. \<forall>k. k \<noteq> kobj_key (KDeployment (getBareDeployment atom)) \<longrightarrow> view w k = view w0 k)
    (createOrUpdateAllForAtom E atom oi)
    (\<lambda>_ w. \<forall>k. k \<noteq> kobj_key (KDeployment (getBareDeployment atom)) \<longrightarrow> view w k = view w0 k)
    (\<lambda>w. \<forall>k. k \<noteq> kobj_key (KDeployment (getBareDeployment atom)) \<longrightarrow> view w k = view w0 k)"
    (is "triple ?P _ (\<lambda>_. ?P) _")
proof -
  note calm = statements_calm [OF assms(1-4) subset_refl]
  have settled: "all_settled view (plan_others E atom oi c G) w" if "?P w" for w
  proof -
    have "view w (fst x) = view w0 (fst x)" if "x \<in> set (plan_others E atom oi c G)" for x
      using plan_others_key [OF that] \<open>?P w\<close> by blast
    then show ?thesis using assms(5) by (simp add: all_settled_def list_all_iff settled_def)
  qed
  have same: "view w' = view w \<Longrightarrow> ?P w \<Longrightarrow> ?P w'" for w w' by simp
  have deployment: "triple ?P (apply_deployment E atom n) (\<lambda>_. ?P) ?P" for n
    unfolding triple_def
  proof (intro allI impI)
    fix rs w
    assume w: "?P w"
    let ?mut = "on_Deployment (\<lambda>d. mutateDeployment (ev_reconciler E) (ev_libs E) atom d n)"
    obtain r w' where r: "CreateOrUpdate (ev_client E) (KDeployment (getBareDeployment atom)) ?mut w = (r, w')"
      by fastforce
    have "?P w'"
      using cluster_contract_run(1) [OF sound_env_parts(1) [OF assms(2)] r] w unfolding written_def by auto
    then show "outcome (\<lambda>_. ?P) ?P (apply_deployment E atom n (rs, w))"
      using r by (cases r) (auto simp: apply_deployment_def apply_object_def create_or_update_def step_bind_def
        step_ok_def split: option.split)
  qed
  have rest: "triple ?P (apply_rest E atom) (\<lambda>_. ?P) ?P"
    by (rule triple_conseq [OF calm_triple [OF calm(2) settled same]]) simp_all
  have first: "triple ?P (apply_configMap E atom oi) (\<lambda>_. ?P) ?P"
    by (rule triple_conseq [OF calm_triple [OF calm(1) settled same]]) simp_all
  show ?thesis
    unfolding createOrUpdateAll_rest
    by (rule triple_bind [OF first], rule triple_bind [OF deployment], rule rest)
qed

end
