(* ===== verification/Validation.thy ===== *)
theory Validation
  imports Generator
begin

text \<open>
  Admission of Atoms, \<open>api/v3/atom_validation.go\<close>. The functions append to lists of warnings and
  field errors; the model passes the lists and returns them.

  Field paths and field errors are recorded symbolically, by the constructor that the code calls
  (\<open>field.NewPath\<close>, \<open>Child\<close>, \<open>Index\<close>, \<open>field.Duplicate\<close>, \<open>field.Required\<close>, \<dots>). What
  smooth-operator validates is a parameter (\<open>validation_libs\<close>), as is the text of a path. The
  client is a function from the key of an OwnerInfo to the object or an error.

  The main results: the loop over the dataset feeds adds no error exactly for well-formed feeds, and
  its errors are those of a reference definition feed by feed; the OwnerInfo check accepts exactly
  the OwnerInfos that have what the templates need.
\<close>

section \<open>Paths, errors, libraries\<close>

datatype field_path = NewPath string | Child field_path string | Index field_path nat

datatype field_error =
    Duplicate field_path string
  | Invalid field_path string string
  | Required field_path string
  | NotFound field_path string
  | LibFieldError string

record validation_libs =
  PathString :: "field_path \<Rightarrow> string"
  AddWarning :: "string list \<Rightarrow> field_path \<Rightarrow> string \<Rightarrow> TypeMeta \<Rightarrow> string \<Rightarrow> string list"
  ValidateLabelsOnCreate :: "labels \<Rightarrow> field_error option"
  ValidateLabelsOnUpdate :: "labels \<Rightarrow> labels \<Rightarrow> field_error list \<Rightarrow> field_error list"
  CheckURLImmutability :: "URL \<Rightarrow> URL \<Rightarrow> field_error list \<Rightarrow> field_path \<Rightarrow> field_error list"
  ValidateIngressRouteURLsContainsBaseURL ::
    "IngressRouteURL list option \<Rightarrow> URL \<Rightarrow> field_error option"
  ValidateIngressRouteURLsNotRemoved ::
    "IngressRouteURL list option \<Rightarrow> IngressRouteURL list option \<Rightarrow> field_error list \<Rightarrow> field_error list"

type_synonym owner_client = "string \<times> string \<Rightarrow> go_error + OwnerInfo"

section \<open>Dataset feeds and their entries\<close>

fun entry_loop ::
  "validation_libs \<Rightarrow> field_path \<Rightarrow> nat \<Rightarrow> string list \<Rightarrow> Entry list \<Rightarrow> field_error list \<Rightarrow> field_error list"
where
  "entry_loop V fieldPath i entryNames [] allErrs = allErrs"
| "entry_loop V fieldPath i entryNames (entry # entries) allErrs =
     (let fieldPath = Index (Child fieldPath ''entries'') i;
          linkCount = length (en_DownloadLinks entry);
          allErrs =
            (if linkCount > 1 \<and> en_Content entry = None
             then allErrs @ [Required (Child fieldPath ''content'')
                    (''when '' @ PathString V (Child fieldPath ''downloadlinks'') @
                     '' has 2 or more elements'')]
             else allErrs);
          allErrs =
            (if en_TechnicalName entry \<in> set entryNames
             then allErrs @ [Duplicate (Child fieldPath ''technicalName'') (en_TechnicalName entry)]
             else allErrs)
      in entry_loop V fieldPath (Suc i) (entryNames @ [en_TechnicalName entry]) entries allErrs)"

definition feed_path :: "nat \<Rightarrow> field_path" where
  "feed_path i = Index (Child (Child (NewPath ''spec'') ''service'') ''datasetFeeds'') i"

text \<open>The checks of one feed before its entries, in the order of the code.\<close>

definition feed_checks ::
  "validation_libs \<Rightarrow> MetadataLink option \<Rightarrow> nat \<Rightarrow> string list \<Rightarrow> DatasetFeed \<Rightarrow> field_error list" where
  "feed_checks V serviceLinks i feedNames datasetFeed =
     (if df_TechnicalName datasetFeed \<in> set feedNames
      then [Duplicate (Child (feed_path i) ''technicalName'') (df_TechnicalName datasetFeed)] else []) @
     (case (df_DatasetMetadataLinks datasetFeed, serviceLinks) of
        (Some d, Some s) \<Rightarrow>
          if ml_MetadataIdentifier d = ml_MetadataIdentifier s
          then [Invalid (Child (Child (feed_path i) ''datasetMetadataLinks'') ''metadataIdentifier'')
                  (ml_MetadataIdentifier d)
                  (''should not be the same as '' @ PathString V (Child (Child (Child (NewPath ''spec'')
                     ''service'') ''serviceMetadataLinks'') ''metadataIdentifier''))]
          else []
      | _ \<Rightarrow> []) @
     (if df_DatasetMetadataLinks datasetFeed \<noteq> None \<and> df_SpatialDatasetIdentifierCode datasetFeed = None
      then [Required (Child (feed_path i) ''spatialDatasetIdentifierCode'')
              (''when '' @ PathString V (Child (feed_path i) ''datasetMetadataLinks'') @ '' exists'')]
      else []) @
     (if df_SpatialDatasetIdentifierCode datasetFeed \<noteq> None \<and>
         df_SpatialDatasetIdentifierNamespace datasetFeed = None
      then [Required (Child (feed_path i) ''spatialDatasetIdentifierNamespace'')
              (''when '' @ PathString V (Child (feed_path i) ''spatialDatasetIdentifierCode'') @ '' exists'')]
      else [])"

fun feed_loop ::
  "validation_libs \<Rightarrow> MetadataLink option \<Rightarrow> nat \<Rightarrow> string list \<Rightarrow> DatasetFeed list \<Rightarrow> field_error list \<Rightarrow>
   field_error list"
where
  "feed_loop V serviceLinks i feedNames [] allErrs = allErrs"
| "feed_loop V serviceLinks i feedNames (datasetFeed # datasetFeeds) allErrs =
     (let allErrs = allErrs @ feed_checks V serviceLinks i feedNames datasetFeed;
          allErrs = entry_loop V (feed_path i) 0 [] (df_Entries datasetFeed) allErrs
      in feed_loop V serviceLinks (Suc i) (feedNames @ [df_TechnicalName datasetFeed])
           datasetFeeds allErrs)"

definition validateDatasetFeeds ::
  "validation_libs \<Rightarrow> Atom \<Rightarrow> field_error list \<Rightarrow> field_error list" where
  "validateDatasetFeeds V atom allErrs =
     feed_loop V (sv_ServiceMetadataLinks (at_Service atom)) 0 [] (at_DatasetFeeds atom) allErrs"

section \<open>The OwnerInfo an Atom refers to\<close>

definition metadataTemplates :: "Atom \<Rightarrow> string list" where
  "metadataTemplates atom =
     (case sv_ServiceMetadataLinks (at_Service atom) of None \<Rightarrow> [] | Some ml \<Rightarrow> ml_Templates ml) @
     concat (map (\<lambda>feed. case df_DatasetMetadataLinks feed of None \<Rightarrow> [] | Some ml \<Rightarrow> ml_Templates ml)
       (at_DatasetFeeds atom))"

definition ownerInfoRef_path :: field_path where
  "ownerInfoRef_path = Child (Child (NewPath ''spec'') ''service'') ''ownerInfoRef''"

text \<open>\<open>ownerInfo.Spec.MetadataUrls == nil || ownerInfo.Spec.MetadataUrls.X == nil\<close>\<close>

definition lacks_url :: "OwnerInfo \<Rightarrow> (MetadataURLs \<Rightarrow> MetadataURL option) \<Rightarrow> bool" where
  "lacks_url ownerInfo sel =
     (case oi_MetadataUrls ownerInfo of None \<Rightarrow> True | Some mus \<Rightarrow> sel mus = None)"

definition validateMetadataTemplates ::
  "Atom \<Rightarrow> OwnerInfo \<Rightarrow> field_error list \<Rightarrow> field_error list" where
  "validateMetadataTemplates atom ownerInfo allErrs =
     (if length (metadataTemplates atom) > 0 then
        allErrs @
        (if ''csw'' \<in> set (metadataTemplates atom) \<and> lacks_url ownerInfo mus_CSW
         then [Required ownerInfoRef_path (''spec.metadataUrls.csw missing in '' @ oi_Name ownerInfo)] else []) @
        (if ''html'' \<in> set (metadataTemplates atom) \<and> lacks_url ownerInfo mus_HTML
         then [Required ownerInfoRef_path (''spec.metadataUrls.html missing in '' @ oi_Name ownerInfo)] else []) @
        (if ''opensearch'' \<in> set (metadataTemplates atom) \<and> lacks_url ownerInfo mus_OpenSearch
         then [Required ownerInfoRef_path (''spec.metadataUrls.opensearch missing in '' @ oi_Name ownerInfo)] else [])
      else allErrs)"

definition ValidateOwnerInfo ::
  "owner_client \<Rightarrow> Atom \<Rightarrow> field_error list \<Rightarrow> field_error list" where
  "ValidateOwnerInfo c atom allErrs =
     (case c (at_Namespace atom, sv_OwnerInfoRef (at_Service atom)) of
        Inl err \<Rightarrow> allErrs @ [NotFound ownerInfoRef_path (sv_OwnerInfoRef (at_Service atom))]
      | Inr ownerInfo \<Rightarrow>
          if oi_Atom ownerInfo = None
          then allErrs @ [Required ownerInfoRef_path (''spec.Atom missing in '' @ oi_Name ownerInfo)]
          else validateMetadataTemplates atom ownerInfo allErrs)"

section \<open>Create and update\<close>

definition ValidateAtom ::
  "validation_libs \<Rightarrow> Atom \<Rightarrow> string list \<Rightarrow> field_error list \<Rightarrow> string list \<times> field_error list" where
  "ValidateAtom V atom warnings allErrs =
     (let warnings =
            (if str_Contains (at_Name atom) ''atom''
             then AddWarning V warnings (Child (NewPath ''metadata'') ''name'') ''should not contain atom''
                    (at_TypeMeta atom) (at_Name atom)
             else warnings);
          allErrs = validateDatasetFeeds V atom allErrs;
          allErrs =
            (case ValidateIngressRouteURLsContainsBaseURL V (as_IngressRouteURLs (at_Spec atom))
                    (sv_BaseURL (at_Service atom)) of
               Some err \<Rightarrow> allErrs @ [err] | None \<Rightarrow> allErrs)
      in (warnings, allErrs))"

definition validate_owner_opt ::
  "owner_client option \<Rightarrow> Atom \<Rightarrow> field_error list \<Rightarrow> field_error list" where
  "validate_owner_opt c atom allErrs =
     (case c of Some cl \<Rightarrow> ValidateOwnerInfo cl atom allErrs | None \<Rightarrow> allErrs)"

definition validateCreate ::
  "validation_libs \<Rightarrow> owner_client option \<Rightarrow> Atom \<Rightarrow> string list \<Rightarrow> field_error list \<Rightarrow>
   string list \<times> field_error list" where
  "validateCreate V c atom warnings allErrs =
     (let allErrs = (case ValidateLabelsOnCreate V (at_Labels atom) of
                       Some err \<Rightarrow> allErrs @ [err] | None \<Rightarrow> allErrs);
          (warnings, allErrs) = ValidateAtom V atom warnings allErrs
      in (warnings, validate_owner_opt c atom allErrs))"

text \<open>
  The rule for base URLs on update: immutable without ingress URLs; with them, a changed base URL
  needs the old one among them. \<open>String()\<close> panics on a nil URL.
\<close>

definition url_text :: "URL \<Rightarrow> string go" where
  "url_text u = go_bind (deref u) (\<lambda>v. Ret (url_String v))"

definition check_base_url ::
  "validation_libs \<Rightarrow> Atom \<Rightarrow> Atom \<Rightarrow> field_error list \<Rightarrow> field_error list go" where
  "check_base_url V atom atomOld allErrs =
     (if as_IngressRouteURLs (at_Spec atom) = None then
        Ret (CheckURLImmutability V (base_of atomOld) (base_of atom) allErrs
          (Child (Child (NewPath ''spec'') ''service'') ''baseUrl''))
      else
        go_bind (url_text (base_of atom)) (\<lambda>new.
        go_bind (url_text (base_of atomOld)) (\<lambda>old.
        Ret (if new \<noteq> old then
               (case ValidateIngressRouteURLsContainsBaseURL V (as_IngressRouteURLs (at_Spec atom))
                       (base_of atomOld) of
                  Some err \<Rightarrow> allErrs @ [err] | None \<Rightarrow> allErrs)
             else allErrs))))"

definition validateUpdate ::
  "validation_libs \<Rightarrow> owner_client option \<Rightarrow> Atom \<Rightarrow> Atom \<Rightarrow> string list \<Rightarrow> field_error list \<Rightarrow>
   (string list \<times> field_error list) go" where
  "validateUpdate V c atom atomOld warnings allErrs =
     go_bind (check_base_url V atom atomOld
         (ValidateLabelsOnUpdate V (at_Labels atomOld) (at_Labels atom) allErrs)) (\<lambda>allErrs.
     let allErrs = ValidateIngressRouteURLsNotRemoved V (as_IngressRouteURLs (at_Spec atomOld))
                     (as_IngressRouteURLs (at_Spec atom)) allErrs;
         (warnings, allErrs) = ValidateAtom V atom warnings allErrs
     in Ret (warnings, validate_owner_opt c atom allErrs))"

text \<open>\<open>apierrors.NewInvalid\<close> with the name of the Atom and the errors, when there are any.\<close>

record InvalidError =
  ie_Group :: string
  ie_Kind :: string
  ie_Name :: string
  ie_Errs :: "field_error list"

definition invalid_unless_empty :: "Atom \<Rightarrow> string list \<times> field_error list \<Rightarrow> string list \<times> InvalidError option" where
  "invalid_unless_empty atom = (\<lambda>(warnings, allErrs).
     if length allErrs = 0 then (warnings, None)
     else (warnings, Some \<lparr>ie_Group = ''pdok.nl'', ie_Kind = ''Atom'', ie_Name = at_Name atom,
                           ie_Errs = allErrs\<rparr>))"

definition ValidateCreate ::
  "validation_libs \<Rightarrow> owner_client \<Rightarrow> Atom \<Rightarrow> string list \<times> InvalidError option" where
  "ValidateCreate V c atom = invalid_unless_empty atom (validateCreate V (Some c) atom [] [])"

definition ValidateUpdate ::
  "validation_libs \<Rightarrow> owner_client \<Rightarrow> Atom \<Rightarrow> Atom \<Rightarrow> (string list \<times> InvalidError option) go" where
  "ValidateUpdate V c atom atomOld =
     go_bind (validateUpdate V (Some c) atom atomOld [] []) (\<lambda>r. Ret (invalid_unless_empty atom r))"

definition ValidateCreateAtom ::
  "validation_libs \<Rightarrow> Atom \<Rightarrow> string list \<Rightarrow> field_error list \<Rightarrow> string list \<times> field_error list" where
  "ValidateCreateAtom V atom warnings allErrs = validateCreate V None atom warnings allErrs"

definition ValidateUpdateAtom ::
  "validation_libs \<Rightarrow> Atom \<Rightarrow> Atom \<Rightarrow> string list \<Rightarrow> field_error list \<Rightarrow>
   (string list \<times> field_error list) go" where
  "ValidateUpdateAtom V atom atomOld warnings allErrs = validateUpdate V None atom atomOld warnings allErrs"

section \<open>What the feed checks accept\<close>

definition entry_ok :: "Entry \<Rightarrow> bool" where
  "entry_ok entry \<longleftrightarrow> (length (en_DownloadLinks entry) > 1 \<longrightarrow> en_Content entry \<noteq> None)"

definition feed_ok :: "MetadataLink option \<Rightarrow> DatasetFeed \<Rightarrow> bool" where
  "feed_ok serviceLinks feed \<longleftrightarrow>
     (case (df_DatasetMetadataLinks feed, serviceLinks) of
        (Some d, Some s) \<Rightarrow> ml_MetadataIdentifier d \<noteq> ml_MetadataIdentifier s | _ \<Rightarrow> True) \<and>
     (df_DatasetMetadataLinks feed \<noteq> None \<longrightarrow> df_SpatialDatasetIdentifierCode feed \<noteq> None) \<and>
     (df_SpatialDatasetIdentifierCode feed \<noteq> None \<longrightarrow>
        df_SpatialDatasetIdentifierNamespace feed \<noteq> None) \<and>
     list_all entry_ok (df_Entries feed) \<and>
     distinct (map en_TechnicalName (df_Entries feed))"

definition feeds_ok :: "Atom \<Rightarrow> bool" where
  "feeds_ok atom \<longleftrightarrow>
     distinct (map df_TechnicalName (at_DatasetFeeds atom)) \<and>
     list_all (feed_ok (sv_ServiceMetadataLinks (at_Service atom))) (at_DatasetFeeds atom)"

text \<open>Both loops only append, and what they append does not depend on the errors before.\<close>

lemma entry_loop_append: "entry_loop V p i ns es (errs @ es') = errs @ entry_loop V p i ns es es'"
  by (induction es arbitrary: p i ns es') (simp_all add: Let_def)

lemma entry_loop_prefix: "entry_loop V p i ns es errs = errs @ entry_loop V p i ns es []"
  using entry_loop_append [of V p i ns es errs "[]"] by simp

lemma feed_loop_append:
  "feed_loop V s i ns fs (errs @ es') = errs @ feed_loop V s i ns fs es'"
proof (induction fs arbitrary: i ns es')
  case (Cons f fs)
  then show ?case
    by (simp add: Let_def entry_loop_append [of V _ _ _ _ errs])
qed simp

lemma feed_loop_prefix: "feed_loop V s i ns fs errs = errs @ feed_loop V s i ns fs []"
  using feed_loop_append [of V s i ns fs errs "[]"] by simp

text \<open>
  The errors of the loop over the entries, entry by entry. The code assigns to its variable for the
  field path inside the loop, so that the path of an entry contains those of all entries before it.
\<close>

definition entry_path :: "field_path \<Rightarrow> nat \<Rightarrow> nat \<Rightarrow> field_path" where
  "entry_path fieldPath i n = foldl (\<lambda>q k. Index (Child q ''entries'') k) fieldPath [i..<n]"

definition entry_checks ::
  "validation_libs \<Rightarrow> field_path \<Rightarrow> string list \<Rightarrow> Entry \<Rightarrow> field_error list" where
  "entry_checks V q names entry =
     (if length (en_DownloadLinks entry) > 1 \<and> en_Content entry = None
      then [Required (Child q ''content'')
              (''when '' @ PathString V (Child q ''downloadlinks'') @ '' has 2 or more elements'')] else []) @
     (if en_TechnicalName entry \<in> set names
      then [Duplicate (Child q ''technicalName'') (en_TechnicalName entry)] else [])"

lemma entry_loop_reference:
  "entry_loop V p i ns es errs = errs @ concat (map (\<lambda>j.
     entry_checks V (entry_path p i (i + Suc j)) (ns @ map en_TechnicalName (take j es)) (es ! j))
     [0..<length es])"
proof (induction es arbitrary: p i ns errs)
  case (Cons e es)
  have path: "entry_path p i (i + Suc (Suc j)) = entry_path (Index (Child p ''entries'') i) (Suc i) (Suc i + Suc j)" for j
    by (simp add: entry_path_def upt_conv_Cons)
  have first: "entry_path p i (Suc i) = Index (Child p ''entries'') i"
    by (simp add: entry_path_def)
  have "entry_loop V p i ns (e # es) errs =
      entry_loop V (Index (Child p ''entries'') i) (Suc i) (ns @ [en_TechnicalName e]) es
        (errs @ entry_checks V (Index (Child p ''entries'') i) ns e)"
    by (simp add: entry_checks_def Let_def)
  also have "\<dots> = errs @ entry_checks V (entry_path p i (Suc i)) ns e @ concat (map (\<lambda>j.
      entry_checks V (entry_path p i (i + Suc (Suc j))) (ns @ en_TechnicalName e # map en_TechnicalName (take j es)) (es ! j))
      [0..<length es])"
    unfolding Cons.IH path first by simp
  finally show ?case
    by (simp add: upt_conv_Cons map_Suc_upt [symmetric] comp_def del: upt_Suc)
qed simp

lemma entry_loop_nil_iff:
  "entry_loop V p i ns es [] = [] \<longleftrightarrow>
     list_all entry_ok es \<and> distinct (map en_TechnicalName es) \<and>
     set ns \<inter> en_TechnicalName ` set es = {}"
proof (induction es arbitrary: p i ns)
  case (Cons e es)
  show ?case
    unfolding entry_loop.simps Let_def
    by (subst entry_loop_prefix) (auto simp: Cons.IH entry_ok_def [of e])
qed simp

lemma feed_checks_nil_iff:
  "feed_checks V s i ns f = [] \<and> entry_loop V (feed_path i) 0 [] (df_Entries f) [] = [] \<longleftrightarrow>
     df_TechnicalName f \<notin> set ns \<and> feed_ok s f"
  by (auto simp: feed_checks_def feed_ok_def entry_loop_nil_iff split: option.splits if_splits)

lemma feed_loop_nil_iff:
  "feed_loop V s i ns fs [] = [] \<longleftrightarrow>
     list_all (feed_ok s) fs \<and> distinct (map df_TechnicalName fs) \<and>
     set ns \<inter> df_TechnicalName ` set fs = {}"
proof (induction fs arbitrary: i ns)
  case (Cons f fs)
  have "feed_loop V s i ns (f # fs) [] = [] \<longleftrightarrow>
      (feed_checks V s i ns f = [] \<and> entry_loop V (feed_path i) 0 [] (df_Entries f) [] = []) \<and>
      feed_loop V s (Suc i) (ns @ [df_TechnicalName f]) fs [] = []"
    unfolding feed_loop.simps Let_def
    by (subst feed_loop_prefix, subst entry_loop_prefix) auto
  then show ?case
    unfolding feed_checks_nil_iff Cons.IH by auto
qed simp

lemma validateDatasetFeeds_prefix:
  "validateDatasetFeeds V atom errs = errs @ validateDatasetFeeds V atom []"
  unfolding validateDatasetFeeds_def by (rule feed_loop_prefix)

lemma validateDatasetFeeds_nil_iff: "validateDatasetFeeds V atom [] = [] \<longleftrightarrow> feeds_ok atom"
  by (auto simp: validateDatasetFeeds_def feed_loop_nil_iff feeds_ok_def)

section \<open>What the OwnerInfo check accepts\<close>

definition owner_supports :: "Atom \<Rightarrow> OwnerInfo \<Rightarrow> bool" where
  "owner_supports atom ownerInfo \<longleftrightarrow>
     oi_Atom ownerInfo \<noteq> None \<and>
     (''csw'' \<in> set (metadataTemplates atom) \<longrightarrow> \<not> lacks_url ownerInfo mus_CSW) \<and>
     (''html'' \<in> set (metadataTemplates atom) \<longrightarrow> \<not> lacks_url ownerInfo mus_HTML) \<and>
     (''opensearch'' \<in> set (metadataTemplates atom) \<longrightarrow> \<not> lacks_url ownerInfo mus_OpenSearch)"

lemma validateMetadataTemplates_prefix:
  "validateMetadataTemplates atom oi errs = errs @ validateMetadataTemplates atom oi []"
  by (simp add: validateMetadataTemplates_def)

lemma ValidateOwnerInfo_prefix: "ValidateOwnerInfo c atom errs = errs @ ValidateOwnerInfo c atom []"
  by (simp add: ValidateOwnerInfo_def validateMetadataTemplates_def split: sum.split)

lemma ValidateOwnerInfo_nil_iff:
  "ValidateOwnerInfo c atom [] = [] \<longleftrightarrow>
     (\<exists>oi. c (at_Namespace atom, sv_OwnerInfoRef (at_Service atom)) = Inr oi \<and> owner_supports atom oi)"
  by (auto simp: ValidateOwnerInfo_def validateMetadataTemplates_def owner_supports_def
      split: sum.split)

lemma validateCreate_errs:
  "snd (validateCreate V (Some c) atom ws []) =
     (case ValidateLabelsOnCreate V (at_Labels atom) of Some e \<Rightarrow> [e] | None \<Rightarrow> []) @
     validateDatasetFeeds V atom [] @
     (case ValidateIngressRouteURLsContainsBaseURL V (as_IngressRouteURLs (at_Spec atom))
        (sv_BaseURL (at_Service atom)) of Some e \<Rightarrow> [e] | None \<Rightarrow> []) @
     ValidateOwnerInfo c atom []"
proof -
  have feeds: "validateDatasetFeeds V atom [e] = e # validateDatasetFeeds V atom []" for e
    using validateDatasetFeeds_prefix [of V atom "[e]"] by simp
  have own_Cons: "ValidateOwnerInfo c atom (x # xs) = x # xs @ ValidateOwnerInfo c atom []" for x xs
    using ValidateOwnerInfo_prefix [of c atom "x # xs"] by simp
  have own_feeds: "ValidateOwnerInfo c atom (validateDatasetFeeds V atom [] @ xs) =
      validateDatasetFeeds V atom [] @ xs @ ValidateOwnerInfo c atom []" for xs
    using ValidateOwnerInfo_prefix [of c atom "validateDatasetFeeds V atom [] @ xs"] by simp
  note own_feeds' = own_feeds [of "[]", simplified]
  show ?thesis
    by (cases "ValidateLabelsOnCreate V (at_Labels atom)";
        cases "ValidateIngressRouteURLsContainsBaseURL V (as_IngressRouteURLs (at_Spec atom))
          (sv_BaseURL (at_Service atom))")
      (simp_all add: validateCreate_def ValidateAtom_def validate_owner_opt_def feeds own_Cons
        own_feeds own_feeds')
qed

text \<open>An Atom is accepted exactly when every check of the code accepts it.\<close>

lemma ValidateCreate_accepts_iff:
  "snd (ValidateCreate V c atom) = None \<longleftrightarrow>
     ValidateLabelsOnCreate V (at_Labels atom) = None \<and> feeds_ok atom \<and>
     ValidateIngressRouteURLsContainsBaseURL V (as_IngressRouteURLs (at_Spec atom))
       (sv_BaseURL (at_Service atom)) = None \<and>
     (\<exists>oi. c (at_Namespace atom, sv_OwnerInfoRef (at_Service atom)) = Inr oi \<and> owner_supports atom oi)"
proof -
  have "snd (ValidateCreate V c atom) = None \<longleftrightarrow> snd (validateCreate V (Some c) atom [] []) = []"
    by (simp add: ValidateCreate_def invalid_unless_empty_def split: prod.split)
  then show ?thesis
    unfolding validateCreate_errs
    by (auto simp: validateDatasetFeeds_nil_iff ValidateOwnerInfo_nil_iff split: option.splits)
qed

end
