(* ===== verification/Generator_Props.thy ===== *)
theory Generator_Props
  imports Validation Ingress
begin

text \<open>
  Properties of the translation to the generator configuration: when it succeeds, the shape of its
  result, the links between the feeds, and the single rules (metadata links, relations of download
  links, categories, escaping).

  The locale \<open>linked_feeds\<close> is what a reader of the feeds relies on: the service feed leads to
  every dataset feed and each of them leads back. It is interpreted on the code's translation.
\<close>

section \<open>Success\<close>

definition succeeds :: "'a res \<Rightarrow> bool" where
  "succeeds m \<longleftrightarrow> (\<exists>y. m = ok y)"

lemma succeeds_ok [simp]: "succeeds (ok x)"
  by (simp add: succeeds_def)

lemma succeeds_bind: "succeeds m \<Longrightarrow> (\<And>x. m = ok x \<Longrightarrow> succeeds (f x)) \<Longrightarrow> succeeds (res_bind m f)"
  by (auto simp: succeeds_def)

lemma succeeds_map: "(\<And>x. x \<in> set xs \<Longrightarrow> succeeds (f x)) \<Longrightarrow> succeeds (res_map f xs)"
  by (induction xs) (auto intro!: succeeds_bind)

lemma joined_Some [simp]: "joined (Some u) es = ok (url_String (JoinPath u es))"
  by (simp add: joined_def go_simps)

lemma joined_eq_ok: "joined b es = ok s \<longleftrightarrow> (\<exists>u. b = Some u \<and> s = url_String (JoinPath u es))"
  by (cases b) (auto simp: joined_def go_simps)

lemma succeeds_joined: "b \<noteq> None \<Longrightarrow> succeeds (joined b es)"
  by auto

text \<open>
  The templates that the OwnerInfo has, three at most, are well formed: Mustache renders each of them,
  whatever the identifier. (It returns an error for a malformed one.)
\<close>

definition owner_templates :: "OwnerInfo \<Rightarrow> string list" where
  "owner_templates oi =
     (case oi_MetadataUrls oi of
        None \<Rightarrow> []
      | Some mus \<Rightarrow> map mu_HrefTemplate
          (concat (map (\<lambda>u. case u of None \<Rightarrow> [] | Some mu \<Rightarrow> [mu]) [mus_CSW mus, mus_OpenSearch mus, mus_HTML mus])))"

definition renders :: "gen_libs \<Rightarrow> OwnerInfo \<Rightarrow> bool" where
  "renders G oi \<longleftrightarrow>
     list_all (\<lambda>t. \<forall>ident. \<exists>s. Render G t [(''identifier'', ident)] = Inr s) (owner_templates oi)"

lemma metadata_href_succeeds:
  assumes "renders G oi" and "\<not> lacks_url oi sel" and "sel \<in> {mus_CSW, mus_OpenSearch, mus_HTML}"
  shows "succeeds (metadata_href G oi sel ident)"
proof -
  obtain mus mu where urls: "oi_MetadataUrls oi = Some mus" "sel mus = Some mu"
    using assms(2) by (auto simp: lacks_url_def split: option.splits)
  have "mu_HrefTemplate mu \<in> set (owner_templates oi)"
    using urls assms(3) by (auto simp: owner_templates_def)
  then obtain s where "Render G (mu_HrefTemplate mu) [(''identifier'', ident)] = Inr s"
    using assms(1) unfolding renders_def list_all_iff by blast
  then show ?thesis
    by (simp add: metadata_href_def replaceMustacheTemplate_def go_simps urls succeeds_def)
qed

section \<open>Metadata links\<close>

text \<open>
  The loop over the templates against a reference: the templates it knows are looked at one by
  one, and each gives one link. \<open>until_csw\<close> is the part of the list that a loop with \<open>onlyCSW\<close>
  reads: everything up to the first \<open>csw\<close>, that one included.
\<close>

definition template_url :: "string \<Rightarrow> MetadataURLs \<Rightarrow> MetadataURL option" where
  "template_url t = (if t = ''csw'' then mus_CSW else if t = ''opensearch'' then mus_OpenSearch else mus_HTML)"

definition known_template :: "string \<Rightarrow> bool" where
  "known_template t \<longleftrightarrow> t \<in> {''csw'', ''opensearch'', ''html''}"

definition template_link :: "string \<Rightarrow> string \<Rightarrow> string \<Rightarrow> FeedLink" where
  "template_link htmlTitle t href =
     (if t = ''csw'' then zero_FeedLink\<lparr>fl_Rel := ''describedby'', fl_Href := href,
        fl_Type := ''application/xml''\<rparr>
      else if t = ''opensearch'' then zero_FeedLink\<lparr>fl_Rel := ''search'', fl_Href := href,
        fl_Title := ''Open Search document voor INSPIRE Download service PDOK'',
        fl_Type := ''application/opensearchdescription+xml''\<rparr>
      else zero_FeedLink\<lparr>fl_Rel := ''describedby'', fl_Href := href,
        fl_Type := ''text/html'', fl_Title := htmlTitle\<rparr>)"

fun until_csw :: "bool \<Rightarrow> string list \<Rightarrow> string list" where
  "until_csw onlyCSW [] = []"
| "until_csw onlyCSW (t # ts) = t # (if onlyCSW \<and> t = ''csw'' then [] else until_csw onlyCSW ts)"

definition metadata_link :: "gen_libs \<Rightarrow> string \<Rightarrow> OwnerInfo \<Rightarrow> string \<Rightarrow> string \<Rightarrow> FeedLink res" where
  "metadata_link G ident oi htmlTitle t =
     res_bind (metadata_href G oi (template_url t) ident) (\<lambda>href. ok (template_link htmlTitle t href))"

lemma metadata_loop_step:
  "metadata_loop G ident oi title onlyCSW (t # ts) links =
     (if known_template t then
        res_bind (metadata_link G ident oi title t) (\<lambda>l.
          if onlyCSW \<and> t = ''csw'' then ok (links @ [l])
          else metadata_loop G ident oi title onlyCSW ts (links @ [l]))
      else metadata_loop G ident oi title onlyCSW ts links)"
proof -
  have assoc: "res_bind (res_bind m (\<lambda>x. ok (g x))) f = res_bind m (\<lambda>x. f (g x))"
    for m :: "string res" and g :: "string \<Rightarrow> FeedLink" and f :: "FeedLink \<Rightarrow> FeedLink list res"
    by (cases m) (auto simp: res_bind_def split: sum.split)
  consider "t = ''csw''" | "t = ''opensearch''" | "t = ''html''" | "\<not> known_template t"
    unfolding known_template_def by blast
  then show ?thesis
    by cases (simp_all add: known_template_def metadata_link_def assoc template_url_def template_link_def Let_def
        del: str_Join.simps)
qed

lemma res_bind_assoc: "res_bind (res_bind m f) g = res_bind m (\<lambda>x. res_bind (f x) g)"
  by (cases m) (auto simp: res_bind_def split: sum.split)

lemma metadata_loop_reference:
  "metadata_loop G ident oi title onlyCSW ts links =
     res_bind (res_map (metadata_link G ident oi title) (filter known_template (until_csw onlyCSW ts)))
       (\<lambda>ls. ok (links @ ls))"
proof (induction ts arbitrary: links)
  case (Cons t ts)
  show ?case
  proof (cases "known_template t")
    case True
    show ?thesis
      unfolding metadata_loop_step until_csw.simps Cons.IH
      using True by (cases onlyCSW; cases "t = ''csw''") (simp_all add: res_bind_assoc)
  next
    case False
    then have "t \<noteq> ''csw''" by (auto simp: known_template_def)
    then show ?thesis
      unfolding metadata_loop_step until_csw.simps using False by (simp add: Cons.IH)
  qed
qed simp

section \<open>When the translation succeeds\<close>

definition templates_supported :: "string list \<Rightarrow> OwnerInfo \<Rightarrow> bool" where
  "templates_supported ts oi \<longleftrightarrow>
     (''csw'' \<in> set ts \<longrightarrow> \<not> lacks_url oi mus_CSW) \<and>
     (''html'' \<in> set ts \<longrightarrow> \<not> lacks_url oi mus_HTML) \<and>
     (''opensearch'' \<in> set ts \<longrightarrow> \<not> lacks_url oi mus_OpenSearch)"

lemma metadata_loop_succeeds:
  assumes "renders G oi" and "templates_supported ts oi"
  shows "succeeds (metadata_loop G ident oi title onlyCSW ts links)"
proof -
  have "succeeds (metadata_link G ident oi title t)" if "t \<in> set ts" "known_template t" for t
  proof -
    have "\<not> lacks_url oi (template_url t)"
      using that assms(2) by (auto simp: templates_supported_def template_url_def known_template_def)
    then show ?thesis
      unfolding metadata_link_def
      by (intro succeeds_bind succeeds_ok)
        (rule metadata_href_succeeds [OF assms(1)], auto simp: template_url_def)
  qed
  moreover have "t \<in> set ts" if "t \<in> set (until_csw onlyCSW ts)" for t
    using that by (induction ts) (auto split: if_splits)
  ultimately show ?thesis
    unfolding metadata_loop_reference by (intro succeeds_bind succeeds_ok succeeds_map) auto
qed

text \<open>
  What the CRD's schema and the decoding of URLs give: no nil URL inside the Atom, and a slash in
  the key of every download link.
\<close>

definition atom_complete :: "Atom \<Rightarrow> bool" where
  "atom_complete atom \<longleftrightarrow>
     urls_set atom \<and> atom_keys_valid atom \<and> sv_Stylesheet (at_Service atom) \<noteq> Some None \<and>
     (\<forall>f\<in>set (at_DatasetFeeds atom).
        (\<forall>l\<in>set (df_Links f). ln_Href l \<noteq> None) \<and>
        (\<forall>e\<in>set (df_Entries f). srs_URI (en_SRS e) \<noteq> None))"

definition owner_complete :: "OwnerInfo \<Rightarrow> bool" where
  "owner_complete oi \<longleftrightarrow>
     (\<forall>oa. oi_Atom oi = Some oa \<longrightarrow> oa_DefaultStylesheet oa \<noteq> Some None)"

lemma atom_complete_parts:
  assumes "atom_complete atom"
  shows "sv_BaseURL (at_Service atom) \<noteq> None" and "urls_set atom" and "atom_keys_valid atom"
    and "sv_Stylesheet (at_Service atom) \<noteq> Some None"
    and "f \<in> set (at_DatasetFeeds atom) \<Longrightarrow> l \<in> set (df_Links f) \<Longrightarrow> ln_Href l \<noteq> None"
    and "f \<in> set (at_DatasetFeeds atom) \<Longrightarrow> e \<in> set (df_Entries f) \<Longrightarrow> srs_URI (en_SRS e) \<noteq> None"
  using assms unfolding atom_complete_def urls_set_def by blast+

lemma getCategory_succeeds: "srs_URI s \<noteq> None \<Longrightarrow> succeeds (getCategory s)"
  by (auto simp: getCategory_def go_simps)

lemma collect_categories_succeeds:
  "(\<And>e. e \<in> set es \<Longrightarrow> srs_URI (en_SRS e) \<noteq> None) \<Longrightarrow> succeeds (collect_categories es cs)"
  by (induction es arbitrary: cs) (auto intro!: succeeds_bind getCategory_succeeds)

lemma addMetadataLinks_opt_succeeds:
  assumes "renders G oi" and "templates_supported (case ml of None \<Rightarrow> [] | Some m \<Rightarrow> ml_Templates m) oi"
  shows "succeeds (addMetadataLinks_opt G ml oi links title onlyCSW)"
  using assms metadata_loop_succeeds
  by (auto simp: addMetadataLinks_opt_def addMetadataLinks_def split: option.splits)

lemma templates_supported_feed:
  assumes "owner_supports atom oi"
  shows "templates_supported
      (case sv_ServiceMetadataLinks (at_Service atom) of None \<Rightarrow> [] | Some m \<Rightarrow> ml_Templates m) oi"
    and "f \<in> set (at_DatasetFeeds atom) \<Longrightarrow>
      templates_supported (case df_DatasetMetadataLinks f of None \<Rightarrow> [] | Some m \<Rightarrow> ml_Templates m) oi"
  using assms by (auto simp: owner_supports_def templates_supported_def metadataTemplates_def)

lemma serviceEntry_succeeds:
  assumes "atom_complete atom" and "owner_supports atom oi" and "renders G oi"
    and "f \<in> set (at_DatasetFeeds atom)"
  shows "succeeds (serviceEntry G atom oi f)"
  unfolding serviceEntry_def
  by (intro succeeds_bind succeeds_joined addMetadataLinks_opt_succeeds templates_supported_feed(2) [OF assms(2,4)]
      collect_categories_succeeds succeeds_ok assms(3) atom_complete_parts(1) [OF assms(1)]
      atom_complete_parts(6) [OF assms(1,4)])

lemma customLink_succeeds: "ln_Href l \<noteq> None \<Longrightarrow> succeeds (customLink l)"
  by (auto simp: customLink_def go_simps)

lemma getDatasetLinks_succeeds:
  assumes "atom_complete atom" and "owner_supports atom oi" and "renders G oi"
    and "f \<in> set (at_DatasetFeeds atom)"
  shows "succeeds (getDatasetLinks G atom oi f)"
  unfolding getDatasetLinks_def
  by (intro succeeds_bind succeeds_joined addMetadataLinks_opt_succeeds templates_supported_feed(2) [OF assms(2,4)]
      succeeds_map customLink_succeeds succeeds_ok assms(3) atom_complete_parts(1) [OF assms(1)]
      atom_complete_parts(5) [OF assms(1,4)])

lemma downloadFeedLink_succeeds:
  assumes "sv_BaseURL (at_Service atom) \<noteq> None"
  shows "succeeds (downloadFeedLink G v atom f e n dl)"
proof -
  obtain name where name: "GetBlobName dl = Ret name"
    using GetBlobName_total [of dl] unfolding not_panics_iff by blast
  have "succeeds (getDownloadLinkHref dl atom)"
    unfolding getDownloadLinkHref_def name go_bind.simps by (rule succeeds_joined [OF assms])
  moreover have "succeeds (getDownloadLinkTitle f e dl)"
    unfolding getDownloadLinkTitle_def name Let_def go_bind.simps by (rule succeeds_ok)
  ultimately show ?thesis
    unfolding downloadFeedLink_def by (intro succeeds_bind succeeds_ok)
qed

lemma getDatasetEntries_succeeds:
  assumes "atom_complete atom" and "f \<in> set (at_DatasetFeeds atom)"
  shows "succeeds (getDatasetEntries G v atom f)"
  unfolding getDatasetEntries_def datasetEntry_def
  by (intro succeeds_bind succeeds_joined getCategory_succeeds succeeds_map downloadFeedLink_succeeds
      succeeds_ok atom_complete_parts(1) [OF assms(1)] atom_complete_parts(6) [OF assms(1,2)])

lemma datasetFeedConfig_succeeds:
  assumes "atom_complete atom" and "owner_supports atom oi" and "renders G oi"
    and "f \<in> set (at_DatasetFeeds atom)"
  shows "succeeds (datasetFeedConfig G v atom oi s f)"
  unfolding datasetFeedConfig_def
  by (intro succeeds_bind succeeds_joined succeeds_ok getDatasetLinks_succeeds [OF assms]
      getDatasetEntries_succeeds [OF assms(1,4)] atom_complete_parts(1) [OF assms(1)])

lemma xmlStylesheet_succeeds:
  assumes "atom_complete atom" and "owner_complete oi" and "oi_Atom oi = Some oa"
  shows "succeeds (xmlStylesheet G atom oa)"
proof -
  have "oa_DefaultStylesheet oa \<noteq> Some None"
    using assms(2,3) unfolding owner_complete_def by blast
  then have "(case sv_Stylesheet (at_Service atom) of None \<Rightarrow> oa_DefaultStylesheet oa | Some s \<Rightarrow> Some s)
      \<noteq> Some None" (is "?s \<noteq> _")
    using atom_complete_parts(4) [OF assms(1)] by (cases "sv_Stylesheet (at_Service atom)") simp_all
  then have "?s = None \<or> (\<exists>u. ?s = Some (Some u))" by (metis not_None_eq)
  then show ?thesis
    unfolding xmlStylesheet_def Let_def by (elim disjE exE) (simp_all add: go_simps)
qed

lemma MapAtom_succeeds:
  assumes "atom_complete atom" and "owner_complete oi" and "owner_supports atom oi" and "renders G oi"
  shows "succeeds (MapAtomV3ToAtomGeneratorConfig G v atom oi)"
proof -
  obtain oa where oa: "oi_Atom oi = Some oa"
    using assms(3) by (auto simp: owner_supports_def)
  show ?thesis
    unfolding MapAtomV3ToAtomGeneratorConfig_def getSelfLink_def getServiceEntries_def oa option.case
    by (intro succeeds_bind succeeds_joined addMetadataLinks_opt_succeeds 
        templates_supported_feed(1) [OF assms(3)] succeeds_map succeeds_ok
        serviceEntry_succeeds [OF assms(1,3,4)] datasetFeedConfig_succeeds [OF assms(1,3,4)]
        xmlStylesheet_succeeds [OF assms(1,2) oa] assms(4) atom_complete_parts(1) [OF assms(1)])
qed

section \<open>The shape of the configuration\<close>

abbreviation service_links :: "gen_libs \<Rightarrow> Atom \<Rightarrow> OwnerInfo \<Rightarrow> FeedLink list res" where
  "service_links G atom oi \<equiv>
     res_bind (getSelfLink atom) (\<lambda>selfLink.
     addMetadataLinks_opt G (sv_ServiceMetadataLinks (at_Service atom)) oi [selfLink]
       ''NGR pagina voor deze download service'' False)"

lemma MapAtom_ok:
  assumes "MapAtomV3ToAtomGeneratorConfig G v atom oi = ok fs"
  obtains oa u links s es dfs where "oi_Atom oi = Some oa" and "base_of atom = Some u"
    and "service_links G atom oi = ok links" and "xmlStylesheet G atom oa = ok s"
    and "getServiceEntries G atom oi = ok es"
    and "res_map (datasetFeedConfig G v atom oi s) (at_DatasetFeeds atom) = ok dfs"
    and "fs_Feeds fs = serviceFeed atom oa s links es (url_String (JoinPath u [''index.xml''])) # dfs"
proof -
  obtain oa where oa: "oi_Atom oi = Some oa"
    using assms by (cases "oi_Atom oi") (simp_all add: MapAtomV3ToAtomGeneratorConfig_def)
  from assms show thesis
    unfolding MapAtomV3ToAtomGeneratorConfig_def oa option.case res_bind_eq_ok joined_eq_ok
    by (elim exE conjE) (rule that [OF oa], auto simp: res_bind_eq_ok)
qed

lemma metadata_keeps_links:
  assumes "addMetadataLinks_opt G ml oi links title onlyCSW = ok links'"
  obtains rest where "links' = links @ rest"
  using assms
  by (auto simp: addMetadataLinks_opt_def addMetadataLinks_def metadata_loop_reference res_bind_eq_ok
      split: option.splits)

lemma serviceEntry_ok:
  assumes "serviceEntry G atom oi f = ok e" and "base_of atom = Some u"
  shows "fe_ID e = url_String (JoinPath u [df_TechnicalName f @ ''.xml''])"
    and "\<exists>l\<in>set (fe_Link e). fl_Rel l = ''alternate'' \<and> fl_Href l = fe_ID e"
  using assms by (auto simp: serviceEntry_def res_bind_eq_ok)

lemma datasetFeedConfig_ok:
  assumes "datasetFeedConfig G v atom oi s f = ok d" and "base_of atom = Some u"
  shows "fd_ID d = url_String (JoinPath u [df_TechnicalName f @ ''.xml''])"
    and "\<exists>l\<in>set (fd_Link d). fl_Rel l = ''self'' \<and> fl_Href l = fd_ID d"
    and "\<exists>l\<in>set (fd_Link d). fl_Rel l = ''up'' \<and> fl_Href l = url_String (JoinPath u [''index.xml''])"
    and "getDatasetEntries G v atom f = ok (fd_Entry d)"
proof -
  obtain dl links where dl: "getDatasetLinks G atom oi f = ok dl"
    and d: "fd_ID d = url_String (JoinPath u [df_TechnicalName f @ ''.xml''])" "fd_Link d = dl"
      "getDatasetEntries G v atom f = ok (fd_Entry d)"
    using assms by (auto simp: datasetFeedConfig_def res_bind_eq_ok)
  obtain rest where "dl = zero_FeedLink\<lparr>fl_Rel := ''self'', fl_Href := fd_ID d\<rparr> #
      zero_FeedLink\<lparr>fl_Rel := ''up'', fl_Href := url_String (JoinPath u [''index.xml'']),
        fl_Type := ''application/atom+xml'', fl_Title := ''Top Atom Download Service Feed''\<rparr> # rest"
    using dl assms(2) unfolding getDatasetLinks_def d(1)
    by (auto simp: res_bind_eq_ok elim!: metadata_keeps_links)
  then show "fd_ID d = url_String (JoinPath u [df_TechnicalName f @ ''.xml''])"
    "\<exists>l\<in>set (fd_Link d). fl_Rel l = ''self'' \<and> fl_Href l = fd_ID d"
    "\<exists>l\<in>set (fd_Link d). fl_Rel l = ''up'' \<and> fl_Href l = url_String (JoinPath u [''index.xml''])"
    "getDatasetEntries G v atom f = ok (fd_Entry d)"
    using d by simp_all
qed

section \<open>What a reader of the feeds relies on\<close>

locale linked_feeds =
  fixes translate :: "'a \<Rightarrow> Feeds res"
    and count :: "'a \<Rightarrow> nat"
  assumes number: "translate a = ok fs \<Longrightarrow> length (fs_Feeds fs) = Suc (count a)"
    and entry_ids: "translate a = ok fs \<Longrightarrow>
      map fe_ID (fd_Entry (hd (fs_Feeds fs))) = map fd_ID (tl (fs_Feeds fs))"
    and self_link: "translate a = ok fs \<Longrightarrow> f \<in> set (fs_Feeds fs) \<Longrightarrow>
      \<exists>l\<in>set (fd_Link f). fl_Rel l = ''self'' \<and> fl_Href l = fd_ID f"
    and up_link: "translate a = ok fs \<Longrightarrow> f \<in> set (tl (fs_Feeds fs)) \<Longrightarrow>
      \<exists>l\<in>set (fd_Link f). fl_Rel l = ''up'' \<and> fl_Href l = fd_ID (hd (fs_Feeds fs))"
    and alternate: "translate a = ok fs \<Longrightarrow> e \<in> set (fd_Entry (hd (fs_Feeds fs))) \<Longrightarrow>
      \<exists>l\<in>set (fe_Link e). fl_Rel l = ''alternate'' \<and> fl_Href l = fe_ID e"
begin

text \<open>From the i-th entry to the i-th dataset feed and back up.\<close>

lemma there_and_back:
  assumes "translate a = ok fs" and "i < count a"
  shows "\<exists>down\<in>set (fe_Link (fd_Entry (hd (fs_Feeds fs)) ! i)).
      fl_Rel down = ''alternate'' \<and> fl_Href down = fd_ID (fs_Feeds fs ! Suc i) \<and>
      (\<exists>up\<in>set (fd_Link (fs_Feeds fs ! Suc i)).
         fl_Rel up = ''up'' \<and> fl_Href up = fd_ID (hd (fs_Feeds fs)))"
proof -
  let ?es = "fd_Entry (hd (fs_Feeds fs))"
  obtain f ds where fs: "fs_Feeds fs = f # ds"
    using number [OF assms(1)] by (cases "fs_Feeds fs") simp_all
  have len: "length ds = count a" using number [OF assms(1)] by (simp add: fs)
  have ids: "map fe_ID ?es = map fd_ID ds" using entry_ids [OF assms(1)] by (simp add: fs)
  then have es: "length ?es = length ds" by (metis length_map)
  have "fe_ID (?es ! i) = fd_ID (ds ! i)"
    using ids assms(2) es len by (metis nth_map)
  moreover have "?es ! i \<in> set ?es" "ds ! i \<in> set ds"
    using assms(2) es len by simp_all
  ultimately show ?thesis
    using alternate [OF assms(1), of "?es ! i"] up_link [OF assms(1), of "ds ! i"] by (simp add: fs)
qed

text \<open>Every feed can be found: it is the first one, or an entry of the first one leads to it.\<close>

lemma every_feed_reached:
  assumes "translate a = ok fs" and "f \<in> set (fs_Feeds fs)" and "f \<noteq> hd (fs_Feeds fs)"
  shows "\<exists>e\<in>set (fd_Entry (hd (fs_Feeds fs))). \<exists>l\<in>set (fe_Link e).
    fl_Rel l = ''alternate'' \<and> fl_Href l = fd_ID f"
proof -
  have "f \<in> set (tl (fs_Feeds fs))"
    using assms(2,3) by (cases "fs_Feeds fs") auto
  then have "fd_ID f \<in> set (map fe_ID (fd_Entry (hd (fs_Feeds fs))))"
    unfolding entry_ids [OF assms(1)] by simp
  then obtain e where "e \<in> set (fd_Entry (hd (fs_Feeds fs)))" "fe_ID e = fd_ID f" by auto
  then show ?thesis using alternate [OF assms(1)] by metis
qed

end

interpretation feeds: linked_feeds "\<lambda>atom. MapAtomV3ToAtomGeneratorConfig G v atom oi"
  "\<lambda>atom. length (at_DatasetFeeds atom)"
  for G v oi
proof
  fix atom fs
  assume map: "MapAtomV3ToAtomGeneratorConfig G v atom oi = ok fs"
  from map obtain oa u links s es dfs where oa: "oi_Atom oi = Some oa" and u: "base_of atom = Some u"
    and links: "service_links G atom oi = ok links"
    and es: "getServiceEntries G atom oi = ok es"
    and dfs: "res_map (datasetFeedConfig G v atom oi s) (at_DatasetFeeds atom) = ok dfs"
    and fs: "fs_Feeds fs = serviceFeed atom oa s links es (url_String (JoinPath u [''index.xml''])) # dfs"
    by (rule MapAtom_ok)
  note es' = es [unfolded getServiceEntries_def]
  have step: "serviceEntry G atom oi (at_DatasetFeeds atom ! i) = ok (es ! i)"
      "datasetFeedConfig G v atom oi s (at_DatasetFeeds atom ! i) = ok (dfs ! i)"
    if "i < length (at_DatasetFeeds atom)" for i
    using res_map_nth [OF es' that] res_map_nth [OF dfs that] by simp_all
  note len = res_map_length [OF es'] res_map_length [OF dfs]
  show "length (fs_Feeds fs) = Suc (length (at_DatasetFeeds atom))"
    by (simp add: fs len)
  show "map fe_ID (fd_Entry (hd (fs_Feeds fs))) = map fd_ID (tl (fs_Feeds fs))"
    by (rule nth_equalityI)
      (simp_all add: fs serviceFeed_def len serviceEntry_ok(1) [OF step(1) u] datasetFeedConfig_ok(1) [OF step(2) u])
  show "\<exists>l\<in>set (fd_Link f). fl_Rel l = ''up'' \<and> fl_Href l = fd_ID (hd (fs_Feeds fs))"
    if "f \<in> set (tl (fs_Feeds fs))" for f
    using that datasetFeedConfig_ok(3) [OF step(2) u]
    by (auto simp: fs serviceFeed_def in_set_conv_nth len)
  show "\<exists>l\<in>set (fe_Link e). fl_Rel l = ''alternate'' \<and> fl_Href l = fe_ID e"
    if "e \<in> set (fd_Entry (hd (fs_Feeds fs)))" for e
    using that serviceEntry_ok(2) [OF step(1) u]
    by (auto simp: fs serviceFeed_def in_set_conv_nth len)
  obtain rest where "links = zero_FeedLink\<lparr>fl_Rel := ''self'', fl_Href := url_String (JoinPath u [''index.xml'']),
      fl_Title := escapeQuotes (sv_Title (at_Service atom)), fl_Type := ''application/atom+xml''\<rparr> # rest"
    using links by (auto simp: res_bind_eq_ok getSelfLink_def u elim!: metadata_keeps_links)
  then have "\<exists>l\<in>set links. fl_Rel l = ''self'' \<and> fl_Href l = url_String (JoinPath u [''index.xml''])"
    by simp
  then show "\<exists>l\<in>set (fd_Link f). fl_Rel l = ''self'' \<and> fl_Href l = fd_ID f" if "f \<in> set (fs_Feeds fs)" for f
    using that datasetFeedConfig_ok(2) [OF step(2) u]
    by (auto simp: fs serviceFeed_def in_set_conv_nth len)
qed

section \<open>Entries of a dataset feed\<close>

lemma getEmptyRelCount_eq: "getEmptyRelCount e = length (filter empty_rel (en_DownloadLinks e))"
proof -
  have "foldl (\<lambda>n dl. if empty_rel dl then Suc n else n) k dls = k + length (filter empty_rel dls)" for k dls
    by (induction dls arbitrary: k) simp_all
  then show ?thesis by (simp add: getEmptyRelCount_def)
qed

text \<open>The relation a link gets: its own when it has one, otherwise one that tells how many have none.\<close>

definition chosen_rel :: "Entry \<Rightarrow> DownloadLink \<Rightarrow> string" where
  "chosen_rel e dl =
     (if \<not> empty_rel dl then the (dl_Rel dl)
      else if length (filter empty_rel (en_DownloadLinks e)) > 1 then ''section'' else ''alternate'')"

lemma getDownloadLinkRel_eq: "getDownloadLinkRel dl (getEmptyRelCount e) = chosen_rel e dl"
  by (cases "dl_Rel dl"; cases "the (dl_Rel dl)")
    (simp_all add: getDownloadLinkRel_def chosen_rel_def getEmptyRelCount_eq empty_rel_def)

lemma downloadFeedLink_ok:
  assumes "downloadFeedLink G v atom f e (getEmptyRelCount e) dl = ok l" and "base_of atom = Some u"
    and "has_blob_key dl"
  shows "fl_Rel l = chosen_rel e dl"
    and "fl_Href l = url_String (JoinPath u [''downloads'', blob_name dl])"
    and "fl_Data l = Some (GetBlobEndpoint v @ ''/'' @ dl_Data dl)"
    and "fl_Time l = dl_Time dl" and "fl_Bbox l = map_option (ToExtent G) (dl_BBox dl)"
  using assms
  by (auto simp: downloadFeedLink_def res_bind_eq_ok getDownloadLinkHref_def blob_parts(2)
      getDownloadLinkRel_eq getDownloadLinkData_def)

lemma datasetEntry_ok:
  assumes "datasetEntry G v atom f e = ok fe" and "base_of atom = Some u"
    and "list_all has_blob_key (en_DownloadLinks e)"
  shows "fe_ID fe = url_String (JoinPath u [en_TechnicalName e @ ''.xml''])"
    and "map fl_Rel (fe_Link fe) = map (chosen_rel e) (en_DownloadLinks e)"
    and "map fl_Href (fe_Link fe) =
      map (\<lambda>dl. url_String (JoinPath u [''downloads'', blob_name dl])) (en_DownloadLinks e)"
    and "map fl_Data (fe_Link fe) =
      map (\<lambda>dl. Some (GetBlobEndpoint v @ ''/'' @ dl_Data dl)) (en_DownloadLinks e)"
    and "fe_Updated fe = Some (FormatRFC3339 (time_In (en_Updated e) 0))"
proof -
  obtain ls where ls: "res_map (downloadFeedLink G v atom f e (getEmptyRelCount e)) (en_DownloadLinks e) = ok ls"
    and fe: "fe_Link fe = ls" "fe_ID fe = url_String (JoinPath u [en_TechnicalName e @ ''.xml''])"
      "fe_Updated fe = Some (FormatRFC3339 (time_In (en_Updated e) 0))"
    using assms(1,2) by (auto simp: datasetEntry_def res_bind_eq_ok)
  note len = res_map_length [OF ls]
  have key: "has_blob_key (en_DownloadLinks e ! i)" if "i < length (en_DownloadLinks e)" for i
    using assms(3) that by (simp add: list_all_length)
  note link = downloadFeedLink_ok [OF res_map_nth [OF ls] assms(2) key]
  show "fe_ID fe = url_String (JoinPath u [en_TechnicalName e @ ''.xml''])"
    "fe_Updated fe = Some (FormatRFC3339 (time_In (en_Updated e) 0))"
    by (rule fe)+
  show "map fl_Rel (fe_Link fe) = map (chosen_rel e) (en_DownloadLinks e)"
    "map fl_Href (fe_Link fe) = map (\<lambda>dl. url_String (JoinPath u [''downloads'', blob_name dl])) (en_DownloadLinks e)"
    "map fl_Data (fe_Link fe) = map (\<lambda>dl. Some (GetBlobEndpoint v @ ''/'' @ dl_Data dl)) (en_DownloadLinks e)"
    by (rule nth_equalityI; simp add: fe(1) len link)+
qed

section \<open>Categories and escaping\<close>

definition category_of :: "Entry \<Rightarrow> FeedCategory" where
  "category_of e = \<lparr>fc_Term = url_String (the (srs_URI (en_SRS e))), fc_Label = srs_Name (en_SRS e)\<rparr>"

lemma firsts_snoc_list: "firsts (cs @ x # xs) = firsts ((if x \<in> set cs then cs else cs @ [x]) @ xs)"
proof (cases "x \<in> set cs")
  case True
  have "remdups (us @ x # rev cs) = remdups (us @ rev cs)" for us
    using True by (induction us) auto
  then show ?thesis using True by (simp add: firsts_def)
qed simp

lemma collect_categories_eq:
  assumes "collect_categories es cs = ok cs'" and "distinct cs"
  shows "cs' = firsts (cs @ map category_of es)"
  using assms
proof (induction es arbitrary: cs)
  case Nil
  then show ?case by (simp add: firsts_def distinct_remdups_id)
next
  case (Cons e es)
  obtain c where c: "getCategory (en_SRS e) = ok c"
    and rest: "collect_categories es (if c \<in> set cs then cs else cs @ [c]) = ok cs'"
    using Cons.prems(1) by (auto simp: res_bind_eq_ok)
  have "c = category_of e"
    using c by (cases "srs_URI (en_SRS e)") (simp_all add: getCategory_def category_of_def go_simps)
  moreover have "cs' = firsts ((if c \<in> set cs then cs else cs @ [c]) @ map category_of es)"
    by (rule Cons.IH [OF rest]) (simp add: Cons.prems(2))
  ultimately show ?case by (simp only: list.map(2) firsts_snoc_list)
qed

fun unescapeQuotes :: "string \<Rightarrow> string" where
  "unescapeQuotes (CHR 0x5C # CHR 0x22 # s) = CHR 0x22 # unescapeQuotes s"
| "unescapeQuotes (c # s) = c # unescapeQuotes s"
| "unescapeQuotes [] = []"

lemma unescapeQuotes_other:
  "c \<noteq> CHR 0x5C \<or> s = [] \<or> hd s \<noteq> CHR 0x22 \<Longrightarrow> unescapeQuotes (c # s) = c # unescapeQuotes s"
  by (cases "(c # s)" rule: unescapeQuotes.cases) auto

lemma unescapeQuotes_escapeQuotes: "unescapeQuotes (escapeQuotes s) = s"
proof (induction s)
  case (Cons c s)
  have "escapeQuotes s = [] \<or> hd (escapeQuotes s) \<noteq> CHR 0x22"
    by (cases s) (simp_all add: escapeQuotes_def str_simps)
  with Cons show ?case
    by (simp add: escapeQuotes_def str_simps unescapeQuotes_other)
qed (simp add: escapeQuotes_def str_simps)

text \<open>Every quote of the result stands behind a backslash.\<close>

lemma escapeQuotes_quotes:
  assumes "escapeQuotes s ! i = CHR 0x22" and "i < length (escapeQuotes s)"
  shows "i > 0 \<and> escapeQuotes s ! (i - 1) = CHR 0x5C"
  using assms
proof (induction s arbitrary: i)
  case Nil
  then show ?case by (simp add: escapeQuotes_def str_simps)
next
  case (Cons c s)
  have eq: "escapeQuotes (c # s) = (if c = CHR 0x22 then [CHR 0x5C, CHR 0x22] else [c]) @ escapeQuotes s"
    by (simp add: escapeQuotes_def str_simps)
  define h where "h = (if c = CHR 0x22 then [CHR 0x5C, CHR 0x22] else [c])"
  show ?case
  proof (cases "i < length h")
    case True
    then show ?thesis using Cons.prems
      by (auto simp: eq nth_append h_def nth_Cons split: if_splits nat.splits)
  next
    case False
    have "i - length h > 0 \<and> escapeQuotes s ! (i - length h - 1) = CHR 0x5C"
      using Cons.prems False by (intro Cons.IH) (simp_all add: eq nth_append h_def [symmetric])
    then show ?thesis
      using False by (auto simp: eq nth_append h_def [symmetric] diff_diff_left add.commute)
  qed
qed

end
