(* ===== verification/Success.thy ===== *)
theory Success
  imports Convergence Generator_Props
begin

text \<open>
  When a reconcile succeeds: on an Atom that is complete in the sense of its schema, with an OwnerInfo
  that supports it, every mutate function returns without an error on an object that has no other
  controller, so that the run completes on a cluster that accepts its requests. A conflict in the request for
  the Deployment is tolerated, and counts as accepted.
\<close>

section \<open>Mutate functions that do not fail\<close>

text \<open>A ConfigMap with data can be hashed.\<close>

definition hashes :: "libs \<Rightarrow> bool" where
  "hashes L \<longleftrightarrow> (\<forall>c. cm_Data (ob_Spec c) \<noteq> Map.empty \<longrightarrow> snd (AddHashSuffix L c) = None)"

definition libs_ready :: "libs \<Rightarrow> bool" where
  "libs_ready L \<longleftrightarrow> hash_contract L \<and> scheme_contract L \<and> controller_contract L \<and> hashes L"

lemma libs_ready_parts:
  assumes "libs_ready L"
  shows "hash_contract L" and "scheme_contract L" and "controller_contract L" and "hashes L"
  using assms by (simp_all add: libs_ready_def)

lemma may_control_updates [simp]:
  "may_control atom (m\<lparr>om_Labels := ls\<rparr>) = may_control atom m"
  "may_control atom (m\<lparr>om_Annotations := as\<rparr>) = may_control atom m"
  "may_control atom (m\<lparr>om_Name := n\<rparr>) = may_control atom m"
  "may_control atom (m\<lparr>om_UID := u\<rparr>) = may_control atom m"
  by (simp_all add: may_control_def)

lemma may_control_with_labels [simp]:
  "may_control atom (ob_ObjectMeta (with_labels L atom o1)) = may_control atom (ob_ObjectMeta o1)"
  by (simp add: with_labels_def)

lemma tail_runs:
  assumes "libs_ready L" and "k \<in> managed_kinds" and "may_control atom (ob_ObjectMeta o1)"
  shows "\<exists>o2. set_gvk_and_owner L k atom o1 = (o2, None) \<and> may_control atom (ob_ObjectMeta o2)"
  by (rule set_gvk_and_owner_succeeds [OF libs_ready_parts(2,3) [OF assms(1)] assms(2,3)])

lemma getRoutesForURL_runs: "u \<noteq> None \<Longrightarrow> \<exists>rs. getRoutesForURL L atom u ms = Ret rs"
  by (auto simp: getRoutesForURL_def go_simps)

lemma ingress_routes_run:
  assumes "urls_set atom" and "atom_keys_valid atom" and "iteration_order ord"
  shows "\<exists>rs. ingress_routes ord L atom = Ret rs"
proof -
  obtain G where "getDownloadLinkGroups (GetDownloadLinks atom) = Ret G"
    using dlg.returns assms(2) unfolding atom_keys_valid_def by blast
  then obtain ms where ms: "downloadMiddlewareRefs ord atom = Ret ms"
    using downloadMiddlewareRefs_eq [OF assms(3,2)] by blast
  have "\<not> panics (go_map (\<lambda>i. getRoutesForURL L atom (iru_URL i) ms) (slice (as_IngressRouteURLs (at_Spec atom))))"
    using assms(1) getRoutesForURL_runs unfolding panics_go_map urls_set_def list_all_iff
    by (metis panics.simps(1))
  then obtain rss where "go_map (\<lambda>i. getRoutesForURL L atom (iru_URL i) ms)
      (slice (as_IngressRouteURLs (at_Spec atom))) = Ret rss"
    unfolding not_panics_iff by blast
  then show ?thesis
    using ms getRoutesForURL_runs assms(1) by (simp add: ingress_routes_def urls_set_def)
qed

text \<open>The mutate functions, one by one.\<close>

lemma mutators_run:
  assumes "libs_ready L" and "urls_set atom" and "atom_keys_valid atom" and "iteration_order ord"
  shows "may_control atom (ob_ObjectMeta d) \<Longrightarrow>
      \<exists>d'. mutateDeployment r L atom d n = Ret (d', None) \<and> may_control atom (ob_ObjectMeta d')"
    and "may_control atom (ob_ObjectMeta s) \<Longrightarrow>
      \<exists>s'. mutateService L atom s = Ret (s', None) \<and> may_control atom (ob_ObjectMeta s')"
    and "may_control atom (ob_ObjectMeta m) \<Longrightarrow>
      \<exists>m'. mutateStripPrefixMiddleware L atom m = Ret (m', None) \<and> may_control atom (ob_ObjectMeta m')"
    and "may_control atom (ob_ObjectMeta m) \<Longrightarrow>
      \<exists>m'. mutateHeadersMiddleware L atom m csp = Ret (m', None) \<and> may_control atom (ob_ObjectMeta m')"
    and "may_control atom (ob_ObjectMeta m) \<Longrightarrow>
      \<exists>m'. mutateDownloadLinkMiddleware L atom pfx fs m = Ret (m', None) \<and> may_control atom (ob_ObjectMeta m')"
    and "may_control atom (ob_ObjectMeta i) \<Longrightarrow>
      \<exists>i'. mutateIngressRoute ord L atom i = Ret (i', None) \<and> may_control atom (ob_ObjectMeta i')"
    and "may_control atom (ob_ObjectMeta p) \<Longrightarrow>
      \<exists>p'. mutatePodDisruptionBudget L atom p = Ret (p', None) \<and> may_control atom (ob_ObjectMeta p')"
proof -
  note tail = tail_runs [OF assms(1)]
  show "\<exists>d'. mutateDeployment r L atom d n = Ret (d', None) \<and> may_control atom (ob_ObjectMeta d')"
    if "may_control atom (ob_ObjectMeta d)"
    using that by (simp add: mutateDeployment_def deployment_prep_def) (rule tail; simp add: managed_kinds_def)
  show "\<exists>s'. mutateService L atom s = Ret (s', None) \<and> may_control atom (ob_ObjectMeta s')"
    if "may_control atom (ob_ObjectMeta s)"
    using that by (simp add: mutateService_def service_prep_def) (rule tail; simp add: managed_kinds_def)
  show "\<exists>m'. mutateStripPrefixMiddleware L atom m = Ret (m', None) \<and> may_control atom (ob_ObjectMeta m')"
    if "may_control atom (ob_ObjectMeta m)"
    using that by (simp add: mutateStripPrefixMiddleware_def strip_prefixes_eq [OF assms(2)])
      (rule tail; simp add: managed_kinds_def)
  show "\<exists>m'. mutateHeadersMiddleware L atom m csp = Ret (m', None) \<and> may_control atom (ob_ObjectMeta m')"
    if "may_control atom (ob_ObjectMeta m)"
    using that by (simp add: mutateHeadersMiddleware_def) (rule tail; simp add: managed_kinds_def)
  show "\<exists>m'. mutateDownloadLinkMiddleware L atom pfx fs m = Ret (m', None) \<and> may_control atom (ob_ObjectMeta m')"
    if "may_control atom (ob_ObjectMeta m)"
    using that by (simp add: mutateDownloadLinkMiddleware_def getDownloadLinkRegex_eq [OF route_urls_set [OF assms(2)]])
      (rule tail; simp add: managed_kinds_def)
  show "\<exists>p'. mutatePodDisruptionBudget L atom p = Ret (p', None) \<and> may_control atom (ob_ObjectMeta p')"
    if "may_control atom (ob_ObjectMeta p)"
    using that by (simp add: mutatePodDisruptionBudget_def pdb_prep_def) (rule tail; simp add: managed_kinds_def)
  obtain u where u: "sv_BaseURL (at_Service atom) = Some u"
    using assms(2) by (auto simp: urls_set_def)
  obtain rs where rs: "ingress_routes ord L atom = Ret rs"
    using ingress_routes_run [OF assms(2,3,4), of L] by blast
  obtain an where an: "ingress_annotations L atom = Ret an"
    using u by (auto simp: ingress_annotations_def go_simps)
  show "\<exists>i'. mutateIngressRoute ord L atom i = Ret (i', None) \<and> may_control atom (ob_ObjectMeta i')"
    if "may_control atom (ob_ObjectMeta i)"
    using that by (simp add: mutateIngressRoute_def rs an)
      (rule tail; simp add: managed_kinds_def ingress_object_def Let_def)
qed

definition marshals :: "gen_libs \<Rightarrow> bool" where
  "marshals G \<longleftrightarrow> (\<forall>fs. \<exists>y. Marshal G fs = Inr y)"

lemma configMapData_runs:
  assumes "succeeds (MapAtomV3ToAtomGeneratorConfig G v atom oi)" and "marshals G"
  shows "\<exists>d. configMapData G v atom oi old = ok d"
proof -
  obtain fs where fs: "MapAtomV3ToAtomGeneratorConfig G v atom oi = ok fs"
    using assms(1) unfolding succeeds_def by blast
  obtain y where "Marshal G fs = Inr y"
    using assms(2) unfolding marshals_def by blast
  with fs show ?thesis by (simp add: configMapData_def getGeneratorConfig_def)
qed

lemma mutateConfigMap_runs:
  assumes "libs_ready L" and "succeeds (MapAtomV3ToAtomGeneratorConfig G v atom oi)" and "marshals G"
    and "may_control atom (ob_ObjectMeta c)" and "ownership_contract L"
  shows "\<exists>c'. mutateAtomGeneratorConfigMap L G v atom oi c = Ret (c', None) \<and> may_control atom (ob_ObjectMeta c')"
proof -
  obtain d where d: "configMapData G v atom oi (cm_Data (ob_Spec c)) = ok d"
    using configMapData_runs [OF assms(2,3)] by blast
  let ?c1 = "(with_labels L atom c)\<lparr>ob_Spec := \<lparr>cm_Data = d, cm_Immutable = Pointer_bool L True\<rparr>\<rparr>"
  obtain c2 where c2: "set_gvk_and_owner L ConfigMapKind atom ?c1 = (c2, None)" "may_control atom (ob_ObjectMeta c2)"
    using tail_runs [OF assms(1), of ConfigMapKind atom ?c1] assms(4) by (auto simp: managed_kinds_def)
  have "cm_Data (ob_Spec c2) \<noteq> Map.empty"
    using set_gvk_and_owner_ok(1) [OF assms(5) c2(1)] configMapData_idem(1) [OF d] by simp
  then obtain c' where c': "AddHashSuffix L c2 = (c', None)"
    using libs_ready_parts(4) [OF assms(1)] unfolding hashes_def by (metis prod.collapse)
  then have "c' = c2\<lparr>ob_ObjectMeta := (ob_ObjectMeta c2)\<lparr>om_Name := ob_Name c'\<rparr>\<rparr>"
    using libs_ready_parts(1) [OF assms(1)] unfolding hash_contract_def by blast
  then have "may_control atom (ob_ObjectMeta c')"
    using c2(2) by (metis may_control_updates(3) obj.select_convs(2) obj.surjective obj.update_convs(2))
  with d c2(1) c' show ?thesis by (simp add: mutateAtomGeneratorConfigMap_def)
qed

section \<open>A cluster that accepts\<close>

text \<open>
  \<open>CreateOrUpdate\<close> succeeds when the closure does on the object at hand and keeps the key, and it
  stores the object under the key.
\<close>

definition at_hand :: "'w view \<Rightarrow> 'w \<Rightarrow> kobj \<Rightarrow> kobj" where
  "at_hand view w obj = (case view w (kobj_key obj) of None \<Rightarrow> obj | Some s \<Rightarrow> s)"

definition accepts :: "Atom \<Rightarrow> kobj \<Rightarrow> mutator \<Rightarrow> kobj \<Rightarrow> bool" where
  "accepts atom obj mut o0 \<longleftrightarrow>
     (\<exists>o1. mut o0 = Ret (o1, None) \<and> kobj_key o1 = kobj_key obj \<and> may_control atom (kobj_meta o1))"

text \<open>
  The server accepts what is sent to it, and may fill in defaults, but no owner references. For a Deployment it
  may answer with a conflict instead, and leave everything as it is.
\<close>

definition obliging :: "'w client \<Rightarrow> 'w view \<Rightarrow> bool" where
  "obliging C view \<longleftrightarrow>
     (\<forall>obj mut w o1. mut (at_hand view w obj) = Ret (o1, None) \<longrightarrow> kobj_key o1 = kobj_key obj \<longrightarrow>
        (\<exists>opr obj' w'. CreateOrUpdate C obj mut w = (Ret (opr, None, obj'), w') \<and>
           kobj_key obj' = kobj_key obj \<and>
           om_OwnerReferences (kobj_meta obj') = om_OwnerReferences (kobj_meta o1) \<and>
           view w' = (view w)(kobj_key obj \<mapsto> obj')) \<or>
        (fst (kobj_key obj) = DeploymentKind \<and>
          (\<exists>opr e obj' w'. CreateOrUpdate C obj mut w = (Ret (opr, Some e, obj'), w') \<and>
             conflict_tolerated C e \<and> view w' = view w)))"

definition consistent :: "'w view \<Rightarrow> 'w \<Rightarrow> bool" where
  "consistent view w \<longleftrightarrow> (\<forall>k s. view w k = Some s \<longrightarrow> kobj_key s = k)"

text \<open>No stored object that a run may write has another controller.\<close>

definition claimable :: "'w view \<Rightarrow> Atom \<Rightarrow> key set \<Rightarrow> 'w \<Rightarrow> bool" where
  "claimable view atom K w \<longleftrightarrow> (\<forall>k\<in>K. \<forall>s. view w k = Some s \<longrightarrow> may_control atom (kobj_meta s))"

text \<open>All keys that a run for the Atom may write: its own ones, and its ConfigMap with the hashed name.\<close>

definition run_keys :: "'w env \<Rightarrow> Atom \<Rightarrow> OwnerInfo \<Rightarrow> key set" where
  "run_keys E a oi =
     own_keys a \<union> {kobj_key (KConfigMap c) | c. configMap_mutator E a oi (getBareConfigMap a) = Ret (c, None)}"

lemma kobj_key_meta: "snd (kobj_key s) = (om_Namespace (kobj_meta s), om_Name (kobj_meta s))"
  by (cases s) simp_all

definition completes :: "('w \<Rightarrow> bool) \<Rightarrow> ('a, 'w) step \<Rightarrow> ('a \<Rightarrow> bool) \<Rightarrow> ('w \<Rightarrow> bool) \<Rightarrow> bool" where
  "completes P m Y Q \<longleftrightarrow>
     (\<forall>rs w. P w \<longrightarrow> (\<exists>y rs' w'. m (rs, w) = (ok y, (rs', w')) \<and> Y y \<and> Q w'))"

lemma completes_lift: "r = ok y \<Longrightarrow> Y y \<Longrightarrow> completes P (step_lift r) Y P"
  by (simp add: completes_def step_lift_def)

lemma completes_bind:
  assumes "completes P m Y Q" and "\<And>y. Y y \<Longrightarrow> completes Q (f y) Z R"
  shows "completes P (step_bind m f) Z R"
  unfolding completes_def
proof (intro allI impI)
  fix rs w
  assume "P w"
  then obtain y rs' w' where m: "m (rs, w) = (ok y, (rs', w'))" "Y y" "Q w'"
    using assms(1) unfolding completes_def by blast
  then obtain z rs'' w'' where "f y (rs', w') = (ok z, (rs'', w''))" "Z z" "R w''"
    using assms(2) unfolding completes_def by blast
  with m show "\<exists>z rs' w'. step_bind m f (rs, w) = (ok z, (rs', w')) \<and> Z z \<and> R w'"
    by (simp add: step_bind_def)
qed

lemma completes_for:
  assumes "\<And>x. x \<in> set xs \<Longrightarrow> completes P (f x) (\<lambda>_. True) P"
  shows "completes P (step_for f xs) (\<lambda>_. True) P"
  using assms
proof (induction xs)
  case Nil
  then show ?case by (simp add: completes_def step_ok_def)
next
  case (Cons x xs)
  have "completes P (f x) (\<lambda>_. True) P" by (rule Cons.prems) simp
  then show ?case
    unfolding step_for.simps by (rule completes_bind) (use Cons in simp)
qed

lemma create_or_update_completes:
  assumes "obliging C view"
    and "\<And>w. P w \<Longrightarrow> consistent view w \<and> claimable view atom K w \<and> accepts atom obj mut (at_hand view w obj)"
    and "fst (kobj_key obj) = DeploymentKind \<Longrightarrow> tolerated = conflict_tolerated C"
  shows "completes P (create_or_update C key msg tolerated obj mut)
    (\<lambda>y. fst (kobj_key obj) \<noteq> DeploymentKind \<longrightarrow> kobj_key y = kobj_key obj)
    (\<lambda>w. consistent view w \<and> claimable view atom K w)"
  unfolding completes_def
proof (intro allI impI)
  fix rs w
  assume "P w"
  then have c: "consistent view w" "claimable view atom K w" and a: "accepts atom obj mut (at_hand view w obj)"
    using assms(2) by blast+
  obtain o1 where o1: "mut (at_hand view w obj) = Ret (o1, None)" "kobj_key o1 = kobj_key obj"
    "may_control atom (kobj_meta o1)"
    using a unfolding accepts_def by blast
  consider (stored) opr obj' w' where "CreateOrUpdate C obj mut w = (Ret (opr, None, obj'), w')"
      "kobj_key obj' = kobj_key obj" "om_OwnerReferences (kobj_meta obj') = om_OwnerReferences (kobj_meta o1)"
      "view w' = (view w)(kobj_key obj \<mapsto> obj')"
    | (conflict) opr e obj' w' where "fst (kobj_key obj) = DeploymentKind"
      "CreateOrUpdate C obj mut w = (Ret (opr, Some e, obj'), w')" "conflict_tolerated C e" "view w' = view w"
    using assms(1) o1(1,2) unfolding obliging_def by blast
  then show "\<exists>y rs' w'. create_or_update C key msg tolerated obj mut (rs, w) = (ok y, (rs', w')) \<and>
      (fst (kobj_key obj) \<noteq> DeploymentKind \<longrightarrow> kobj_key y = kobj_key obj) \<and>
      consistent view w' \<and> claimable view atom K w'"
  proof cases
    case stored
    have "may_control atom (kobj_meta obj')"
      using o1(2,3) stored(2,3) kobj_key_meta [of o1] kobj_key_meta [of obj'] by (simp add: may_control_def)
    then have "consistent view w'" "claimable view atom K w'"
      using c stored(2,4) by (simp_all add: consistent_def claimable_def)
    then show ?thesis using stored(1,2) by (simp add: create_or_update_def)
  next
    case conflict
    then have "consistent view w'" "claimable view atom K w'"
      using c by (simp_all add: consistent_def claimable_def)
    then show ?thesis using conflict(1-3) assms(3) by (simp add: create_or_update_def)
  qed
qed

text \<open>For all objects but the config map the closure succeeds on any object that the Atom may control.\<close>

definition always_accepts :: "Atom \<Rightarrow> kobj \<Rightarrow> mutator \<Rightarrow> bool" where
  "always_accepts atom obj mut \<longleftrightarrow>
     (\<forall>o0. kobj_key o0 = kobj_key obj \<longrightarrow> may_control atom (kobj_meta o0) \<longrightarrow> accepts atom obj mut o0)"

lemma at_hand_key:
  assumes "consistent view w"
  shows "kobj_key (at_hand view w obj) = kobj_key obj"
proof (cases "view w (kobj_key obj)")
  case (Some s)
  then have "kobj_key s = kobj_key obj" using assms unfolding consistent_def by blast
  with Some show ?thesis by (simp add: at_hand_def)
qed (simp add: at_hand_def)

lemma at_hand_claimable:
  "claimable view atom K w \<Longrightarrow> kobj_key obj \<in> K \<Longrightarrow> may_control atom (kobj_meta obj) \<Longrightarrow>
     may_control atom (kobj_meta (at_hand view w obj))"
  by (auto simp: claimable_def at_hand_def split: option.split)

lemma apply_object_completes:
  assumes "obliging C view" and "always_accepts atom obj mut" and "kobj_key obj \<in> K" and "may_control atom (kobj_meta obj)"
    and "fst (kobj_key obj) = DeploymentKind \<Longrightarrow> tolerated = conflict_tolerated C"
  shows "completes (\<lambda>w. consistent view w \<and> claimable view atom K w) (apply_object C msg tolerated obj mut)
    (\<lambda>_. True) (\<lambda>w. consistent view w \<and> claimable view atom K w)"
proof -
  have "accepts atom obj mut (at_hand view w obj)" if "consistent view w" "claimable view atom K w" for w
    using assms(2) at_hand_key [OF that(1)] at_hand_claimable [OF that(2) assms(3,4)]
    unfolding always_accepts_def by blast
  then show ?thesis
    unfolding apply_object_def
    by (intro completes_bind [OF create_or_update_completes [OF assms(1) _ assms(5)]])
      (auto simp: completes_def step_ok_def)
qed

section \<open>A run on a complete Atom\<close>

lemma wrap_Ret: "m = Ret (x, err) \<Longrightarrow> wrap K m = Ret (K x, err)"
  by (simp add: wrap_def)

text \<open>A closure on one constructor accepts what its mutate function runs on.\<close>

lemma accepts_wrap:
  assumes "\<And>o0. kobj_key o0 = kobj_key obj \<Longrightarrow> \<exists>x. o0 = K x \<and> mut o0 = wrap K (f x)"
    and "\<And>x. kobj_meta (K x) = ob_ObjectMeta x"
    and "\<And>x y. ob_Namespace x = ob_Namespace y \<Longrightarrow> ob_Name x = ob_Name y \<Longrightarrow> kobj_key (K x) = kobj_key (K y)"
    and "\<And>x. may_control atom (ob_ObjectMeta x) \<Longrightarrow> \<exists>y. f x = Ret (y, None) \<and> may_control atom (ob_ObjectMeta y)"
    and "\<And>x y. f x = Ret (y, None) \<Longrightarrow> ob_Name y = ob_Name x" and "\<And>x y. f x = Ret (y, None) \<Longrightarrow> ob_Namespace y = ob_Namespace x"
  shows "always_accepts atom obj mut"
  unfolding always_accepts_def
proof (intro allI impI)
  fix o0
  assume key: "kobj_key o0 = kobj_key obj" and may: "may_control atom (kobj_meta o0)"
  obtain x where x: "o0 = K x" "mut o0 = wrap K (f x)" using assms(1) [OF key] by blast
  obtain y where y: "f x = Ret (y, None)" "may_control atom (ob_ObjectMeta y)"
    using assms(4) may unfolding x(1) assms(2) by blast
  have "kobj_key (K y) = kobj_key obj"
    using assms(3) [OF assms(6) [OF y(1)] assms(5) [OF y(1)]] key by (simp add: x(1))
  then show "accepts atom obj mut o0"
    using y unfolding accepts_def x(2) by (simp add: wrap_Ret assms(2))
qed

lemma mutators_accept:
  assumes "ownership_contract L" and "libs_ready L" and "urls_set atom" and "atom_keys_valid atom"
    and "iteration_order ord"
  shows "always_accepts atom (KDeployment d) (on_Deployment (\<lambda>d. mutateDeployment r L atom d n))"
    and "always_accepts atom (KService s) (on_Service (mutateService L atom))"
    and "always_accepts atom (KMiddleware m) (on_Middleware (mutateStripPrefixMiddleware L atom))"
    and "always_accepts atom (KMiddleware m) (on_Middleware (\<lambda>m. mutateHeadersMiddleware L atom m csp))"
    and "always_accepts atom (KMiddleware m) (on_Middleware (mutateDownloadLinkMiddleware L atom pfx fs))"
    and "always_accepts atom (KIngressRoute i) (on_IngressRoute (mutateIngressRoute ord L atom))"
    and "always_accepts atom (KPodDisruptionBudget p) (on_PodDisruptionBudget (mutatePodDisruptionBudget L atom))"
proof -
  note run = mutators_run [OF assms(2-5)]
  show "always_accepts atom (KDeployment d) (on_Deployment (\<lambda>d. mutateDeployment r L atom d n))"
    by (rule accepts_wrap [where K = KDeployment, OF _ _ _ run(1) deploymentm.keeps_key [OF assms(1)]]) (auto simp: key_constructor)
  show "always_accepts atom (KService s) (on_Service (mutateService L atom))"
    by (rule accepts_wrap [where K = KService, OF _ _ _ run(2) servicem.keeps_key [OF assms(1)]]) (auto simp: key_constructor)
  show "always_accepts atom (KMiddleware m) (on_Middleware (mutateStripPrefixMiddleware L atom))"
    by (rule accepts_wrap [where K = KMiddleware, OF _ _ _ run(3) stripm.keeps_key [OF assms(1)]]) (auto simp: key_constructor)
  show "always_accepts atom (KMiddleware m) (on_Middleware (\<lambda>m. mutateHeadersMiddleware L atom m csp))"
    by (rule accepts_wrap [where K = KMiddleware, OF _ _ _ run(4) headersm.keeps_key [OF assms(1)]]) (auto simp: key_constructor)
  show "always_accepts atom (KMiddleware m) (on_Middleware (mutateDownloadLinkMiddleware L atom pfx fs))"
    by (rule accepts_wrap [where K = KMiddleware, OF _ _ _ run(5) downloadm.keeps_key [OF assms(1)]]) (auto simp: key_constructor)
  show "always_accepts atom (KIngressRoute i) (on_IngressRoute (mutateIngressRoute ord L atom))"
    by (rule accepts_wrap [where K = KIngressRoute, OF _ _ _ run(6) ingressm.keeps_key [OF assms(1)]]) (auto simp: key_constructor)
  show "always_accepts atom (KPodDisruptionBudget p) (on_PodDisruptionBudget (mutatePodDisruptionBudget L atom))"
    by (rule accepts_wrap [where K = KPodDisruptionBudget, OF _ _ _ run(7) pdbm.keeps_key [OF assms(1)]]) (auto simp: key_constructor)
qed

text \<open>
  The config map that is stored under the name the content hashes to keeps this name: nobody wrote
  other content there.
\<close>

definition configMap_intact :: "'w env \<Rightarrow> 'w view \<Rightarrow> Atom \<Rightarrow> OwnerInfo \<Rightarrow> 'w \<Rightarrow> bool" where
  "configMap_intact E view atom oi w \<longleftrightarrow>
     (\<forall>c x x'. configMap_mutator E atom oi (getBareConfigMap atom) = Ret (c, None) \<longrightarrow>
        view w (kobj_key (KConfigMap c)) = Some (KConfigMap x) \<longrightarrow>
        configMap_mutator E atom oi x = Ret (x', None) \<longrightarrow> ob_Name x' = ob_Name x)"

lemma configMap_accepts:
  assumes "sound_env E view" and "libs_ready (ev_libs E)"
    and "succeeds (MapAtomV3ToAtomGeneratorConfig (ev_gen E) (ev_vars E) atom oi)" and "marshals (ev_gen E)"
    and c: "configMap_mutator E atom oi (getBareConfigMap atom) = Ret (c, None)"
    and ns: "ob_Namespace c = at_Namespace atom" and own: "may_control atom (ob_ObjectMeta c)"
    and idem: "configMap_mutator E atom oi c = Ret (c, None)"
    and "consistent view w" and "claimable view atom (run_keys E atom oi) w" and "configMap_intact E view atom oi w"
  shows "accepts atom (KConfigMap c) (on_ConfigMap (configMap_mutator E atom oi)) (at_hand view w (KConfigMap c))"
proof (cases "view w (kobj_key (KConfigMap c))")
  case None
  then show ?thesis using own by (simp add: at_hand_def accepts_def wrap_Ret [OF idem])
next
  case (Some s)
  have "kobj_key s = kobj_key (KConfigMap c)"
    using at_hand_key [OF assms(9), of "KConfigMap c"] Some by (simp add: at_hand_def)
  then obtain x where x: "s = KConfigMap x" "ob_Namespace x = ob_Namespace c" "ob_Name x = ob_Name c"
    by (auto simp: key_constructor)
  have "kobj_key (KConfigMap c) \<in> run_keys E atom oi" using c unfolding run_keys_def by blast
  then have "may_control atom (ob_ObjectMeta x)"
    using assms(10) Some unfolding claimable_def x(1) by fastforce
  then obtain x' where x': "configMap_mutator E atom oi x = Ret (x', None)" "may_control atom (ob_ObjectMeta x')"
    using mutateConfigMap_runs [OF assms(2-4)] sound_env_parts(3) [OF assms(1)] by blast
  have "ob_Namespace x' = ob_Namespace x"
    by (rule mutateConfigMap_ok(4) [OF sound_env_parts(2,3,4) [OF assms(1)] x'(1)])
  moreover have "ob_Name x' = ob_Name x"
    using assms(11) x' Some x(1) c unfolding configMap_intact_def by metis
  ultimately show ?thesis
    using Some x x'(2) by (simp add: at_hand_def accepts_def wrap_Ret [OF x'(1)])
qed

text \<open>Everything a successful run needs, apart from the state of the cluster.\<close>

definition ready :: "'w env \<Rightarrow> 'w view \<Rightarrow> Atom \<Rightarrow> OwnerInfo \<Rightarrow> bool" where
  "ready E view atom oi \<longleftrightarrow>
     sound_env E view \<and> libs_ready (ev_libs E) \<and> obliging (ev_client E) view \<and>
     marshals (ev_gen E) \<and> renders (ev_gen E) oi \<and> atom_complete atom \<and> owner_complete oi"

text \<open>What is needed of the state, and what a run keeps of it.\<close>

abbreviation unobstructed :: "'w env \<Rightarrow> 'w view \<Rightarrow> Atom \<Rightarrow> OwnerInfo \<Rightarrow> 'w \<Rightarrow> bool" where
  "unobstructed E view atom oi w \<equiv> consistent view w \<and> claimable view atom (run_keys E atom oi) w"

lemma bare_may_control [simp]: "may_control atom (ob_ObjectMeta (bare n (at_Namespace atom) s))"
  by (simp add: may_control_def bare_def zero_ObjectMeta_def)

lemma apply_configMap_completes:
  assumes "ready E view atom oi" and "owner_supports atom oi"
  shows "completes (\<lambda>w. unobstructed E view atom oi w \<and> configMap_intact E view atom oi w) (apply_configMap E atom oi)
    (\<lambda>_. True) (unobstructed E view atom oi)"
proof -
  have E: "sound_env E view" "libs_ready (ev_libs E)" "obliging (ev_client E) view" "marshals (ev_gen E)"
    using assms(1) by (simp_all add: ready_def)
  have maps: "succeeds (MapAtomV3ToAtomGeneratorConfig (ev_gen E) (ev_vars E) atom oi)"
    using assms by (simp add: ready_def MapAtom_succeeds)
  let ?mut = "configMap_mutator E atom oi"
  obtain c where c: "?mut (getBareConfigMap atom) = Ret (c, None)" and own: "may_control atom (ob_ObjectMeta c)"
    using mutateConfigMap_runs [OF E(2) maps E(4) _ sound_env_parts(3) [OF E(1)], of "getBareConfigMap atom"]
    by (auto simp: getBareConfigMap_def)
  have ns: "ob_Namespace c = at_Namespace atom"
    using mutateConfigMap_ok(4) [OF sound_env_parts(2,3,4) [OF E(1)] c] by (simp add: getBareConfigMap_def)
  note idem = mutateConfigMap_idem [OF sound_env_parts(2,3,4) [OF E(1)] c]
  note accept = configMap_accepts [OF E(1,2) maps E(4) c ns own idem]
  have "completes (\<lambda>w. unobstructed E view atom oi w \<and> configMap_intact E view atom oi w)
      (create_or_update (ev_client E) (GetObjectFullName (ev_client E) (KAtom atom)) unable none_tolerated
        (KConfigMap c) (on_ConfigMap ?mut))
      (\<lambda>y. fst (kobj_key (KConfigMap c)) \<noteq> DeploymentKind \<longrightarrow> kobj_key y = kobj_key (KConfigMap c))
      (unobstructed E view atom oi)"
    by (rule create_or_update_completes [OF E(3)]) (use accept in auto)
  then have stored: "completes (\<lambda>w. unobstructed E view atom oi w \<and> configMap_intact E view atom oi w)
      (create_or_update (ev_client E) (GetObjectFullName (ev_client E) (KAtom atom)) unable none_tolerated
        (KConfigMap c) (on_ConfigMap ?mut)) (\<lambda>_. True) (unobstructed E view atom oi)"
    unfolding completes_def by blast
  show ?thesis
    unfolding apply_configMap_def Let_def
    by (rule completes_bind [OF completes_lift [where y = c and Y = "\<lambda>y. y = c"]])
      (use stored in \<open>simp_all add: c\<close>)
qed

lemma createOrUpdateAll_completes:
  assumes "ready E view atom oi" and "owner_supports atom oi"
  shows "completes (\<lambda>w. unobstructed E view atom oi w \<and> configMap_intact E view atom oi w)
    (createOrUpdateAllForAtom E atom oi) (\<lambda>_. True) (unobstructed E view atom oi)"
proof -
  have E: "sound_env E view" "libs_ready (ev_libs E)" "obliging (ev_client E) view"
    and atom: "urls_set atom" "atom_keys_valid atom"
    using assms(1) atom_complete_parts(2,3) by (auto simp: ready_def)
  note accept = mutators_accept [OF sound_env_parts(3) [OF E(1)] E(2) atom sound_env_parts(6) [OF E(1)]]
  note object = apply_object_completes [OF E(3), of atom _ _ "run_keys E atom oi"]
  have own: "k \<in> run_keys E atom oi" if "k \<in> own_keys atom" for k
    using that by (simp add: run_keys_def)
  note bares = getBareDeployment_def getBareService_def getBareStripPrefixMiddleware_def
    getBareHeadersMiddleware_def getBareDownloadLinkMiddleware_def getBareIngressRoute_def
    getBarePodDisruptionBudget_def
  obtain G where G: "getDownloadLinkGroups (GetDownloadLinks atom) = Ret G"
    using dlg.returns atom(2) unfolding atom_keys_valid_def by blast
  have downloads: "completes (unobstructed E view atom oi) (apply_downloads E atom) (\<lambda>_. True)
      (unobstructed E view atom oi)"
    unfolding apply_downloads_def
  proof (rule completes_bind [OF completes_lift [where y = G and Y = "\<lambda>y. y = G"]])
    show "completes (unobstructed E view atom oi) (step_for (apply_download E atom) (ev_ord E y)) (\<lambda>_. True)
        (unobstructed E view atom oi)"
      if "y = G" for y
    proof (rule completes_for)
      fix x
      assume "x \<in> set (ev_ord E y)"
      then have "x \<in> set G"
        using iteration_order_set [OF sound_env_parts(5) [OF E(1)], of G] that by simp
      then obtain i where i: "lg_index (snd x) = Some i"
        using dlg.index_some [OF atom(2) [unfolded atom_keys_valid_def] G] by blast
      have "completes (unobstructed E view atom oi)
          (apply_object (ev_client E) unable none_tolerated (KMiddleware (getBareDownloadLinkMiddleware atom i))
            (on_Middleware (mutateDownloadLinkMiddleware (ev_libs E) atom (fst x) (lg_files (snd x)))))
          (\<lambda>_. True) (unobstructed E view atom oi)"
        by (rule object [OF accept(5)]) (auto simp: own_keys_def run_keys_def bares)
      then show "completes (unobstructed E view atom oi) (apply_download E atom x) (\<lambda>_. True) (unobstructed E view atom oi)"
        unfolding apply_download_def case_prod_unfold
        by (intro completes_bind [OF completes_lift [where y = i and Y = "\<lambda>j. j = i"]]) (auto simp: i go_simps)
    qed
  qed (simp_all add: G)
  have steps:
    "completes (unobstructed E view atom oi) (apply_deployment E atom n) (\<lambda>_. True) (unobstructed E view atom oi)"
    "completes (unobstructed E view atom oi) (apply_service E atom) (\<lambda>_. True) (unobstructed E view atom oi)"
    "completes (unobstructed E view atom oi) (apply_stripPrefix E atom) (\<lambda>_. True) (unobstructed E view atom oi)"
    "completes (unobstructed E view atom oi) (apply_headers E atom) (\<lambda>_. True) (unobstructed E view atom oi)"
    "completes (unobstructed E view atom oi) (apply_ingressRoute E atom) (\<lambda>_. True) (unobstructed E view atom oi)"
    "completes (unobstructed E view atom oi) (apply_podDisruptionBudget E atom) (\<lambda>_. True) (unobstructed E view atom oi)"
    for n
    unfolding apply_deployment_def apply_service_def apply_stripPrefix_def apply_headers_def
      apply_ingressRoute_def apply_podDisruptionBudget_def
    by (rule object [OF accept(1)] object [OF accept(2)] object [OF accept(3)] object [OF accept(4)]
        object [OF accept(6)] object [OF accept(7)];
      (rule own, simp add: own_keys_def route_keys_def del: kobj_key.simps)?; simp add: bares Let_def)+
  show ?thesis
    unfolding createOrUpdateAllForAtom_def
    by (intro completes_bind [OF apply_configMap_completes [OF assms]] completes_bind [OF steps(1)]
        completes_bind [OF steps(2)] completes_bind [OF steps(3)] completes_bind [OF steps(4)]
        completes_bind [OF downloads] completes_bind [OF steps(5)] steps(6))
qed

lemma reconcile_found_completes:
  assumes "ready E view atom oi" and "owner_supports atom oi" and "\<not> ttlExpired atom now"
    and "consistent view w" and "configMap_intact E view atom oi w" and "claimable view atom (run_keys E atom oi) w"
  shows "\<exists>rs w'. createOrUpdateAllForAtom E atom oi (Map.empty, w) = (ok (), (rs, w')) \<and>
    reconcile_found E now atom oi w = (Ret None, LogAndUpdateStatusFinished (ev_client E) atom rs w') \<and>
    claimable view atom (run_keys E atom oi) w'"
proof -
  obtain rs w' where "createOrUpdateAllForAtom E atom oi (Map.empty, w) = (ok (), (rs, w'))"
    "claimable view atom (run_keys E atom oi) w'"
    using createOrUpdateAll_completes [OF assms(1,2)] assms(4-6) unfolding completes_def
    by (metis old.unit.exhaust)
  then show ?thesis by (simp add: reconcile_found_def assms(3))
qed

lemma Reconcile_succeeds:
  assumes "GetAtom (ev_client E) w req = Inr atom"
    and "GetOwnerInfo (ev_client E) w (at_Namespace atom, sv_OwnerInfoRef (at_Service atom)) = Inr oi"
    and "ready E view atom oi" and "owner_supports atom oi" and "\<not> ttlExpired atom now"
    and "consistent view w" and "configMap_intact E view atom oi w" and "claimable view atom (run_keys E atom oi) w"
  shows "fst (Reconcile E req now w) = None"
  using reconcile_found_completes [OF assms(3-8)] assms(1,2)
  by (auto simp: Reconcile_def recovering_def Let_def)

text \<open>Conversely, a blob key without a slash makes every reconcile of its Atom fail.\<close>

lemma apply_downloads_bad_key:
  assumes "\<not> atom_keys_valid atom"
  shows "apply_downloads E atom s \<noteq> (ok y, s')"
proof -
  obtain p where "getDownloadLinkGroups (GetDownloadLinks atom) = Panic p"
    using assms getDownloadLinkGroups_panics [of "GetDownloadLinks atom"]
    by (cases "getDownloadLinkGroups (GetDownloadLinks atom)") (auto simp: atom_keys_valid_def)
  then show ?thesis by (cases s) (simp add: apply_downloads_def step_bind_def step_lift_def)
qed

lemma Reconcile_bad_key:
  assumes "GetAtom (ev_client E) w req = Inr atom"
    and "GetOwnerInfo (ev_client E) w (at_Namespace atom, sv_OwnerInfoRef (at_Service atom)) = Inr oi"
    and "\<not> ttlExpired atom now" and "\<not> atom_keys_valid atom"
  shows "fst (Reconcile E req now w) \<noteq> None"
proof -
  have "createOrUpdateAllForAtom E atom oi (Map.empty, w) \<noteq> (ok (), (rs, w'))" for rs w'
    unfolding createOrUpdateAllForAtom_def step_bind_ok using apply_downloads_bad_key [OF assms(4)] by blast
  then show ?thesis
    using assms(1-3)
    by (auto simp: Reconcile_def reconcile_found_def recovering_def Let_def split: prod.split go.split sum.split)
qed

section \<open>A reconcile that finds nothing to do\<close>

text \<open>Once everything is settled, a reconciliation writes no object that it manages.\<close>

lemma Reconcile_calm:
  assumes "exact_contract (ev_client E) view" and "sound_env E view"
    and "configMap_mutator E atom oi (getBareConfigMap atom) = Ret (c, None)"
    and "getDownloadLinkGroups (GetDownloadLinks atom) = Ret G"
    and "all_settled view (plan E atom oi c G) w"
    and "GetAtom (ev_client E) w req = Inr atom"
    and "GetOwnerInfo (ev_client E) w (at_Namespace atom, sv_OwnerInfoRef (at_Service atom)) = Inr oi"
    and "\<not> ttlExpired atom now"
  shows "\<exists>w3. Reconcile E req now w = (None, w3) \<and> view w3 = view w"
proof -
  obtain rs3 w3 where "createOrUpdateAllForAtom E atom oi (Map.empty, w) = (ok (), (rs3, w3))" "view w3 = view w"
    using createOrUpdateAll_calm [OF assms(1-4)] assms(5) unfolding calm_def by (metis old.unit.exhaust)
  then show ?thesis
    using assms(6-8) exact_contract_parts(3) [OF assms(1)]
    by (simp add: Reconcile_def Let_def reconcile_found_def recovering_def)
qed

text \<open>When all but the Deployment is settled, it changes the Deployment at most.\<close>

lemma Reconcile_quiet:
  assumes "exact_contract (ev_client E) view" and "sound_env E view"
    and "configMap_mutator E atom oi (getBareConfigMap atom) = Ret (c, None)"
    and "getDownloadLinkGroups (GetDownloadLinks atom) = Ret G"
    and "all_settled view (plan_others E atom oi c G) w"
    and "GetAtom (ev_client E) w req = Inr atom"
    and "GetOwnerInfo (ev_client E) w (at_Namespace atom, sv_OwnerInfoRef (at_Service atom)) = Inr oi"
    and "k \<noteq> kobj_key (KDeployment (getBareDeployment atom))"
  shows "view (snd (Reconcile E req now w)) k = view w k"
proof -
  have same: "view (LogAndUpdateStatusError (ev_client E) atom e w2) = view w2"
    "view (LogAndUpdateStatusFinished (ev_client E) atom rs w2) = view w2"
    "view (snd (DeleteAtom (ev_client E) atom w2)) = view w2" for e rs w2
    using sound_env_parts(1) [OF assms(2)] by (simp_all add: cluster_contract_def)
  let ?P = "\<lambda>w'. \<forall>k. k \<noteq> kobj_key (KDeployment (getBareDeployment atom)) \<longrightarrow> view w' k = view w k"
  have "outcome (\<lambda>_. ?P) ?P (createOrUpdateAllForAtom E atom oi (Map.empty, w))"
    using createOrUpdateAll_quiet [OF assms(1-5)] unfolding triple_def by blast
  then show ?thesis
    using assms(6-8)
    by (cases "createOrUpdateAllForAtom E atom oi (Map.empty, w)" rule: step_cases; cases "ttlExpired atom now")
      (simp_all add: Reconcile_def Let_def reconcile_found_def recovering_def same
        case_prod_beta del: kobj_key.simps split_paired_All)
qed

end
