(* ===== verification/Webhook.thy ===== *)
theory Webhook
  imports Validation
begin

text \<open>
  The admission webhook, \<open>internal/webhook/v3/atom_webhook.go\<close>: the type assertions of
  \<open>AtomCustomValidator\<close> in front of the validation of the API package. The validator's only field is
  its client.
\<close>

text \<open>A \<open>runtime.Object\<close>: an Atom, or something else, of which only the name of its type is read.\<close>

datatype runtime_object = AtomObj Atom | OtherObj string

datatype webhook_error = WErr go_error | WInvalid InvalidError

type_synonym webhook_answer = "string list \<times> webhook_error option"

definition expected_Atom :: "string \<Rightarrow> string \<Rightarrow> webhook_answer" where
  "expected_Atom what T = ([], Some (WErr (ErrNew (''expected a Atom object '' @ what @ ''but got '' @ T))))"

definition answer :: "string list \<times> InvalidError option \<Rightarrow> webhook_answer" where
  "answer r = (fst r, map_option WInvalid (snd r))"

definition webhook_ValidateCreate ::
  "validation_libs \<Rightarrow> owner_client \<Rightarrow> runtime_object \<Rightarrow> webhook_answer" where
  "webhook_ValidateCreate V client obj =
     (case obj of
        OtherObj T \<Rightarrow> expected_Atom [] T
      | AtomObj atom \<Rightarrow> answer (ValidateCreate V client atom))"

definition webhook_ValidateUpdate ::
  "validation_libs \<Rightarrow> owner_client \<Rightarrow> runtime_object \<Rightarrow> runtime_object \<Rightarrow> webhook_answer go" where
  "webhook_ValidateUpdate V client oldObj newObj =
     (case newObj of
        OtherObj T \<Rightarrow> Ret (expected_Atom ''for the newObj '' T)
      | AtomObj atom \<Rightarrow>
          (case oldObj of
             OtherObj T \<Rightarrow> Ret (expected_Atom ''for the oldObj '' T)
           | AtomObj atomOld \<Rightarrow> go_bind (ValidateUpdate V client atom atomOld) (\<lambda>r. Ret (answer r))))"

definition webhook_ValidateDelete :: "runtime_object \<Rightarrow> webhook_answer" where
  "webhook_ValidateDelete obj =
     (case obj of
        OtherObj T \<Rightarrow> expected_Atom [] T
      | AtomObj atom \<Rightarrow> ([], None))"

definition admitted :: "webhook_answer \<Rightarrow> bool" where
  "admitted r \<longleftrightarrow> snd r = None"

section \<open>What is admitted\<close>

lemma admitted_create_iff:
  "admitted (webhook_ValidateCreate V c obj) \<longleftrightarrow>
     (\<exists>atom. obj = AtomObj atom \<and> snd (ValidateCreate V c atom) = None)"
  by (simp add: webhook_ValidateCreate_def admitted_def expected_Atom_def answer_def split: runtime_object.split)

text \<open>On update the same checks of the new Atom are made as on creation, and more.\<close>

lemma validateUpdate_errs:
  assumes "validateUpdate V (Some c) atom old ws errs = Ret (ws', errs')"
  shows "\<exists>pre. errs' = pre @ validateDatasetFeeds V atom [] @
     (case ValidateIngressRouteURLsContainsBaseURL V (as_IngressRouteURLs (at_Spec atom))
        (sv_BaseURL (at_Service atom)) of Some e \<Rightarrow> [e] | None \<Rightarrow> []) @
     ValidateOwnerInfo c atom []"
proof -
  have own: "ValidateOwnerInfo c atom xs = xs @ ValidateOwnerInfo c atom []" for xs
    by (rule ValidateOwnerInfo_prefix)
  have feeds: "validateDatasetFeeds V atom xs = xs @ validateDatasetFeeds V atom []" for xs
    by (rule validateDatasetFeeds_prefix)
  obtain errs1 where "check_base_url V atom old (ValidateLabelsOnUpdate V (at_Labels old) (at_Labels atom) errs) = Ret errs1"
    using assms by (auto simp: validateUpdate_def go_bind_eq_Ret)
  then have "errs' = ValidateOwnerInfo c atom (snd (ValidateAtom V atom ws
      (ValidateIngressRouteURLsNotRemoved V (as_IngressRouteURLs (at_Spec old)) (as_IngressRouteURLs (at_Spec atom)) errs1)))"
    using assms by (simp add: validateUpdate_def Let_def validate_owner_opt_def split: prod.splits)
  also have "\<dots> = snd (ValidateAtom V atom ws
      (ValidateIngressRouteURLsNotRemoved V (as_IngressRouteURLs (at_Spec old)) (as_IngressRouteURLs (at_Spec atom)) errs1))
      @ ValidateOwnerInfo c atom []"
    by (rule own)
  finally show ?thesis
    unfolding ValidateAtom_def Let_def snd_conv
    using feeds [of "ValidateIngressRouteURLsNotRemoved V (as_IngressRouteURLs (at_Spec old))
      (as_IngressRouteURLs (at_Spec atom)) errs1"]
    by (intro exI [of _ "ValidateIngressRouteURLsNotRemoved V (as_IngressRouteURLs (at_Spec old))
      (as_IngressRouteURLs (at_Spec atom)) errs1"]) (auto split: option.splits)
qed

lemma ValidateUpdate_accepts:
  assumes "ValidateUpdate V c atom old = Ret (ws, None)"
  shows "feeds_ok atom"
    and "ValidateIngressRouteURLsContainsBaseURL V (as_IngressRouteURLs (at_Spec atom)) (sv_BaseURL (at_Service atom)) = None"
    and "\<exists>oi. c (at_Namespace atom, sv_OwnerInfoRef (at_Service atom)) = Inr oi \<and> owner_supports atom oi"
proof -
  obtain ws' where "validateUpdate V (Some c) atom old [] [] = Ret (ws', [])"
    using assms by (auto simp: ValidateUpdate_def go_bind_eq_Ret invalid_unless_empty_def split: if_splits prod.splits)
  from validateUpdate_errs [OF this]
  have "validateDatasetFeeds V atom [] = []" "ValidateOwnerInfo c atom [] = []"
    "(case ValidateIngressRouteURLsContainsBaseURL V (as_IngressRouteURLs (at_Spec atom))
        (sv_BaseURL (at_Service atom)) of Some e \<Rightarrow> [e] | None \<Rightarrow> []) = []"
    by auto
  then show "feeds_ok atom"
    "ValidateIngressRouteURLsContainsBaseURL V (as_IngressRouteURLs (at_Spec atom)) (sv_BaseURL (at_Service atom)) = None"
    "\<exists>oi. c (at_Namespace atom, sv_OwnerInfoRef (at_Service atom)) = Inr oi \<and> owner_supports atom oi"
    by (simp_all add: validateDatasetFeeds_nil_iff ValidateOwnerInfo_nil_iff split: option.splits)
qed

end
