(* ===== verification/BetaTypes.thy ===== *)
theory BetaTypes
  imports ApiV3
begin

text \<open>
  The spoke version of the resource, \<open>api/v2beta1/atom_types.go\<close> and \<open>api/v2beta1/types.go\<close>. A Go
  \<open>int\<close> is a 64-bit word; a \<open>float32\<close> is its bit pattern, which the conversion never looks into.
\<close>

type_synonym float32 = "32 word"

record General =
  ge_Dataset :: string
  ge_Theme :: "string option"
  ge_DatasetOwner :: string
  ge_ServiceVersion :: "string option"
  ge_DataVersion :: "string option"

record Autoscaling =
  hp_AverageCPUUtilization :: "64 word option"
  hp_MinReplicas :: "64 word option"
  hp_MaxReplicas :: "64 word option"

record HealthCheck =
  hc_Querystring :: "string option"
  hc_Mimetype :: "string option"
  hc_Boundingbox :: "string option"

text \<open>A \<open>corev1.ResourceRequirements\<close>, as its two resource lists.\<close>

record ResourceRequirements =
  rr_Limits :: "(string \<times> string) list"
  rr_Requests :: "(string \<times> string) list"

record BetaLifecycle =
  bl_TTLInDays :: "64 word option"

record Kubernetes =
  bk_Autoscaling :: "Autoscaling option"
  bk_HealthCheck :: "HealthCheck option"
  bk_Resources :: "ResourceRequirements option"
  bk_Lifecycle :: "BetaLifecycle option"

record BetaAuthor =
  ba_Name :: string
  ba_Email :: string

record BetaBbox =
  bx_Minx :: float32
  bx_Maxx :: float32
  bx_Miny :: float32
  bx_Maxy :: float32

record Srs =
  sr_URI :: string
  sr_Code :: string

record BetaLink =
  li_BlobKey :: "string option"
  li_Updated :: "string option"
  li_Version :: "string option"
  li_Bbox :: "BetaBbox option"
  li_Rel :: "string option"

record OtherLink =
  ol_Type :: string
  ol_URI :: string
  ol_ContentType :: "string option"
  ol_Language :: "string option"

record Download =
  do_Name :: string
  do_Title :: "string option"
  do_Updated :: "string option"
  do_Content :: "string option"
  do_Links :: "BetaLink list"
  do_Srs :: Srs

record Dataset =
  ds_Name :: string
  ds_Title :: string
  ds_Subtitle :: string
  ds_MetadataIdentifier :: string
  ds_SourceIdentifier :: string
  ds_Links :: "OtherLink list"
  ds_Downloads :: "Download list"
  ds_Bbox :: BetaBbox

record AtomService =
  be_Title :: string
  be_Subtitle :: string
  be_MetadataIdentifier :: string
  be_Rights :: string
  be_Updated :: "string option"
  be_Author :: BetaAuthor
  be_Datasets :: "Dataset list"

record BetaSpec =
  bs_General :: General
  bs_Service :: AtomService
  bs_Kubernetes :: "Kubernetes option"

record BetaAtom =
  bt_TypeMeta :: TypeMeta
  bt_ObjectMeta :: ObjectMeta
  bt_Spec :: BetaSpec

abbreviation bt_Service :: "BetaAtom \<Rightarrow> AtomService" where
  "bt_Service a \<equiv> bs_Service (bt_Spec a)"

definition zero_Bbox :: BetaBbox where
  "zero_Bbox = \<lparr>bx_Minx = 0, bx_Maxx = 0, bx_Miny = 0, bx_Maxy = 0\<rparr>"

end
