(* ===== verification/URLParse.thy ===== *)
theory URLParse
  imports NetURL "HOL-Library.Monad_Syntax"
begin

text \<open>
  \<open>url.Parse\<close> of Go's \<open>net/url\<close>, which the conversion applies to the configured base URL. \<open>None\<close> is an
  error. A host with a bracket is an IP literal, whose reading rests on package \<open>net/netip\<close>: it is a
  parameter. As \<open>go.mod\<close> asks for the defaults of Go 1.25, several colons in a host are let through when
  a port follows the last one.

  The main results: a text made of a scheme, a plain host and plain path segments is read into its
  parts, and joining segments to the result and printing it gives the text with the segments behind it.
\<close>

section \<open>Parsing\<close>

definition str_Cut :: "char \<Rightarrow> string \<Rightarrow> string \<times> string" where
  "str_Cut c s = (takeWhile (\<lambda>d. d \<noteq> c) s, drop 1 (dropWhile (\<lambda>d. d \<noteq> c) s))"

definition letter :: "char \<Rightarrow> bool" where
  "letter c \<longleftrightarrow> (CHR ''a'' \<le> c \<and> c \<le> CHR ''z'') \<or> (CHR ''A'' \<le> c \<and> c \<le> CHR ''Z'')"

definition to_lower :: "char \<Rightarrow> char" where
  "to_lower c = (if CHR ''A'' \<le> c \<and> c \<le> CHR ''Z'' then char_of (of_char c + 32 :: nat) else c)"

definition zero_url :: url where
  "zero_url =
     \<lparr>url_Scheme = [], url_Opaque = [], url_User = None, url_Host = [], url_Path = [], url_RawPath = [],
      url_OmitHost = False, url_ForceQuery = False, url_RawQuery = [], url_Fragment = [], url_RawFragment = []\<rparr>"

definition ContainsCTLByte :: "string \<Rightarrow> bool" where
  "ContainsCTLByte s \<longleftrightarrow> list_ex (\<lambda>c. c < CHR '' '' \<or> c = CHR 0x7F) s"

text \<open>The position of the colon that ends the scheme.\<close>

fun scheme_end :: "nat \<Rightarrow> string \<Rightarrow> nat option" where
  "scheme_end i [] = None"
| "scheme_end i (c # s) =
     (if letter c then scheme_end (Suc i) s
      else if (CHR ''0'' \<le> c \<and> c \<le> CHR ''9'') \<or> c \<in> set ''+-.''
           then (if i = 0 then None else scheme_end (Suc i) s)
      else if c = CHR '':'' then Some i else None)"

definition getScheme :: "string \<Rightarrow> (string \<times> string) option" where
  "getScheme s =
     (case scheme_end 0 s of
        None \<Rightarrow> Some ([], s)
      | Some i \<Rightarrow> if i = 0 then None else Some (take i s, drop (Suc i) s))"

text \<open>In a host only bytes outside ASCII and the percent sign may be percent-encoded.\<close>

fun unescapeHost :: "string \<Rightarrow> string option" where
  "unescapeHost [] = Some []"
| "unescapeHost (c # s) =
     (if c = CHR ''%'' then
        (case s of
           a # b # r \<Rightarrow>
             if \<not> (ishex a \<and> ishex b) then None
             else if unhex a < 8 \<and> [a, b] \<noteq> ''25'' then None
             else map_option ((#) (char_of (16 * unhex a + unhex b))) (unescapeHost r)
         | _ \<Rightarrow> None)
      else if c < CHR 0x80 \<and> shouldEscape c encodeHost then None
      else map_option ((#) c) (unescapeHost s))"

definition parseHost :: "(string \<Rightarrow> string option) \<Rightarrow> string \<Rightarrow> string option" where
  "parseHost ip_literal host =
     (if CHR ''['' \<in> set host then ip_literal host
      else let colon = str_LastIndex host (CHR '':'')
           in if colon \<noteq> -1 \<and> \<not> validOptionalPort (drop (nat colon) host) then None else unescapeHost host)"

definition validUserinfo :: "string \<Rightarrow> bool" where
  "validUserinfo s \<longleftrightarrow> list_all (\<lambda>c. alphanum c \<or> c \<in> set ''-._:~!$&()*+,;=%@'' \<or> c = CHR 0x27) s"

definition parseAuthority ::
  "(string \<Rightarrow> string option) \<Rightarrow> string \<Rightarrow> (userinfo option \<times> string) option" where
  "parseAuthority ip_literal authority =
     (let i = str_LastIndex authority (CHR ''@'')
      in if i < 0 then map_option (Pair None) (parseHost ip_literal authority)
         else do {
           host \<leftarrow> parseHost ip_literal (drop (nat i + 1) authority);
           let ui = take (nat i) authority;
           if \<not> validUserinfo ui then None
           else if CHR '':'' \<notin> set ui then do {
             name \<leftarrow> unescape ui;
             Some (Some \<lparr>ui_Username = name, ui_Password = None\<rparr>, host)
           }
           else do {
             name \<leftarrow> unescape (fst (str_Cut (CHR '':'') ui));
             pw \<leftarrow> unescape (snd (str_Cut (CHR '':'') ui));
             Some (Some \<lparr>ui_Username = name, ui_Password = Some pw\<rparr>, host)
           }
         })"

text \<open>The part behind scheme and query: an authority when it starts with two slashes, then the path.\<close>

definition parse_hier :: "(string \<Rightarrow> string option) \<Rightarrow> url \<Rightarrow> string \<Rightarrow> url option" where
  "parse_hier ip_literal u rest =
     (if (url_Scheme u \<noteq> [] \<or> \<not> str_HasPrefix rest ''///'') \<and> str_HasPrefix rest ''//'' then do {
        let authority = takeWhile (\<lambda>c. c \<noteq> slash) (drop 2 rest);
        let path = dropWhile (\<lambda>c. c \<noteq> slash) (drop 2 rest);
        (user, host) \<leftarrow> parseAuthority ip_literal authority;
        _ \<leftarrow> unescape path;
        Some (setPath (u\<lparr>url_User := user, url_Host := host\<rparr>) path)
      }
      else do {
        _ \<leftarrow> unescape rest;
        Some (setPath (u\<lparr>url_OmitHost := (url_Scheme u \<noteq> [] \<and> str_HasPrefix rest [slash])\<rparr>) rest)
      })"

definition parse_url :: "(string \<Rightarrow> string option) \<Rightarrow> string \<Rightarrow> url option" where
  "parse_url ip_literal rawURL =
     (if ContainsCTLByte rawURL then None
      else if rawURL = ''*'' then Some (zero_url\<lparr>url_Path := ''*''\<rparr>)
      else do {
        (scheme, rest) \<leftarrow> getScheme rawURL;
        let force = (str_HasSuffix rest ''?'' \<and> count_list rest (CHR ''?'') = 1);
        let query = (if force then [] else snd (str_Cut (CHR ''?'') rest));
        let rest = (if force then butlast rest else fst (str_Cut (CHR ''?'') rest));
        let u = zero_url\<lparr>url_Scheme := map to_lower scheme, url_ForceQuery := force, url_RawQuery := query\<rparr>;
        if \<not> str_HasPrefix rest [slash] \<and> url_Scheme u \<noteq> [] then Some (u\<lparr>url_Opaque := rest\<rparr>)
        else if \<not> str_HasPrefix rest [slash] \<and> CHR '':'' \<in> set (fst (str_Cut slash rest)) then None
        else parse_hier ip_literal u rest
      })"

definition url_Parse :: "(string \<Rightarrow> string option) \<Rightarrow> string \<Rightarrow> url option" where
  "url_Parse ip_literal rawURL = do {
     let (u, frag) = str_Cut (CHR ''#'') rawURL;
     res \<leftarrow> parse_url ip_literal u;
     if frag = [] then Some res
     else do {
       d \<leftarrow> unescape frag;
       Some (res\<lparr>url_Fragment := d, url_RawFragment := (if frag = escape d encodeFragment then [] else frag)\<rparr>)
     }
   }"

lemma url_Parse_examples:
  "url_Parse Some ''HTTPS://u:p@host:8080/a%20b?q=1#f'' = Some
     \<lparr>url_Scheme = ''https'', url_Opaque = [], url_User = Some \<lparr>ui_Username = ''u'', ui_Password = Some ''p''\<rparr>,
      url_Host = ''host:8080'', url_Path = ''/a b'', url_RawPath = [], url_OmitHost = False,
      url_ForceQuery = False, url_RawQuery = ''q=1'', url_Fragment = ''f'', url_RawFragment = []\<rparr>"
  "url_Parse Some ''mailto:a@b'' = Some (zero_url\<lparr>url_Scheme := ''mailto'', url_Opaque := ''a@b''\<rparr>)"
  "url_Parse Some ''://host'' = None"
  "url_Parse Some ''https://host:port/'' = None"
  "url_Parse Some ''https://host/%zz'' = None"
  "url_Parse Some ''1a:b'' = None"
  by code_simp+

section \<open>Reading a plain URL\<close>

definition host_char :: "char \<Rightarrow> bool" where
  "host_char c \<longleftrightarrow> alphanum c \<or> c \<in> set ''-._''"

text \<open>A lower-case scheme, and a host name with an optional port.\<close>

definition plain_origin :: "string \<Rightarrow> string \<Rightarrow> string \<Rightarrow> bool" where
  "plain_origin scheme name port \<longleftrightarrow>
     scheme \<noteq> [] \<and> list_all (\<lambda>c. CHR ''a'' \<le> c \<and> c \<le> CHR ''z'') scheme \<and>
     name \<noteq> [] \<and> list_all host_char name \<and> validOptionalPort port"

lemma control_escaped:
  assumes "c < CHR '' ''"
  shows "shouldEscape c mode"
proof -
  have "list_all (\<lambda>n. list_all (shouldEscape (char_of n)) [encodePath, encodeHost, encodeUserPassword, encodeFragment])
      [0..<32]"
    by code_simp
  moreover have "of_char c < (32 :: nat)" using assms by (simp add: less_char_def)
  ultimately have "list_all (shouldEscape (char_of (of_char c :: nat)))
      [encodePath, encodeHost, encodeUserPassword, encodeFragment]"
    unfolding list_all_iff [of _ "[0..<32]"] by (metis atLeastLessThan_iff le0 set_upt)
  then show ?thesis by (cases mode) simp_all
qed

lemma host_char_safe:
  assumes "host_char c"
  shows "\<not> shouldEscape c mode" and "\<not> c < CHR '' ''" and "c \<notin> set (CHR 0x7F # ''#/%@:[?'')"
proof -
  show safe: "\<not> shouldEscape c mode" for mode using assms by (auto simp: host_char_def shouldEscape_def)
  then show "\<not> c < CHR '' ''" using control_escaped by blast
  have "list_all (\<lambda>d. \<not> host_char d) (CHR 0x7F # ''#/%@:[?'')" by code_simp
  then show "c \<notin> set (CHR 0x7F # ''#/%@:[?'')" using assms unfolding list_all_iff by blast
qed

lemma path_char_safe:
  assumes "\<not> shouldEscape c encodePath"
  shows "\<not> c < CHR '' ''" and "c \<notin> set (CHR 0x7F # ''#?'')"
proof -
  show "\<not> c < CHR '' ''" using assms control_escaped by blast
  have "list_all (\<lambda>d. shouldEscape d encodePath) (CHR 0x7F # ''#?'')" by code_simp
  then show "c \<notin> set (CHR 0x7F # ''#?'')" using assms unfolding list_all_iff by blast
qed

lemma lower_char_safe:
  assumes "CHR ''a'' \<le> c" and "c \<le> CHR ''z''"
  shows "host_char c" and "letter c" and "to_lower c = c"
  using assms
  by (auto simp: host_char_def alphanum_def letter_def to_lower_def less_eq_char_def)

lemma digit_char_safe:
  assumes "CHR ''0'' \<le> c" and "c \<le> CHR ''9''"
  shows "host_char c"
  using assms by (simp add: host_char_def alphanum_def)

lemma scheme_end_letters:
  "list_all letter s \<Longrightarrow> scheme_end i (s @ CHR '':'' # r) = Some (i + length s)"
  by (induction s arbitrary: i) (simp_all add: letter_def less_eq_char_def)

lemma getScheme_letters:
  "list_all letter s \<Longrightarrow> s \<noteq> [] \<Longrightarrow> getScheme (s @ CHR '':'' # r) = Some (s, r)"
  by (simp add: getScheme_def scheme_end_letters)

lemma str_Cut_none: "c \<notin> set s \<Longrightarrow> str_Cut c s = (s, [])"
  by (induction s) (auto simp: str_Cut_def)

lemma no_suffix: "c \<notin> set s \<Longrightarrow> \<not> str_HasSuffix s [c]"
  by (auto simp: str_HasSuffix_def suffix_def)

lemma str_Cut_append: "c \<notin> set s \<Longrightarrow> str_Cut c (s @ c # t) = (s, t)"
  by (induction s) (auto simp: str_Cut_def)

lemma unescapeHost_safe:
  "list_all (\<lambda>c. c \<noteq> CHR ''%'' \<and> \<not> shouldEscape c encodeHost) s \<Longrightarrow> unescapeHost s = Some s"
  by (induction s) auto

text \<open>The port of a plain origin, and the host it makes with the name.\<close>

lemma plain_port_cases:
  assumes "plain_origin scheme name port"
  obtains "port = []" | ds where "port = CHR '':'' # ds" and "list_all host_char ds"
  using assms digit_char_safe
  by (cases port) (auto simp: plain_origin_def validOptionalPort_def list_all_iff)

lemma parseHost_plain:
  assumes "plain_origin scheme name port"
  shows "parseHost ip (name @ port) = Some (name @ port)"
proof -
  have name: "list_all host_char name" using assms by (simp add: plain_origin_def)
  have colon: "CHR '':'' \<notin> set s" "CHR ''['' \<notin> set s" if "list_all host_char s" for s
    using that host_char_safe(3) by (auto simp: list_all_iff)
  have safe: "list_all (\<lambda>c. c \<noteq> CHR ''%'' \<and> \<not> shouldEscape c encodeHost) s" if "list_all host_char s" for s
    using that host_char_safe(1,3) unfolding list_all_iff by force
  show ?thesis
    using assms
  proof (cases rule: plain_port_cases)
    case 1
    then show ?thesis using colon [OF name] unescapeHost_safe [OF safe [OF name]] by (simp add: parseHost_def str_simps)
  next
    case (2 ds)
    have "unescapeHost (name @ port) = Some (name @ port)"
    proof (rule unescapeHost_safe)
      have "\<not> shouldEscape (CHR '':'') encodeHost" by (simp add: shouldEscape_def)
      then show "list_all (\<lambda>c. c \<noteq> CHR ''%'' \<and> \<not> shouldEscape c encodeHost) (name @ port)"
        using safe [OF name] safe [OF 2(2)] by (simp add: 2(1))
    qed
    moreover have "str_LastIndex (name @ port) (CHR '':'') = int (length name)"
      unfolding 2(1) by (rule str_LastIndex_append [OF colon(1) [OF 2(2)]])
    ultimately show ?thesis
      using assms colon [OF name] colon [OF 2(2)] 2
      by (simp add: parseHost_def plain_origin_def)
  qed
qed

lemma host_no_sep:
  assumes "plain_origin scheme name port" and "c \<in> set ''#/@?''"
  shows "c \<notin> set (name @ port)"
proof -
  have free: "c \<notin> set s" if "list_all host_char s" for s
    using that assms(2) host_char_safe(3) by (auto simp: list_all_iff)
  from assms(1) show ?thesis
    by (cases rule: plain_port_cases) (use assms free in \<open>auto simp: plain_origin_def\<close>)
qed

lemma parseAuthority_plain:
  assumes "plain_origin scheme name port"
  shows "parseAuthority ip (name @ port) = Some (None, name @ port)"
  using host_no_sep [OF assms, of "CHR ''@''"]
  by (simp add: parseAuthority_def str_simps parseHost_plain [OF assms])

text \<open>Nothing in the text of a plain URL is a control character, a query or a fragment.\<close>

definition origin_text :: "string \<Rightarrow> string \<Rightarrow> string \<Rightarrow> string list \<Rightarrow> string" where
  "origin_text scheme name port segs = scheme @ ''://'' @ name @ port @ abs_path segs"

lemma origin_text_chars:
  assumes "plain_origin scheme name port" and "list_all plain_segment segs"
  shows "list_all (\<lambda>c. \<not> c < CHR '' '' \<and> c \<notin> set (CHR 0x7F # ''#?'')) (origin_text scheme name port segs)"
proof -
  have host: "list_all (\<lambda>c. \<not> c < CHR '' '' \<and> c \<notin> set (CHR 0x7F # ''#?'')) s" if "list_all host_char s" for s
    using that host_char_safe(2,3) by (auto simp: list_all_iff)
  have "list_all host_char scheme" using assms(1) lower_char_safe(1) by (auto simp: plain_origin_def list_all_iff)
  moreover have "list_all (\<lambda>c. \<not> c < CHR '' '' \<and> c \<notin> set (CHR 0x7F # ''#?'')) port"
    using assms(1) by (cases rule: plain_port_cases) (use host in \<open>auto simp: less_char_def\<close>)
  moreover have "list_all (\<lambda>c. \<not> c < CHR '' '' \<and> c \<notin> set (CHR 0x7F # ''#?'')) (abs_path segs)"
    using abs_path_safe [OF assms(2)] path_char_safe by (auto simp: list_all_iff)
  moreover have "list_all host_char name" using assms(1) by (simp add: plain_origin_def)
  ultimately show ?thesis
    using host by (simp add: origin_text_def less_char_def)
qed

lemma takeWhile_path:
  assumes "slash \<notin> set host"
  shows "takeWhile (\<lambda>c. c \<noteq> slash) (host @ abs_path segs) = host"
    and "dropWhile (\<lambda>c. c \<noteq> slash) (host @ abs_path segs) = abs_path segs"
proof -
  have "takeWhile (\<lambda>c. c \<noteq> slash) (abs_path segs) = []" "dropWhile (\<lambda>c. c \<noteq> slash) (abs_path segs) = abs_path segs"
    by (cases segs; simp add: url_simps)+
  moreover have "\<forall>c\<in>set host. c \<noteq> slash" using assms by auto
  ultimately show "takeWhile (\<lambda>c. c \<noteq> slash) (host @ abs_path segs) = host"
    "dropWhile (\<lambda>c. c \<noteq> slash) (host @ abs_path segs) = abs_path segs"
    by (simp_all add: takeWhile_append2 dropWhile_append2)
qed

definition read_url :: "string \<Rightarrow> string \<Rightarrow> string \<Rightarrow> string list \<Rightarrow> url" where
  "read_url scheme name port segs =
     zero_url\<lparr>url_Scheme := scheme, url_Host := name @ port, url_Path := abs_path segs\<rparr>"

lemma url_Parse_plain:
  assumes "plain_origin scheme name port" and "list_all plain_segment segs"
  shows "url_Parse ip (origin_text scheme name port segs) = Some (read_url scheme name port segs)"
proof -
  let ?t = "origin_text scheme name port segs" and ?rest = "''//'' @ (name @ port) @ abs_path segs"
  have none: "CHR ''#'' \<notin> set ?t" "CHR ''?'' \<notin> set ?t" "\<not> ContainsCTLByte ?t"
    using origin_text_chars [OF assms] by (auto simp: list_all_iff ContainsCTLByte_def list_ex_iff)
  have scheme: "list_all letter scheme" "map to_lower scheme = scheme" "scheme \<noteq> []"
    using assms(1) lower_char_safe(2,3) by (auto simp: plain_origin_def list_all_iff intro!: map_idI)
  have t: "?t = scheme @ CHR '':'' # ?rest" by (simp add: origin_text_def)
  have get: "getScheme ?t = Some (scheme, ?rest)" unfolding t by (rule getScheme_letters [OF scheme(1,3)])
  have q: "CHR ''?'' \<notin> set ?rest" using none(2) unfolding t by simp
  then have cut: "str_Cut (CHR ''?'') ?rest = (?rest, [])" "\<not> str_HasSuffix ?rest ''?''"
    using no_suffix by (simp_all only: str_Cut_none not_False_eq_True)
  have safe: "unescape (abs_path segs) = Some (abs_path segs)"
    by (rule path_safe_decode(2) [OF abs_path_safe [OF assms(2)]])
  have "parse_hier ip (zero_url\<lparr>url_Scheme := scheme\<rparr>) ?rest = Some (read_url scheme name port segs)"
    using scheme(3) takeWhile_path [OF host_no_sep [OF assms(1)]] setPath_safe [OF abs_path_safe [OF assms(2)]]
    by (simp add: parse_hier_def str_HasPrefix_def parseAuthority_plain [OF assms(1), simplified] safe read_url_def zero_url_def)
  moreover have "?t \<noteq> ''*''" by (auto simp: origin_text_def dest: arg_cong [of _ _ length])
  ultimately have "parse_url ip ?t = Some (read_url scheme name port segs)"
    using none(3) get cut scheme by (simp add: parse_url_def str_HasPrefix_def zero_url_def)
  then show ?thesis by (simp add: url_Parse_def str_Cut_none [OF none(1)])
qed

section \<open>Joining and printing\<close>

text \<open>A URL without a path: the joined path is relative, and printing puts the slash before it.\<close>

definition rel_path :: "string list \<Rightarrow> string" where
  "rel_path segs = drop 1 (abs_path segs)"

lemma rel_path_simps:
  "segs \<noteq> [] \<Longrightarrow> slash # rel_path segs = abs_path segs" "rel_path [] = []"
  by (cases segs; simp add: rel_path_def url_simps)+

lemma Clean_double_slash:
  assumes "list_all plain_segment segs" and "segs \<noteq> []"
  shows "path_Clean (slash # abs_path segs) = abs_path segs"
  using split_on_segments [OF plain_no_slash [OF assms(1)], of "[]"] assms
  by (simp add: path_Clean_def Let_def foldl_clean_plain abs_path_Join)

lemma path_Join_root:
  assumes "list_all plain_segment segs" and "list_all plain_segment es" and "es \<noteq> []"
  shows "path_Join ((slash # rel_path segs) # es) = abs_path (segs @ es)"
proof (cases "segs = []")
  case True
  have "str_Join ([slash] # es) [slash] = slash # abs_path es"
    using abs_path_Join [OF assms(3)] assms(3) by (cases es) simp_all
  then show ?thesis
    using Clean_double_slash [OF assms(2,3)] True by (simp add: path_Join_def rel_path_simps)
next
  case False
  then have "abs_path segs \<noteq> []" by (cases segs) (simp_all add: url_simps)
  then show ?thesis
    using False Clean_abs_path(1) [of "segs @ es"] assms str_Join_abs_path [OF False]
    by (simp add: path_Join_def rel_path_simps)
qed

lemma rel_path_safe:
  assumes "list_all plain_segment segs"
  shows "list_all (\<lambda>c. \<not> shouldEscape c encodePath) (rel_path segs)" and "\<not> str_HasPrefix (rel_path segs) [slash]"
    and "rel_path segs \<noteq> ''*''"
proof -
  show safe: "list_all (\<lambda>c. \<not> shouldEscape c encodePath) (rel_path segs)"
    using abs_path_safe [OF assms] by (auto simp: rel_path_def list_all_iff dest: in_set_dropD)
  show "\<not> str_HasPrefix (rel_path segs) [slash]"
    using assms by (cases segs) (auto simp: rel_path_def url_simps str_HasPrefix_def plain_segment_def prefix_def
        append_eq_Cons_conv)
  have "shouldEscape (CHR ''*'') encodePath" by code_simp
  then show "rel_path segs \<noteq> ''*''" using safe by auto
qed

lemma JoinPath_rel:
  assumes "url_Path u = rel_path segs" and "url_RawPath u = []"
    and "list_all plain_segment segs" and "list_all plain_segment es" and "es \<noteq> []"
  shows "JoinPath u es = u\<lparr>url_Path := rel_path (segs @ es), url_RawPath := []\<rparr>"
proof -
  have segs: "list_all plain_segment (segs @ es)" using assms(3,4) by simp
  have "EscapedPath u = rel_path segs"
    using assms(1,2) rel_path_safe(3) [OF assms(3)] path_safe_decode(1) [OF rel_path_safe(1) [OF assms(3)]]
    by (simp add: EscapedPath_def)
  moreover have "\<not> suffix [slash] (last (rel_path segs # es))" using assms(4,5) plain_last_no_slash by simp
  ultimately show ?thesis
    using rel_path_safe(2) [OF assms(3)] path_Join_root [OF assms(3-5)] setPath_safe [OF rel_path_safe(1) [OF segs]]
    by (simp add: JoinPath_def str_HasSuffix_def rel_path_def)
qed

lemma url_String_rel:
  assumes "url_Path u = rel_path segs" and "url_RawPath u = []" and "list_all plain_segment segs"
    and "segs \<noteq> []" and "url_Scheme u \<noteq> []" and "url_Opaque u = []"
    and "url_Host u \<noteq> []" and "url_User u = None" and "\<not> url_ForceQuery u"
    and "url_RawQuery u = []" and "url_Fragment u = []"
  shows "url_String u = url_Scheme u @ ''://'' @ escape (url_Host u) encodeHost @ abs_path segs"
proof -
  have "EscapedPath u = rel_path segs"
    using assms(1,2) rel_path_safe(3) [OF assms(3)] path_safe_decode(1) [OF rel_path_safe(1) [OF assms(3)]]
    by (simp add: EscapedPath_def)
  moreover have "rel_path segs \<noteq> [] \<and> hd (rel_path segs) \<noteq> slash"
  proof -
    obtain s ss where segs: "segs = s # ss" using assms(4) by (cases segs) auto
    then have "s \<noteq> []" "slash \<notin> set s" using assms(3) by (simp_all add: plain_segment_def)
    then show ?thesis by (cases s) (auto simp: segs rel_path_def url_simps)
  qed
  ultimately show ?thesis
    using assms(5-) rel_path_simps(1) [OF assms(4)] by (simp add: url_String_def)
qed

lemma plain_host_escape:
  assumes "plain_origin scheme name port"
  shows "escape (name @ port) encodeHost = name @ port"
proof (rule escape_safe)
  have free: "list_all (\<lambda>c. \<not> shouldEscape c encodeHost) s" if "list_all host_char s" for s
    using that host_char_safe(1) by (simp add: list_all_iff)
  have "\<not> shouldEscape (CHR '':'') encodeHost" by code_simp
  then show "list_all (\<lambda>c. \<not> shouldEscape c encodeHost) (name @ port)"
    using assms free by (cases rule: plain_port_cases [OF assms]) (simp_all add: plain_origin_def)
qed

text \<open>Joining segments to a parsed URL, in one or several steps, puts them behind its text.\<close>

definition url_at :: "url \<Rightarrow> string \<Rightarrow> string \<Rightarrow> string \<Rightarrow> string list \<Rightarrow> bool" where
  "url_at u scheme name port segs \<longleftrightarrow>
     list_all plain_segment segs \<and>
     (\<exists>path. (path = abs_path segs \<and> segs \<noteq> [] \<or> path = rel_path segs) \<and>
        u = zero_url\<lparr>url_Scheme := scheme, url_Host := name @ port, url_Path := path\<rparr>)"

lemma read_url_at: "list_all plain_segment segs \<Longrightarrow> url_at (read_url scheme name port segs) scheme name port segs"
  by (cases "segs = []") (auto simp: url_at_def read_url_def rel_path_def url_simps)

lemma JoinPath_at:
  assumes "url_at u scheme name port segs" and "list_all plain_segment es" and "es \<noteq> []"
  shows "url_at (JoinPath u es) scheme name port (segs @ es)"
proof -
  obtain path where path: "path = abs_path segs \<and> segs \<noteq> [] \<or> path = rel_path segs"
    and u: "u = zero_url\<lparr>url_Scheme := scheme, url_Host := name @ port, url_Path := path\<rparr>"
    and segs: "list_all plain_segment segs"
    using assms(1) unfolding url_at_def by blast
  from path show ?thesis
  proof
    assume "path = abs_path segs \<and> segs \<noteq> []"
    then have "plain_url u segs" using segs by (simp add: plain_url_def u zero_url_def)
    from JoinPath_plain [OF this assms(2,3)] show ?thesis
      using segs assms(2,3) by (simp add: url_at_def u zero_url_def)
  next
    assume "path = rel_path segs"
    then have "url_Path u = rel_path segs" "url_RawPath u = []" by (simp_all add: u zero_url_def)
    from JoinPath_rel [OF this segs assms(2,3)] show ?thesis
      using segs assms(2) by (simp add: url_at_def u zero_url_def)
  qed
qed

lemma url_String_at:
  assumes "url_at u scheme name port segs" and "plain_origin scheme name port" and "segs \<noteq> []"
  shows "url_String u = origin_text scheme name port segs"
proof -
  obtain path where path: "path = abs_path segs \<or> path = rel_path segs"
    and u: "u = zero_url\<lparr>url_Scheme := scheme, url_Host := name @ port, url_Path := path\<rparr>"
    and segs: "list_all plain_segment segs"
    using assms(1) unfolding url_at_def by blast
  note parts = assms(2) [unfolded plain_origin_def] plain_host_escape [OF assms(2)]
  from path show ?thesis
  proof
    assume "path = abs_path segs"
    then have "plain_url u segs" using segs assms(3) by (simp add: plain_url_def u zero_url_def)
    from url_String_plain [OF this] show ?thesis using parts by (simp add: u zero_url_def origin_text_def)
  next
    assume "path = rel_path segs"
    then have "url_Path u = rel_path segs" "url_RawPath u = []" by (simp_all add: u zero_url_def)
    from url_String_rel [OF this segs assms(3)] show ?thesis using parts by (simp add: u zero_url_def origin_text_def)
  qed
qed

end
