(* ===== verification/Conversion.thy ===== *)
theory Conversion
  imports BetaTypes GoTime URLParse
begin

text \<open>
  The conversion between the versions, \<open>api/v2beta1/atom_conversion.go\<close>. \<open>ToV3\<close> writes into a
  destination that it is given, and leaves it partly written when a URL does not parse; the model
  takes the destination and returns it. \<open>ConvertFrom\<close> returns no errors but dereferences optional
  fields, so it may panic.

  The helpers of smooth-operator, the texts of floating point numbers and the reading of an IP literal
  in a URL are parameters (\<open>conv_libs\<close>).
\<close>

record conv_libs =
  ParseURL :: "string \<Rightarrow> go_error + url"
  IPLiteral :: "string \<Rightarrow> string option"
  Pointer_of :: "string \<Rightarrow> string option"
  PointerVal :: "string option \<Rightarrow> string \<Rightarrow> string"
  FormatFloat32 :: "float32 \<Rightarrow> string"
  ParseFloat32 :: "string \<Rightarrow> float32"

section \<open>Small helpers\<close>

definition GetInt32Pointer :: "32 word \<Rightarrow> 32 word option" where
  "GetInt32Pointer value = Some value"

definition GetIntPointer :: "64 word \<Rightarrow> 64 word option" where
  "GetIntPointer value = Some value"

definition GetFloat32AsString :: "conv_libs \<Rightarrow> float32 \<Rightarrow> string" where
  "GetFloat32AsString V value = FormatFloat32 V value"

definition GetStringAsFloat32 :: "conv_libs \<Rightarrow> string \<Rightarrow> float32" where
  "GetStringAsFloat32 V value = ParseFloat32 V value"

definition createBaseURL :: "conv_libs \<Rightarrow> string \<Rightarrow> General \<Rightarrow> go_error + URL" where
  "createBaseURL V host general =
     (case url_Parse (IPLiteral V) host of
        None \<Rightarrow> Inl (ErrLib ''url.Parse'')
      | Some baseURL \<Rightarrow>
          (let baseURL = JoinPath baseURL [ge_DatasetOwner general, ge_Dataset general];
               baseURL = (case ge_Theme general of None \<Rightarrow> baseURL | Some theme \<Rightarrow> JoinPath baseURL [theme]);
               baseURL = JoinPath baseURL [''atom''];
               baseURL = (case ge_ServiceVersion general of
                            None \<Rightarrow> baseURL | Some version \<Rightarrow> JoinPath baseURL [version])
           in Inr (Some baseURL)))"

text \<open>A loop that returns the first error of its body, and otherwise appends one result per element.\<close>

fun err_map :: "(nat \<Rightarrow> 'a \<Rightarrow> go_error + 'b) \<Rightarrow> nat \<Rightarrow> 'a list \<Rightarrow> go_error + 'b list" where
  "err_map f i [] = Inr []"
| "err_map f i (x # xs) =
     (case f i x of
        Inl err \<Rightarrow> Inl err
      | Inr y \<Rightarrow> (case err_map f (Suc i) xs of Inl err \<Rightarrow> Inl err | Inr ys \<Rightarrow> Inr (y # ys)))"

lemma err_map_eq_Inr:
  "err_map f i xs = Inr ys \<longleftrightarrow>
     length ys = length xs \<and> (\<forall>j<length xs. f (i + j) (xs ! j) = Inr (ys ! j))"
proof (induction xs arbitrary: i ys)
  case Nil
  then show ?case by auto
next
  case (Cons x xs)
  have step: "err_map f i (x # xs) = Inr ys \<longleftrightarrow>
      (\<exists>y ys'. ys = y # ys' \<and> f i x = Inr y \<and> err_map f (Suc i) xs = Inr ys')"
    by (auto split: sum.splits)
  show ?case
    unfolding step Cons.IH by (cases ys) (auto simp: All_less_Suc2)
qed

section \<open>From v2beta1 to v3\<close>

definition bbox_toV3 :: "conv_libs \<Rightarrow> BetaBbox \<Rightarrow> BBox" where
  "bbox_toV3 V b =
     \<lparr>bb_MinX = GetFloat32AsString V (bx_Minx b), bb_MinY = GetFloat32AsString V (bx_Miny b),
      bb_MaxX = GetFloat32AsString V (bx_Maxx b), bb_MaxY = GetFloat32AsString V (bx_Maxy b)\<rparr>"

definition link_toV3 :: "conv_libs \<Rightarrow> nat \<Rightarrow> OtherLink \<Rightarrow> go_error + Link" where
  "link_toV3 V i srcLink =
     (case ParseURL V (ol_URI srcLink) of
        Inl err \<Rightarrow> Inl err
      | Inr href \<Rightarrow>
          Inr \<lparr>ln_Href = Some href, ln_Rel = ''describedby'',
               ln_Type = (case ol_ContentType srcLink of None \<Rightarrow> [] | Some t \<Rightarrow> t),
               ln_Hreflang = ol_Language srcLink, ln_Title = Some (ol_Type srcLink)\<rparr>)"

definition downloadLink_toV3 :: "conv_libs \<Rightarrow> BetaLink \<Rightarrow> DownloadLink" where
  "downloadLink_toV3 V srcLink =
     \<lparr>dl_Data = (case li_BlobKey srcLink of None \<Rightarrow> [] | Some k \<Rightarrow> k),
      dl_Rel = li_Rel srcLink,
      dl_Time = li_Updated srcLink,
      dl_BBox = map_option (bbox_toV3 V) (li_Bbox srcLink)\<rparr>"

text \<open>The time stamp of an entry: its own, or the service's, or now when it does not parse.\<close>

definition updated_toV3 :: "Time \<Rightarrow> AtomService \<Rightarrow> Download \<Rightarrow> Time" where
  "updated_toV3 now service srcDownload =
     (let updated = (case do_Updated srcDownload of
                       Some u \<Rightarrow> u
                     | None \<Rightarrow> (case be_Updated service of Some u \<Rightarrow> u | None \<Rightarrow> []))
      in case time_Parse updated of None \<Rightarrow> now | Some t \<Rightarrow> t)"

definition entry_toV3 ::
  "conv_libs \<Rightarrow> (nat \<Rightarrow> Time) \<Rightarrow> AtomService \<Rightarrow> Dataset \<Rightarrow> nat \<Rightarrow> Download \<Rightarrow> go_error + Entry" where
  "entry_toV3 V now service srcDataset i srcDownload =
     (case ParseURL V (sr_URI (do_Srs srcDownload)) of
        Inl err \<Rightarrow> Inl err
      | Inr uri \<Rightarrow>
          Inr \<lparr>en_TechnicalName = do_Name srcDownload,
               en_Title = do_Title srcDownload,
               en_Content = do_Content srcDownload,
               en_DownloadLinks = map (downloadLink_toV3 V) (do_Links srcDownload),
               en_Updated = updated_toV3 (now i) service srcDownload,
               en_Polygon = \<lparr>pg_BBox = bbox_toV3 V (ds_Bbox srcDataset)\<rparr>,
               en_SRS = \<lparr>srs_URI = Some uri, srs_Name = sr_Code (do_Srs srcDownload)\<rparr>\<rparr>)"

text \<open>The feed of a dataset, from its converted links and downloads.\<close>

definition dataset_feed ::
  "conv_libs \<Rightarrow> AtomService \<Rightarrow> Dataset \<Rightarrow> Link list \<Rightarrow> Entry list \<Rightarrow> DatasetFeed" where
  "dataset_feed V service srcDataset links entries =
     \<lparr>df_TechnicalName = ds_Name srcDataset,
      df_Title = ds_Title srcDataset,
      df_Subtitle = ds_Subtitle srcDataset,
      df_DatasetMetadataLinks = Some
        \<lparr>ml_MetadataIdentifier = ds_MetadataIdentifier srcDataset, ml_Templates = [''csw'', ''html'']\<rparr>,
      df_Links = links,
      df_Author = \<lparr>au_Name = ba_Name (be_Author service), au_Email = ba_Email (be_Author service)\<rparr>,
      df_SpatialDatasetIdentifierCode = Pointer_of V (ds_SourceIdentifier srcDataset),
      df_SpatialDatasetIdentifierNamespace = Pointer_of V ''http://www.pdok.nl'',
      df_Entries = entries\<rparr>"

definition dataset_toV3 ::
  "conv_libs \<Rightarrow> (nat \<Rightarrow> nat \<Rightarrow> Time) \<Rightarrow> AtomService \<Rightarrow> nat \<Rightarrow> Dataset \<Rightarrow> go_error + DatasetFeed" where
  "dataset_toV3 V now service i srcDataset =
     (case err_map (link_toV3 V) 0 (ds_Links srcDataset) of
        Inl err \<Rightarrow> Inl err
      | Inr links \<Rightarrow>
          (case err_map (entry_toV3 V (now i) service srcDataset) 0 (ds_Downloads srcDataset) of
             Inl err \<Rightarrow> Inl err
           | Inr entries \<Rightarrow> Inr (dataset_feed V service srcDataset links entries)))"

text \<open>The loop over the datasets: the feeds converted before the first error stay in the destination.\<close>

fun datasets_toV3 ::
  "conv_libs \<Rightarrow> (nat \<Rightarrow> nat \<Rightarrow> Time) \<Rightarrow> AtomService \<Rightarrow> nat \<Rightarrow> Dataset list \<Rightarrow> DatasetFeed list \<Rightarrow>
   go_error option \<times> DatasetFeed list"
where
  "datasets_toV3 V now service i [] feeds = (None, feeds)"
| "datasets_toV3 V now service i (srcDataset # srcDatasets) feeds =
     (case dataset_toV3 V now service i srcDataset of
        Inl err \<Rightarrow> (Some err, feeds)
      | Inr feed \<Rightarrow> datasets_toV3 V now service (Suc i) srcDatasets (feeds @ [feed]))"

definition service_toV3 :: "URL \<Rightarrow> AtomService \<Rightarrow> Service" where
  "service_toV3 baseURL src =
     \<lparr>sv_BaseURL = baseURL, sv_Lang = ''nl'', sv_Stylesheet = None, sv_Title = be_Title src,
      sv_Subtitle = be_Subtitle src, sv_OwnerInfoRef = ''pdok'',
      sv_ServiceMetadataLinks = Some
        \<lparr>ml_MetadataIdentifier = be_MetadataIdentifier src, ml_Templates = [''csw'', ''opensearch'', ''html'']\<rparr>,
      sv_Links = [], sv_Rights = be_Rights src, sv_DatasetFeeds = []\<rparr>"

text \<open>\<open>a.Spec.Kubernetes.Lifecycle.TTLInDays\<close> when all three pointers are set.\<close>

definition beta_ttl :: "BetaAtom \<Rightarrow> 64 word option" where
  "beta_ttl a =
     (case bs_Kubernetes (bt_Spec a) of
        None \<Rightarrow> None
      | Some k \<Rightarrow> (case bk_Lifecycle k of None \<Rightarrow> None | Some l \<Rightarrow> bl_TTLInDays l))"

definition ToV3 ::
  "conv_libs \<Rightarrow> api_vars \<Rightarrow> (nat \<Rightarrow> nat \<Rightarrow> Time) \<Rightarrow> BetaAtom \<Rightarrow> Atom \<Rightarrow> go_error option \<times> Atom" where
  "ToV3 V vars now a dst =
     (let dst = dst\<lparr>at_ObjectMeta := bt_ObjectMeta a\<rparr>;
          dst = (case beta_ttl a of
                   None \<Rightarrow> dst
                 | Some ttl \<Rightarrow> dst\<lparr>at_Spec := (at_Spec dst)\<lparr>as_Lifecycle :=
                     Some \<lparr>lc_TTLInDays = GetInt32Pointer (ucast ttl)\<rparr>\<rparr>\<rparr>)
      in case createBaseURL V (GetBaseURL vars) (bs_General (bt_Spec a)) of
           Inl err \<Rightarrow> (Some err, dst)
         | Inr baseURL \<Rightarrow>
             (case datasets_toV3 V now (bt_Service a) 0 (be_Datasets (bt_Service a)) [] of
                (err, feeds) \<Rightarrow>
                  (err, dst\<lparr>at_Spec := (at_Spec dst)\<lparr>as_Service :=
                     (service_toV3 baseURL (bt_Service a))\<lparr>sv_DatasetFeeds := feeds\<rparr>\<rparr>\<rparr>)))"

definition ConvertTo ::
  "conv_libs \<Rightarrow> api_vars \<Rightarrow> (nat \<Rightarrow> nat \<Rightarrow> Time) \<Rightarrow> BetaAtom \<Rightarrow> Atom \<Rightarrow> go_error option \<times> Atom" where
  "ConvertTo V vars now a dst = ToV3 V vars now a dst"

section \<open>From v3 to v2beta1\<close>

definition bbox_fromV3 :: "conv_libs \<Rightarrow> BBox \<Rightarrow> BetaBbox" where
  "bbox_fromV3 V b =
     \<lparr>bx_Minx = GetStringAsFloat32 V (bb_MinX b), bx_Maxx = GetStringAsFloat32 V (bb_MaxX b),
      bx_Miny = GetStringAsFloat32 V (bb_MinY b), bx_Maxy = GetStringAsFloat32 V (bb_MaxY b)\<rparr>"

definition link_fromV3 :: "conv_libs \<Rightarrow> Link \<Rightarrow> OtherLink go" where
  "link_fromV3 V srcLink =
     go_bind (deref (ln_Href srcLink)) (\<lambda>href.
     Ret \<lparr>ol_Type = PointerVal V (ln_Title srcLink) [], ol_URI = url_String href,
          ol_ContentType = Some (ln_Type srcLink), ol_Language = ln_Hreflang srcLink\<rparr>)"

definition downloadLink_fromV3 :: "conv_libs \<Rightarrow> DownloadLink \<Rightarrow> BetaLink" where
  "downloadLink_fromV3 V srcDownloadLink =
     \<lparr>li_BlobKey = Some (dl_Data srcDownloadLink),
      li_Updated = dl_Time srcDownloadLink,
      li_Version = None,
      li_Bbox = map_option (bbox_fromV3 V) (dl_BBox srcDownloadLink),
      li_Rel = (if dl_Rel srcDownloadLink \<noteq> None \<and> dl_Rel srcDownloadLink \<noteq> Some []
                then dl_Rel srcDownloadLink else None)\<rparr>"

definition entry_fromV3 :: "conv_libs \<Rightarrow> Entry \<Rightarrow> Download go" where
  "entry_fromV3 V srcEntry =
     go_bind (deref (srs_URI (en_SRS srcEntry))) (\<lambda>uri.
     Ret \<lparr>do_Name = en_TechnicalName srcEntry, do_Title = en_Title srcEntry,
          do_Updated = Some (FormatRFC3339 (en_Updated srcEntry)), do_Content = en_Content srcEntry,
          do_Links = map (downloadLink_fromV3 V) (en_DownloadLinks srcEntry),
          do_Srs = \<lparr>sr_URI = url_String uri, sr_Code = srs_Name (en_SRS srcEntry)\<rparr>\<rparr>)"

definition feed_fromV3 :: "conv_libs \<Rightarrow> DatasetFeed \<Rightarrow> Dataset go" where
  "feed_fromV3 V srcDatasetFeed =
     go_bind (deref (df_DatasetMetadataLinks srcDatasetFeed)) (\<lambda>metadataLinks.
     go_bind (go_map (link_fromV3 V) (df_Links srcDatasetFeed)) (\<lambda>links.
     go_bind (go_map (entry_fromV3 V) (df_Entries srcDatasetFeed)) (\<lambda>downloads.
     Ret \<lparr>ds_Name = df_TechnicalName srcDatasetFeed, ds_Title = df_Title srcDatasetFeed,
          ds_Subtitle = df_Subtitle srcDatasetFeed,
          ds_MetadataIdentifier = ml_MetadataIdentifier metadataLinks,
          ds_SourceIdentifier = PointerVal V (df_SpatialDatasetIdentifierCode srcDatasetFeed) [],
          ds_Links = links, ds_Downloads = downloads,
          ds_Bbox = (case df_Entries srcDatasetFeed of
             [] \<Rightarrow> zero_Bbox | first # _ \<Rightarrow> bbox_fromV3 V (pg_BBox (en_Polygon first)))\<rparr>)))"

definition general_fromV3 :: "labels \<Rightarrow> General" where
  "general_fromV3 labels =
     \<lparr>ge_Dataset = (case labels ''dataset'' of None \<Rightarrow> [] | Some v \<Rightarrow> v),
      ge_Theme = labels ''theme'',
      ge_DatasetOwner = (case labels ''dataset-owner'' of None \<Rightarrow> [] | Some v \<Rightarrow> v),
      ge_ServiceVersion = labels ''service-version'',
      ge_DataVersion = None\<rparr>"

definition kubernetes_fromV3 :: "Lifecycle option \<Rightarrow> Kubernetes" where
  "kubernetes_fromV3 lifecycle =
     \<lparr>bk_Autoscaling = None, bk_HealthCheck = None, bk_Resources = None,
      bk_Lifecycle = Some \<lparr>bl_TTLInDays =
        (case lifecycle of
           None \<Rightarrow> None
         | Some l \<Rightarrow> (case lc_TTLInDays l of None \<Rightarrow> None | Some ttl \<Rightarrow> GetIntPointer (scast ttl)))\<rparr>\<rparr>"

definition ConvertFrom :: "conv_libs \<Rightarrow> Atom \<Rightarrow> BetaAtom \<Rightarrow> BetaAtom go" where
  "ConvertFrom V src a =
     go_bind (deref (sv_ServiceMetadataLinks (at_Service src))) (\<lambda>serviceMetadataLinks.
     go_bind (go_map (feed_fromV3 V) (at_DatasetFeeds src)) (\<lambda>datasets.
     Ret (a\<lparr>bt_ObjectMeta := at_ObjectMeta src,
            bt_Spec :=
              \<lparr>bs_General = general_fromV3 (at_Labels src),
               bs_Service =
                 \<lparr>be_Title = sv_Title (at_Service src), be_Subtitle = sv_Subtitle (at_Service src),
                  be_MetadataIdentifier = ml_MetadataIdentifier serviceMetadataLinks,
                  be_Rights = sv_Rights (at_Service src), be_Updated = None,
                  be_Author = \<lparr>ba_Name = ''PDOK Beheer'', ba_Email = ''beheerPDOK@kadaster.nl''\<rparr>,
                  be_Datasets = datasets\<rparr>,
               bs_Kubernetes = Some (kubernetes_fromV3 (as_Lifecycle (at_Spec src)))\<rparr>\<rparr>)))"

end
