(* ===== verification/Conversion_Props.thy ===== *)
theory Conversion_Props
  imports Conversion Validation Ingress
begin

text \<open>
  Properties of the conversion: exactly when \<open>ConvertFrom\<close> panics, what a failed \<open>ToV3\<close> leaves behind,
  what survives the way there and back, what becomes of the time to live, the base URL, and which
  converted Atoms pass the feed checks.
\<close>

section \<open>Panics of ConvertFrom\<close>

definition feed_convertible :: "DatasetFeed \<Rightarrow> bool" where
  "feed_convertible f \<longleftrightarrow>
     df_DatasetMetadataLinks f \<noteq> None \<and> list_all (\<lambda>l. ln_Href l \<noteq> None) (df_Links f) \<and>
     list_all (\<lambda>e. srs_URI (en_SRS e) \<noteq> None) (df_Entries f)"

definition convertible :: "Atom \<Rightarrow> bool" where
  "convertible src \<longleftrightarrow>
     sv_ServiceMetadataLinks (at_Service src) \<noteq> None \<and> list_all feed_convertible (at_DatasetFeeds src)"

lemma panics_link_fromV3: "panics (link_fromV3 V l) \<longleftrightarrow> ln_Href l = None"
  by (cases "ln_Href l") (simp_all add: link_fromV3_def go_simps)

lemma panics_entry_fromV3: "panics (entry_fromV3 V e) \<longleftrightarrow> srs_URI (en_SRS e) = None"
  by (cases "srs_URI (en_SRS e)") (simp_all add: entry_fromV3_def go_simps)

lemma panics_bind_Ret: "panics (go_bind m (\<lambda>x. Ret (f x))) \<longleftrightarrow> panics m"
  by (cases m) simp_all

lemma panics_bind2:
  "panics (go_bind m (\<lambda>x. go_bind n (\<lambda>y. Ret (f x y)))) \<longleftrightarrow> panics m \<or> panics n"
  by (cases m; cases n) simp_all

lemma panics_bind3:
  "panics (go_bind m (\<lambda>x. go_bind n (\<lambda>y. go_bind k (\<lambda>z. Ret (f x y z))))) \<longleftrightarrow>
     panics m \<or> panics n \<or> panics k"
  by (cases m; cases n; cases k) simp_all

lemma panics_feed_fromV3: "panics (feed_fromV3 V f) \<longleftrightarrow> \<not> feed_convertible f"
  unfolding feed_fromV3_def panics_bind3
  by (auto simp: panics_deref panics_go_map panics_link_fromV3 panics_entry_fromV3 feed_convertible_def
      list_all_iff)

lemma panics_ConvertFrom: "panics (ConvertFrom V src a) \<longleftrightarrow> \<not> convertible src"
  unfolding ConvertFrom_def panics_bind2
  by (auto simp: panics_deref panics_go_map panics_feed_fromV3 convertible_def list_all_iff)

section \<open>What ToV3 leaves in its destination\<close>

lemma datasets_toV3_result:
  "datasets_toV3 V now s i ds feeds = (err, feeds') \<Longrightarrow>
     \<exists>done1. feeds' = feeds @ done1 \<and> length done1 \<le> length ds \<and>
       (\<forall>j<length done1. dataset_toV3 V now s (i + j) (ds ! j) = Inr (done1 ! j)) \<and>
       (case err of
          None \<Rightarrow> length done1 = length ds
        | Some e \<Rightarrow> length done1 < length ds \<and>
            dataset_toV3 V now s (i + length done1) (ds ! length done1) = Inl e)"
proof (induction ds arbitrary: i feeds)
  case Nil
  then show ?case by auto
next
  case (Cons d ds)
  show ?case
  proof (cases "dataset_toV3 V now s i d")
    case (Inl e)
    then show ?thesis using Cons.prems by (intro exI [of _ "[]"]) auto
  next
    case (Inr feed)
    then have "datasets_toV3 V now s (Suc i) ds (feeds @ [feed]) = (err, feeds')"
      using Cons.prems by simp
    from Cons.IH [OF this] obtain rest where rest: "feeds' = (feeds @ [feed]) @ rest" "length rest \<le> length ds"
      "\<forall>j<length rest. dataset_toV3 V now s (Suc i + j) (ds ! j) = Inr (rest ! j)"
      "case err of None \<Rightarrow> length rest = length ds
       | Some e \<Rightarrow> length rest < length ds \<and>
           dataset_toV3 V now s (Suc i + length rest) (ds ! length rest) = Inl e"
      by blast
    then show ?thesis
      using Inr by (intro exI [of _ "feed # rest"]) (auto simp: All_less_Suc2 split: option.splits)
  qed
qed

text \<open>After an error from a dataset, the feeds of the datasets before it are there, and no more.\<close>

lemma ToV3_partial:
  assumes "ToV3 V vars now a dst = (Some e, dst')"
    and "createBaseURL V (GetBaseURL vars) (bs_General (bt_Spec a)) = Inr b"
  shows "\<exists>n < length (be_Datasets (bt_Service a)).
    dataset_toV3 V now (bt_Service a) n (be_Datasets (bt_Service a) ! n) = Inl e \<and>
    length (at_DatasetFeeds dst') = n \<and>
    (\<forall>j<n. dataset_toV3 V now (bt_Service a) j (be_Datasets (bt_Service a) ! j) = Inr (at_DatasetFeeds dst' ! j))"
proof -
  obtain feeds where run: "datasets_toV3 V now (bt_Service a) 0 (be_Datasets (bt_Service a)) [] = (Some e, feeds)"
    and "at_DatasetFeeds dst' = feeds"
    using assms by (auto simp: ToV3_def Let_def split: prod.splits)
  with datasets_toV3_result [OF run] show ?thesis by auto
qed

lemma ToV3_ok:
  assumes "ToV3 V vars now a dst = (None, dst')"
  obtains b where "createBaseURL V (GetBaseURL vars) (bs_General (bt_Spec a)) = Inr b"
    and "at_ObjectMeta dst' = bt_ObjectMeta a"
    and "at_Service dst' = (service_toV3 b (bt_Service a))\<lparr>sv_DatasetFeeds := at_DatasetFeeds dst'\<rparr>"
    and "as_Lifecycle (at_Spec dst') = (case beta_ttl a of None \<Rightarrow> as_Lifecycle (at_Spec dst)
       | Some ttl \<Rightarrow> Some \<lparr>lc_TTLInDays = Some (ucast ttl)\<rparr>)"
    and "length (at_DatasetFeeds dst') = length (be_Datasets (bt_Service a))"
    and "\<forall>j < length (be_Datasets (bt_Service a)).
      dataset_toV3 V now (bt_Service a) j (be_Datasets (bt_Service a) ! j) = Inr (at_DatasetFeeds dst' ! j)"
proof -
  obtain b where b: "createBaseURL V (GetBaseURL vars) (bs_General (bt_Spec a)) = Inr b"
    using assms by (auto simp: ToV3_def Let_def split: sum.splits)
  then obtain feeds where run: "datasets_toV3 V now (bt_Service a) 0 (be_Datasets (bt_Service a)) [] = (None, feeds)"
    and dst': "at_DatasetFeeds dst' = feeds"
      "at_ObjectMeta dst' = bt_ObjectMeta a"
      "at_Service dst' = (service_toV3 b (bt_Service a))\<lparr>sv_DatasetFeeds := at_DatasetFeeds dst'\<rparr>"
      "as_Lifecycle (at_Spec dst') = (case beta_ttl a of None \<Rightarrow> as_Lifecycle (at_Spec dst)
       | Some ttl \<Rightarrow> Some \<lparr>lc_TTLInDays = Some (ucast ttl)\<rparr>)"
    using assms by (auto simp: ToV3_def Let_def GetInt32Pointer_def split: prod.splits option.splits)
  from datasets_toV3_result [OF run] have "length feeds = length (be_Datasets (bt_Service a))"
    "\<forall>j<length feeds. dataset_toV3 V now (bt_Service a) j (be_Datasets (bt_Service a) ! j) = Inr (feeds ! j)"
    by auto
  with dst' show thesis by (intro that [OF b]) simp_all
qed

lemma dataset_toV3_ok:
  "dataset_toV3 V now s i d = Inr f \<longleftrightarrow>
     (\<exists>links entries. err_map (link_toV3 V) 0 (ds_Links d) = Inr links \<and>
        err_map (entry_toV3 V (now i) s d) 0 (ds_Downloads d) = Inr entries \<and>
        f = dataset_feed V s d links entries)"
  by (auto simp: dataset_toV3_def split: sum.splits)

text \<open>A converted Atom can be converted back.\<close>

lemma toV3_urls:
  "link_toV3 V i l = Inr l' \<Longrightarrow> ln_Href l' \<noteq> None"
  "entry_toV3 V now s d i x = Inr e \<Longrightarrow> srs_URI (en_SRS e) \<noteq> None"
  by (auto simp: link_toV3_def entry_toV3_def split: sum.splits)

lemma dataset_toV3_convertible:
  assumes "dataset_toV3 V now s i d = Inr f"
  shows "feed_convertible f"
proof -
  obtain links entries where links: "err_map (link_toV3 V) 0 (ds_Links d) = Inr links"
    and entries: "err_map (entry_toV3 V (now i) s d) 0 (ds_Downloads d) = Inr entries"
    and f: "f = dataset_feed V s d links entries"
    using assms by (auto simp: dataset_toV3_ok)
  have "list_all (\<lambda>l. ln_Href l \<noteq> None) links"
    using links toV3_urls(1) unfolding err_map_eq_Inr list_all_length by metis
  moreover have "list_all (\<lambda>e. srs_URI (en_SRS e) \<noteq> None) entries"
    using entries toV3_urls(2) unfolding err_map_eq_Inr list_all_length by metis
  ultimately show ?thesis by (simp add: f dataset_feed_def feed_convertible_def)
qed

lemma ToV3_convertible:
  assumes "ToV3 V vars now a dst = (None, dst')"
  shows "convertible dst'"
proof -
  obtain b where svc: "at_Service dst' = (service_toV3 b (bt_Service a))\<lparr>sv_DatasetFeeds := at_DatasetFeeds dst'\<rparr>"
    and len: "length (at_DatasetFeeds dst') = length (be_Datasets (bt_Service a))"
    and feed: "\<forall>j < length (be_Datasets (bt_Service a)).
      dataset_toV3 V now (bt_Service a) j (be_Datasets (bt_Service a) ! j) = Inr (at_DatasetFeeds dst' ! j)"
    using ToV3_ok [OF assms] by blast
  have "list_all feed_convertible (at_DatasetFeeds dst')"
    using feed len dataset_toV3_convertible unfolding list_all_length by metis
  then show ?thesis
    unfolding convertible_def by (subst svc) (simp add: service_toV3_def)
qed

section \<open>There and back\<close>

text \<open>The helpers on pointers, and the texts of an Atom that parsing and printing leave as they are.\<close>

definition pointer_contract :: "conv_libs \<Rightarrow> bool" where
  "pointer_contract V \<longleftrightarrow>
     (\<forall>s. Pointer_of V s = Some s) \<and> (\<forall>s d. PointerVal V (Some s) d = s) \<and> (\<forall>d. PointerVal V None d = d)"

definition stable_url :: "conv_libs \<Rightarrow> string \<Rightarrow> bool" where
  "stable_url V s \<longleftrightarrow> (\<forall>u. ParseURL V s = Inr u \<longrightarrow> url_String u = s)"

definition stable_float :: "conv_libs \<Rightarrow> float32 \<Rightarrow> bool" where
  "stable_float V x \<longleftrightarrow> ParseFloat32 V (FormatFloat32 V x) = x"

definition stable_bbox :: "conv_libs \<Rightarrow> BetaBbox \<Rightarrow> bool" where
  "stable_bbox V b \<longleftrightarrow>
     stable_float V (bx_Minx b) \<and> stable_float V (bx_Maxx b) \<and> stable_float V (bx_Miny b) \<and>
     stable_float V (bx_Maxy b)"

definition stable_dataset :: "conv_libs \<Rightarrow> Dataset \<Rightarrow> bool" where
  "stable_dataset V d \<longleftrightarrow>
     stable_bbox V (ds_Bbox d) \<and> list_all (\<lambda>l. stable_url V (ol_URI l)) (ds_Links d) \<and>
     list_all (\<lambda>x. stable_url V (sr_URI (do_Srs x)) \<and>
        list_all (\<lambda>l. \<forall>b. li_Bbox l = Some b \<longrightarrow> stable_bbox V b) (do_Links x)) (ds_Downloads d)"

text \<open>
  What comes back: the fields that v3 has no place for are gone, or have a default. Two more are not as they
  were: the author, which v3 stores with every dataset feed, but which \<open>ConvertFrom\<close> does not read, and a
  time to live that does not fit 32 bits.
\<close>

definition back_link :: "OtherLink \<Rightarrow> OtherLink" where
  "back_link l = l\<lparr>ol_ContentType := Some (case ol_ContentType l of None \<Rightarrow> [] | Some t \<Rightarrow> t)\<rparr>"

definition back_download_link :: "BetaLink \<Rightarrow> BetaLink" where
  "back_download_link l =
     l\<lparr>li_BlobKey := Some (case li_BlobKey l of None \<Rightarrow> [] | Some k \<Rightarrow> k),
       li_Version := None,
       li_Rel := (if li_Rel l = Some [] then None else li_Rel l)\<rparr>"

definition back_download :: "Time \<Rightarrow> AtomService \<Rightarrow> Download \<Rightarrow> Download" where
  "back_download now s x =
     x\<lparr>do_Updated := Some (FormatRFC3339 (updated_toV3 now s x)),
       do_Links := map back_download_link (do_Links x)\<rparr>"

definition back_dataset :: "(nat \<Rightarrow> Time) \<Rightarrow> AtomService \<Rightarrow> Dataset \<Rightarrow> Dataset" where
  "back_dataset now s d =
     d\<lparr>ds_Links := map back_link (ds_Links d),
       ds_Downloads := map (\<lambda>(i, x). back_download (now i) s x) (enumerate 0 (ds_Downloads d)),
       ds_Bbox := (if ds_Downloads d = [] then zero_Bbox else ds_Bbox d)\<rparr>"

lemma bbox_back: "stable_bbox V b \<Longrightarrow> bbox_fromV3 V (bbox_toV3 V b) = b"
  by (simp add: bbox_fromV3_def bbox_toV3_def stable_bbox_def stable_float_def GetStringAsFloat32_def
      GetFloat32AsString_def)

lemma link_back:
  assumes "pointer_contract V" and "stable_url V (ol_URI l)" and "link_toV3 V i l = Inr l'"
  shows "link_fromV3 V l' = Ret (back_link l)"
  using assms
  by (auto simp: link_toV3_def link_fromV3_def back_link_def pointer_contract_def stable_url_def go_simps
      split: sum.splits)

lemma download_link_back:
  assumes "\<forall>b. li_Bbox l = Some b \<longrightarrow> stable_bbox V b"
  shows "downloadLink_fromV3 V (downloadLink_toV3 V l) = back_download_link l"
  using assms
  by (cases "li_Bbox l")
    (auto simp: downloadLink_fromV3_def downloadLink_toV3_def back_download_link_def bbox_back)

lemma entry_back:
  assumes "stable_url V (sr_URI (do_Srs x))"
    and "list_all (\<lambda>l. \<forall>b. li_Bbox l = Some b \<longrightarrow> stable_bbox V b) (do_Links x)"
    and "entry_toV3 V now s d i x = Inr e"
  shows "entry_fromV3 V e = Ret (back_download (now i) s x)"
proof -
  have "map (downloadLink_fromV3 V) (map (downloadLink_toV3 V) (do_Links x)) = map back_download_link (do_Links x)"
    using assms(2) download_link_back by (auto simp: list_all_iff)
  then show ?thesis
    using assms(1,3)
    by (auto simp: entry_toV3_def entry_fromV3_def back_download_def stable_url_def go_simps split: sum.splits)
qed

lemma dataset_back:
  assumes "pointer_contract V" and "stable_dataset V d" and "dataset_toV3 V now s i d = Inr f"
  shows "feed_fromV3 V f = Ret (back_dataset (now i) s d)"
proof -
  obtain links entries where links: "err_map (link_toV3 V) 0 (ds_Links d) = Inr links"
    and entries: "err_map (entry_toV3 V (now i) s d) 0 (ds_Downloads d) = Inr entries"
    and f: "f = dataset_feed V s d links entries"
    using assms(3) by (auto simp: dataset_toV3_ok)
  have "go_map (link_fromV3 V) links = Ret (map back_link (ds_Links d))"
    using links assms(2) link_back [OF assms(1)]
    unfolding go_map_eq_Ret list_all2_conv_all_nth
    by (auto simp: err_map_eq_Inr stable_dataset_def list_all_length)
  moreover have "go_map (entry_fromV3 V) entries =
      Ret (map (\<lambda>(j, x). back_download (now i j) s x) (enumerate 0 (ds_Downloads d)))"
    using entries assms(2) entry_back [where V = V and s = s and d = d and now = "now i"]
    unfolding go_map_eq_Ret list_all2_conv_all_nth
    by (auto simp: err_map_eq_Inr stable_dataset_def list_all_length nth_enumerate_eq)
  moreover have "(case entries of [] \<Rightarrow> zero_Bbox | first # _ \<Rightarrow> bbox_fromV3 V (pg_BBox (en_Polygon first))) =
      (if ds_Downloads d = [] then zero_Bbox else ds_Bbox d)"
  proof (cases "ds_Downloads d")
    case Nil
    then show ?thesis using entries by simp
  next
    case (Cons x xs)
    then obtain e es where e: "entries = e # es" "entry_toV3 V (now i) s d 0 x = Inr e"
      using entries by (auto split: sum.splits)
    then have "pg_BBox (en_Polygon e) = bbox_toV3 V (ds_Bbox d)"
      by (auto simp: entry_toV3_def split: sum.splits)
    then show ?thesis
      using assms(2) Cons by (simp add: e(1) bbox_back stable_dataset_def)
  qed
  ultimately show ?thesis
    using assms(1)
    by (simp add: f dataset_feed_def feed_fromV3_def go_simps back_dataset_def pointer_contract_def)
qed

definition back_atom :: "(nat \<Rightarrow> nat \<Rightarrow> Time) \<Rightarrow> BetaAtom \<Rightarrow> BetaAtom \<Rightarrow> BetaAtom" where
  "back_atom now a a0 =
     a0\<lparr>bt_ObjectMeta := bt_ObjectMeta a,
        bt_Spec :=
          \<lparr>bs_General = general_fromV3 (om_Labels (bt_ObjectMeta a)),
           bs_Service = (bt_Service a)
             \<lparr>be_Updated := None,
              be_Author := \<lparr>ba_Name = ''PDOK Beheer'', ba_Email = ''beheerPDOK@kadaster.nl''\<rparr>,
              be_Datasets := map (\<lambda>(i, d). back_dataset (now i) (bt_Service a) d)
                (enumerate 0 (be_Datasets (bt_Service a)))\<rparr>,
           bs_Kubernetes = Some
             \<lparr>bk_Autoscaling = None, bk_HealthCheck = None, bk_Resources = None,
              bk_Lifecycle = Some \<lparr>bl_TTLInDays =
                map_option (\<lambda>ttl. scast (ucast ttl :: 32 word)) (beta_ttl a)\<rparr>\<rparr>\<rparr>\<rparr>"

lemma beta_ttl_back:
  "beta_ttl (back_atom now a a0) = map_option (\<lambda>ttl. scast (ucast ttl :: 32 word)) (beta_ttl a)"
  unfolding back_atom_def by (subst beta_ttl_def) simp

lemma ConvertFrom_ToV3:
  assumes "pointer_contract V" and "list_all (stable_dataset V) (be_Datasets (bt_Service a))"
    and "as_Lifecycle (at_Spec dst) = None" and "ToV3 V vars now a dst = (None, dst')"
  shows "ConvertFrom V dst' a0 = Ret (back_atom now a a0)"
proof -
  obtain b where meta: "at_ObjectMeta dst' = bt_ObjectMeta a"
    and svc: "at_Service dst' = (service_toV3 b (bt_Service a))\<lparr>sv_DatasetFeeds := at_DatasetFeeds dst'\<rparr>"
    and life: "as_Lifecycle (at_Spec dst') = (case beta_ttl a of None \<Rightarrow> as_Lifecycle (at_Spec dst)
       | Some ttl \<Rightarrow> Some \<lparr>lc_TTLInDays = Some (ucast ttl)\<rparr>)"
    and len: "length (at_DatasetFeeds dst') = length (be_Datasets (bt_Service a))"
    and feed: "\<forall>j < length (be_Datasets (bt_Service a)).
      dataset_toV3 V now (bt_Service a) j (be_Datasets (bt_Service a) ! j) = Inr (at_DatasetFeeds dst' ! j)"
    using ToV3_ok [OF assms(4)] by blast
  have feeds: "go_map (feed_fromV3 V) (at_DatasetFeeds dst') =
      Ret (map (\<lambda>(i, d). back_dataset (now i) (bt_Service a) d) (enumerate 0 (be_Datasets (bt_Service a))))"
    using feed len assms(2) dataset_back [OF assms(1)]
    unfolding go_map_eq_Ret list_all2_conv_all_nth
    by (auto simp: list_all_length nth_enumerate_eq)
  have kube: "kubernetes_fromV3 (as_Lifecycle (at_Spec dst')) =
      \<lparr>bk_Autoscaling = None, bk_HealthCheck = None, bk_Resources = None,
       bk_Lifecycle = Some \<lparr>bl_TTLInDays = map_option (\<lambda>ttl. scast (ucast ttl :: 32 word)) (beta_ttl a)\<rparr>\<rparr>"
    unfolding life assms(3) by (simp add: kubernetes_fromV3_def GetIntPointer_def split: option.split)
  have parts: "sv_ServiceMetadataLinks (at_Service dst') = Some \<lparr>ml_MetadataIdentifier =
      be_MetadataIdentifier (bt_Service a), ml_Templates = [''csw'', ''opensearch'', ''html'']\<rparr>"
    "sv_Title (at_Service dst') = be_Title (bt_Service a)" "sv_Subtitle (at_Service dst') = be_Subtitle (bt_Service a)"
    "sv_Rights (at_Service dst') = be_Rights (bt_Service a)"
    by (subst svc, simp add: service_toV3_def)+
  show ?thesis
    unfolding ConvertFrom_def parts feeds kube meta
    by (simp add: back_atom_def go_simps)
qed

section \<open>The time to live\<close>

text \<open>The count of days survives exactly when it fits the 32 bits of v3.\<close>

lemma ttl_roundtrip:
  fixes ttl :: "64 word"
  shows "scast (ucast ttl :: 32 word) = ttl \<longleftrightarrow> - (2 ^ 31) \<le> sint ttl \<and> sint ttl < 2 ^ 31"
proof -
  have "sint (scast (ucast ttl :: 32 word) :: 64 word) = signed_take_bit 31 (sint ttl)"
    by transfer (simp add: signed_take_bit_signed_take_bit min_def signed_take_bit_take_bit)
  then have "scast (ucast ttl :: 32 word) = ttl \<longleftrightarrow> signed_take_bit 31 (sint ttl) = sint ttl"
    by (metis signed_word_eqI)
  then show ?thesis
    by (auto simp: signed_take_bit_int_eq_self_iff)
qed

section \<open>The base URL\<close>

definition general_segments :: "General \<Rightarrow> string list" where
  "general_segments g =
     [ge_DatasetOwner g, ge_Dataset g] @ (case ge_Theme g of None \<Rightarrow> [] | Some t \<Rightarrow> [t]) @ [''atom''] @
     (case ge_ServiceVersion g of None \<Rightarrow> [] | Some v \<Rightarrow> [v])"

lemma plain_atom: "plain_segment ''atom''"
  by (simp add: plain_segment_def shouldEscape_def alphanum_def less_eq_char_def)

text \<open>
  The configured URL is read, and the segments are put behind it in up to four steps. It may have no path,
  or a path of plain segments.
\<close>

lemma createBaseURL_plain:
  assumes origin: "plain_origin scheme name port" and segs: "list_all plain_segment segs"
    and gen: "list_all plain_segment (general_segments g)"
  shows "\<exists>u. createBaseURL V (origin_text scheme name port segs) g = Inr (Some u) \<and>
    url_String u = origin_text scheme name port (segs @ general_segments g)"
proof -
  note join = JoinPath_at [where scheme = scheme and name = name and port = port]
  obtain u where u: "createBaseURL V (origin_text scheme name port segs) g = Inr (Some u)"
    and at: "url_at u scheme name port (segs @ general_segments g)"
  proof -
    let ?u1 = "JoinPath (read_url scheme name port segs) [ge_DatasetOwner g, ge_Dataset g]"
    let ?u2 = "case ge_Theme g of None \<Rightarrow> ?u1 | Some t \<Rightarrow> JoinPath ?u1 [t]"
    let ?u3 = "JoinPath ?u2 [''atom'']"
    let ?u4 = "case ge_ServiceVersion g of None \<Rightarrow> ?u3 | Some v \<Rightarrow> JoinPath ?u3 [v]"
    have 1: "url_at ?u1 scheme name port (segs @ [ge_DatasetOwner g, ge_Dataset g])"
      using gen by (intro join read_url_at segs) (simp_all add: general_segments_def)
    have 2: "url_at ?u2 scheme name port ((segs @ [ge_DatasetOwner g, ge_Dataset g]) @
        (case ge_Theme g of None \<Rightarrow> [] | Some t \<Rightarrow> [t]))"
      using gen 1 join [OF 1] by (cases "ge_Theme g") (simp_all add: general_segments_def)
    have 3: "url_at ?u3 scheme name port (((segs @ [ge_DatasetOwner g, ge_Dataset g]) @
        (case ge_Theme g of None \<Rightarrow> [] | Some t \<Rightarrow> [t])) @ [''atom''])"
      by (intro join [OF 2]) (simp_all add: plain_atom)
    have 4: "url_at ?u4 scheme name port ((((segs @ [ge_DatasetOwner g, ge_Dataset g]) @
        (case ge_Theme g of None \<Rightarrow> [] | Some t \<Rightarrow> [t])) @ [''atom'']) @
        (case ge_ServiceVersion g of None \<Rightarrow> [] | Some v \<Rightarrow> [v]))"
      using gen 3 join [OF 3] by (cases "ge_ServiceVersion g") (simp_all add: general_segments_def)
    show thesis
      using that [of ?u4] 4
      by (simp add: createBaseURL_def url_Parse_plain [OF origin segs] general_segments_def Let_def)
  qed
  have "segs @ general_segments g \<noteq> []" by (simp add: general_segments_def)
  from url_String_at [OF at origin this] u show ?thesis by blast
qed

section \<open>Time stamps\<close>

text \<open>A time stamp in the form the operator prints comes back as it was, whenever the conversion runs.\<close>

lemma stamp_back:
  assumes "do_Updated x = Some (FormatRFC3339 t)"
    and "0 \<le> time_Year t" and "time_Year t < 10000"
    and "time_Offset t mod 60 = 0" and "\<bar>time_Offset t\<bar> < 90000"
  shows "FormatRFC3339 (updated_toV3 now s x) = FormatRFC3339 t"
  using assms(1) time_Parse_Format [OF assms(2-5)]
  by (simp add: updated_toV3_def FormatRFC3339_def)

lemma entry_stamp_back:
  assumes "entry_toV3 V now s d i x = Inr e" and "entry_fromV3 V e = Ret x'"
  shows "do_Updated x' = Some (FormatRFC3339 (updated_toV3 (now i) s x))"
  using assms by (auto simp: entry_toV3_def entry_fromV3_def go_simps split: sum.splits)

section \<open>Admission of converted Atoms\<close>

text \<open>The checks of the dataset feeds, said of the v2beta1 Atom.\<close>

definition dataset_ok :: "string \<Rightarrow> Dataset \<Rightarrow> bool" where
  "dataset_ok serviceId d \<longleftrightarrow>
     ds_MetadataIdentifier d \<noteq> serviceId \<and> distinct (map do_Name (ds_Downloads d)) \<and>
     list_all (\<lambda>x. length (do_Links x) > 1 \<longrightarrow> do_Content x \<noteq> None) (ds_Downloads d)"

lemma dataset_toV3_feed_ok:
  assumes "pointer_contract V" and "dataset_toV3 V now s i d = Inr f"
  shows "df_TechnicalName f = ds_Name d"
    and "feed_ok (Some \<lparr>ml_MetadataIdentifier = sid, ml_Templates = ts\<rparr>) f \<longleftrightarrow> dataset_ok sid d"
proof -
  obtain links entries where entries: "err_map (entry_toV3 V (now i) s d) 0 (ds_Downloads d) = Inr entries"
    and f: "f = dataset_feed V s d links entries"
    using assms(2) by (auto simp: dataset_toV3_ok)
  have entry: "en_TechnicalName e = do_Name x \<and> (entry_ok e \<longleftrightarrow> (length (do_Links x) > 1 \<longrightarrow> do_Content x \<noteq> None))"
    if "entry_toV3 V (now i) s d j x = Inr e" for j x e
    using that by (auto simp: entry_toV3_def entry_ok_def split: sum.splits)
  have len: "length entries = length (ds_Downloads d)"
    and each: "\<forall>j<length (ds_Downloads d). entry_toV3 V (now i) s d j (ds_Downloads d ! j) = Inr (entries ! j)"
    using entries by (simp_all add: err_map_eq_Inr)
  have "map en_TechnicalName entries = map do_Name (ds_Downloads d)"
    using len each entry by (intro nth_equalityI) auto
  moreover have "list_all entry_ok entries \<longleftrightarrow>
      list_all (\<lambda>x. length (do_Links x) > 1 \<longrightarrow> do_Content x \<noteq> None) (ds_Downloads d)"
    using len each entry unfolding list_all_length by metis
  ultimately show "feed_ok (Some \<lparr>ml_MetadataIdentifier = sid, ml_Templates = ts\<rparr>) f \<longleftrightarrow> dataset_ok sid d"
    using assms(1) by (auto simp: f dataset_feed_def feed_ok_def dataset_ok_def pointer_contract_def)
  show "df_TechnicalName f = ds_Name d" by (simp add: f dataset_feed_def)
qed

lemma ToV3_feeds_ok:
  assumes "pointer_contract V" and "ToV3 V vars now a dst = (None, dst')"
  shows "feeds_ok dst' \<longleftrightarrow>
    distinct (map ds_Name (be_Datasets (bt_Service a))) \<and>
    list_all (dataset_ok (be_MetadataIdentifier (bt_Service a))) (be_Datasets (bt_Service a))"
proof -
  obtain b where svc: "at_Service dst' = (service_toV3 b (bt_Service a))\<lparr>sv_DatasetFeeds := at_DatasetFeeds dst'\<rparr>"
    and len: "length (at_DatasetFeeds dst') = length (be_Datasets (bt_Service a))"
    and feed: "\<forall>j < length (be_Datasets (bt_Service a)).
      dataset_toV3 V now (bt_Service a) j (be_Datasets (bt_Service a) ! j) = Inr (at_DatasetFeeds dst' ! j)"
    using ToV3_ok [OF assms(2)] by blast
  have id: "sv_ServiceMetadataLinks (at_Service dst') = Some \<lparr>ml_MetadataIdentifier =
      be_MetadataIdentifier (bt_Service a), ml_Templates = [''csw'', ''opensearch'', ''html'']\<rparr>"
    by (subst svc) (simp add: service_toV3_def)
  have "map df_TechnicalName (at_DatasetFeeds dst') = map ds_Name (be_Datasets (bt_Service a))"
    using len feed dataset_toV3_feed_ok(1) [OF assms(1)] by (intro nth_equalityI) auto
  moreover have "feed_ok (sv_ServiceMetadataLinks (at_Service dst')) (at_DatasetFeeds dst' ! j) =
      dataset_ok (be_MetadataIdentifier (bt_Service a)) (be_Datasets (bt_Service a) ! j)"
    if "j < length (be_Datasets (bt_Service a))" for j
    unfolding id using feed that by (intro dataset_toV3_feed_ok(2) [OF assms(1)]) blast
  then have "list_all (feed_ok (sv_ServiceMetadataLinks (at_Service dst'))) (at_DatasetFeeds dst') \<longleftrightarrow>
      list_all (dataset_ok (be_MetadataIdentifier (bt_Service a))) (be_Datasets (bt_Service a))"
    by (simp add: list_all_length len)
  ultimately show ?thesis by (simp add: feeds_ok_def)
qed

end
