(* ===== verification/Downloads.thy ===== *)
theory Downloads
  imports Convergence
begin

text \<open>
  What the download middlewares do to a request, after \<open>internal/controller/middleware.go\<close> and
  \<open>ingressroute.go\<close>: Traefik passes the request through the middlewares that the route names, in order, and
  each of them replaces the path by its regular expression.

  Traefik is a parameter \<open>T\<close>, the path that a middleware makes of a regular expression, a replacement and a
  path. It is assumed to follow the documented meaning on the expressions that \<open>getDownloadLinkRegex\<close> builds
  of texts without other special characters than dots. The result: a request for the public address of a
  download link reaches its key in the blob store, unless a file of another group shadows it.
\<close>

section \<open>The meaning of the regular expressions\<close>

text \<open>
  Characters that need no escaping in a path and are not special in a regular expression or in a
  replacement, but for the dot, which stands for any of them.
\<close>

definition plain_char :: "char \<Rightarrow> bool" where
  "plain_char c \<longleftrightarrow> \<not> shouldEscape c encodePath \<and> c \<noteq> CHR ''+'' \<and> c \<noteq> CHR ''$''"

definition plain_text :: "string \<Rightarrow> bool" where
  "plain_text s \<longleftrightarrow> list_all plain_char s"

definition char_matches :: "char \<Rightarrow> char \<Rightarrow> bool" where
  "char_matches c d \<longleftrightarrow> c = CHR ''.'' \<or> c = d"

definition pat_prefix :: "string \<Rightarrow> string \<Rightarrow> bool" where
  "pat_prefix f s \<longleftrightarrow> length f \<le> length s \<and> list_all2 char_matches f (take (length f) s)"

definition downloads_dir :: string where
  "downloads_dir = ''/downloads/''"

text \<open>
  \<open>^(p1|p2|\<dots>)/downloads/(f1|f2|\<dots>)\<close>: the first alternative of the first group with which the whole matches
  decides. Replacing the match by a prefix and the second group keeps what follows the directory, since the
  part behind the match stays. The result is what follows the directory.
\<close>

definition pattern_match :: "string list \<Rightarrow> string list \<Rightarrow> string \<Rightarrow> string option" where
  "pattern_match ps fs path =
     map_option (\<lambda>p. drop (length p + length downloads_dir) path)
       (find (\<lambda>p. pat_prefix p path \<and> prefix downloads_dir (drop (length p) path) \<and>
          list_ex (\<lambda>f. pat_prefix f (drop (length p + length downloads_dir) path)) fs) ps)"

definition download_regex :: "string list \<Rightarrow> string list \<Rightarrow> string" where
  "download_regex ps fs = ''^('' @ str_Join ps ''|'' @ '')/downloads/('' @ str_Join fs ''|'' @ '')''"

definition second_group_behind :: "string \<Rightarrow> string" where
  "second_group_behind pfx = ''/'' @ pfx @ ''/$2''"

definition rewrite_contract :: "(string \<Rightarrow> string \<Rightarrow> string \<Rightarrow> string) \<Rightarrow> bool" where
  "rewrite_contract T \<longleftrightarrow>
     (\<forall>ps fs pfx path. ps \<noteq> [] \<longrightarrow> fs \<noteq> [] \<longrightarrow> list_all plain_text ps \<longrightarrow> list_all plain_text fs \<longrightarrow>
        plain_text pfx \<longrightarrow> plain_text path \<longrightarrow>
        T (download_regex ps fs) (second_group_behind pfx) path =
        (case pattern_match ps fs path of None \<Rightarrow> path | Some rest \<Rightarrow> slash # pfx @ slash # rest))"

lemma rewrite_contractD:
  assumes "rewrite_contract T" and "ps \<noteq> []" and "fs \<noteq> []" and "list_all plain_text ps"
    and "list_all plain_text fs" and "plain_text pfx" and "plain_text path"
  shows "T (download_regex ps fs) (second_group_behind pfx) path =
    (case pattern_match ps fs path of None \<Rightarrow> path | Some rest \<Rightarrow> slash # pfx @ slash # rest)"
  using assms unfolding rewrite_contract_def by blast

lemma plain_text_simps [simp]:
  "plain_text []" "plain_text (c # s) \<longleftrightarrow> plain_char c \<and> plain_text s"
  "plain_text (s @ t) \<longleftrightarrow> plain_text s \<and> plain_text t"
  by (simp_all add: plain_text_def)

lemma plain_char_slash [simp]: "plain_char slash"
  by (simp add: plain_char_def shouldEscape_def)

lemma pat_prefix_refl: "pat_prefix s (s @ t)"
  by (simp add: pat_prefix_def char_matches_def list_all2_refl)

lemma downloads_dir_simps:
  "length downloads_dir = 11" "last downloads_dir = slash" "downloads_dir \<noteq> []"
  "downloads_dir ! 0 = slash" "downloads_dir ! 10 = slash" "plain_text downloads_dir"
  by (simp_all add: downloads_dir_def plain_char_def shouldEscape_def alphanum_def less_eq_char_def)

lemma downloads_dir_inner:
  assumes "0 < i" and "i < 10"
  shows "downloads_dir ! i \<noteq> slash"
proof -
  have "list_all (\<lambda>i. downloads_dir ! i \<noteq> slash) [1..<10]"
    by (simp add: downloads_dir_def upt_rec)
  then show ?thesis using assms by (simp add: list_all_iff)
qed

text \<open>A path in which the directory occurs once splits there in one way only.\<close>

lemma downloads_dir_once:
  assumes "\<not> sublist downloads_dir (U @ [slash])" and "slash \<notin> set n"
    and eq: "U @ downloads_dir @ n = V @ downloads_dir @ r"
  shows "V = U" and "r = n"
proof -
  have "\<not> length V < length U"
  proof
    assume less: "length V < length U"
    then have "take (length V) U = V"
      using arg_cong [OF eq, of "take (length V)"] by simp
    then obtain X where U: "U = V @ X" by (metis append_take_drop_id)
    then have X: "X @ downloads_dir @ n = downloads_dir @ r" "X \<noteq> []"
      using eq less by auto
    show False
    proof (cases "length X < 10")
      case True
      have "(downloads_dir @ r) ! length X = downloads_dir ! 0"
        unfolding X(1) [symmetric] by (simp add: nth_append downloads_dir_simps)
      then show False
        using True X(2) downloads_dir_inner [of "length X"] by (simp add: nth_append downloads_dir_simps)
    next
      case False
      have "take 11 (X @ [slash]) = take 11 (X @ downloads_dir @ n)"
        using False by (cases "length X = 10") (simp_all add: downloads_dir_def)
      also have "\<dots> = downloads_dir"
        unfolding X(1) by (simp add: downloads_dir_simps)
      finally obtain Y where "X @ [slash] = downloads_dir @ Y"
        by (metis append_take_drop_id)
      then have "U @ [slash] = V @ downloads_dir @ Y"
        by (simp add: U)
      then show False using assms(1) unfolding sublist_def by blast
    qed
  qed
  moreover have "\<not> length U < length V"
  proof
    assume less: "length U < length V"
    then have "take (length U) V = U"
      using arg_cong [OF eq, of "take (length U)"] by simp
    then obtain X where V: "V = U @ X" by (metis append_take_drop_id)
    then have X: "downloads_dir @ n = X @ downloads_dir @ r" "X \<noteq> []"
      using eq less by auto
    have len: "length X + length r = length n"
      using arg_cong [OF X(1), of length] by simp
    have "(downloads_dir @ n) ! (length X + 10) = slash"
      unfolding X(1) by (simp add: nth_append downloads_dir_simps)
    then have "n ! (length X - 1) = slash"
      using X(2) by (cases X) (simp_all add: nth_append downloads_dir_simps)
    moreover have "length X - 1 < length n"
      using len X(2) by (cases X) auto
    ultimately show False using assms(2) nth_mem by fastforce
  qed
  ultimately have "length U = length V" by simp
  with eq show "V = U" "r = n" by auto
qed

text \<open>On the address of a download, the expression looks at the name of the file only.\<close>

lemma pattern_match_download:
  assumes "\<not> sublist downloads_dir (U @ [slash])" and "slash \<notin> set n" and "U \<in> set ps"
  shows "pattern_match ps fs (U @ downloads_dir @ n) = (if list_ex (\<lambda>f. pat_prefix f n) fs then Some n else None)"
proof -
  let ?s = "U @ downloads_dir @ n"
  let ?P = "\<lambda>p. pat_prefix p ?s \<and> prefix downloads_dir (drop (length p) ?s) \<and>
    list_ex (\<lambda>f. pat_prefix f (drop (length p + length downloads_dir) ?s)) fs"
  have split: "length p = length U \<and> list_ex (\<lambda>f. pat_prefix f n) fs" if "?P p" for p
  proof -
    from that have "prefix downloads_dir (drop (length p) ?s)" by blast
    then obtain r where r: "drop (length p) ?s = downloads_dir @ r"
      unfolding prefix_def by blast
    then have "?s = take (length p) ?s @ downloads_dir @ r"
      by (metis append_take_drop_id)
    from downloads_dir_once [OF assms(1,2) this]
    have "take (length p) ?s = U" by simp
    then have "length p = length U"
      using that by (auto simp: pat_prefix_def dest: arg_cong [of _ U length])
    then show ?thesis using that by simp
  qed
  show ?thesis
  proof (cases "list_ex (\<lambda>f. pat_prefix f n) fs")
    case True
    then have "?P U" using pat_prefix_refl [of U "downloads_dir @ n"] by simp
    then have "find ?P ps \<noteq> None"
      using assms(3) unfolding find_None_iff by blast
    then obtain p where p: "find ?P ps = Some p" by blast
    then have "?P p" unfolding find_Some_iff by blast
    note p = p this
    from split [OF p(2)] show ?thesis
      using p(1) by (simp add: pattern_match_def)
  next
    case False
    then have "find ?P ps = None"
      using split unfolding find_None_iff by blast
    then show ?thesis using False by (simp add: pattern_match_def)
  qed
qed

lemma pattern_match_elsewhere:
  assumes "\<not> sublist downloads_dir path"
  shows "pattern_match ps fs path = None"
proof -
  have "\<not> prefix downloads_dir (drop k path)" for k
  proof
    assume "prefix downloads_dir (drop k path)"
    then obtain r where "drop k path = downloads_dir @ r" unfolding prefix_def by blast
    then have "path = take k path @ downloads_dir @ r" by (metis append_take_drop_id)
    then show False using assms unfolding sublist_def by blast
  qed
  then show ?thesis by (simp add: pattern_match_def find_None_iff)
qed

section \<open>A middleware in the cluster\<close>

text \<open>
  What a middleware of the cluster makes of a path. The middlewares of the download routes rewrite it, or set
  headers; one that is missing leaves it alone.
\<close>

definition through ::
  "(string \<Rightarrow> string \<Rightarrow> string \<Rightarrow> string) \<Rightarrow> 'w view \<Rightarrow> 'w \<Rightarrow> string \<Rightarrow> string \<Rightarrow> string \<Rightarrow> string" where
  "through T view w ns path name =
     (case view w (MiddlewareKind, ns, name) of
        Some (KMiddleware m) \<Rightarrow>
          (case mw_ReplacePathRegex (ob_Spec m) of
             None \<Rightarrow> path | Some r \<Rightarrow> T (rp_Regex r) (rp_Replacement r) path)
      | _ \<Rightarrow> path)"

definition route_paths :: "Atom \<Rightarrow> string list" where
  "route_paths atom = map (\<lambda>i. url_Path (the (iru_URL i))) (route_urls atom)"

text \<open>What is asked of an Atom and one of its links.\<close>

definition plain_downloads :: "Atom \<Rightarrow> bool" where
  "plain_downloads atom \<longleftrightarrow>
     list_all plain_text (route_paths atom) \<and> list_all (\<lambda>l. plain_text (dl_Data l)) (GetDownloadLinks atom)"

definition unshadowed :: "Atom \<Rightarrow> DownloadLink \<Rightarrow> bool" where
  "unshadowed atom l \<longleftrightarrow>
     (\<forall>l'\<in>set (GetDownloadLinks atom). pat_prefix (blob_name l') (blob_name l) \<longrightarrow> blob_prefix l' = blob_prefix l)"

lemma getDownloadLinkRegex_Ret:
  "getDownloadLinkRegex urls files = Ret r \<Longrightarrow> list_all (\<lambda>i. iru_URL i \<noteq> None) urls"
proof -
  assume "getDownloadLinkRegex urls files = Ret r"
  then have "\<not> panics (go_map (\<lambda>i. url_Path_of (iru_URL i)) urls)"
    by (auto simp: getDownloadLinkRegex_def go_bind_eq_Ret)
  then show ?thesis by (simp add: panics_go_map panics_url_Path_of list_all_iff)
qed

lemma settled_Middleware:
  assumes "settled view (kobj_key (KMiddleware m0), on_Middleware f) w"
  obtains m where "view w (MiddlewareKind, ob_Namespace m0, ob_Name m0) = Some (KMiddleware m)"
    and "f m = Ret (m, None)"
proof -
  obtain s where s: "view w (MiddlewareKind, ob_Namespace m0, ob_Name m0) = Some s"
    "kobj_key s = (MiddlewareKind, ob_Namespace m0, ob_Name m0)" "on_Middleware f s = Ret (s, None)"
    using assms by (auto simp: settled_def)
  then obtain m where m: "s = KMiddleware m" by (auto simp: key_constructor)
  show thesis using s(1,3) by (intro that [of m]) (auto simp: m wrap_eq_Ret)
qed

lemma settled_IngressRoute:
  assumes "settled view (kobj_key (KIngressRoute i0), on_IngressRoute f) w"
  obtains i where "view w (IngressRouteKind, ob_Namespace i0, ob_Name i0) = Some (KIngressRoute i)"
    and "f i = Ret (i, None)"
proof -
  obtain s where s: "view w (IngressRouteKind, ob_Namespace i0, ob_Name i0) = Some s"
    "kobj_key s = (IngressRouteKind, ob_Namespace i0, ob_Name i0)" "on_IngressRoute f s = Ret (s, None)"
    using assms by (auto simp: settled_def)
  then obtain i where i: "s = KIngressRoute i" by (auto simp: key_constructor)
  show thesis using s(1,3) by (intro that [of i]) (auto simp: i wrap_eq_Ret)
qed

text \<open>The middleware of a group, stored by a run without an error.\<close>

lemma through_download:
  assumes "rewrite_contract T" and "ownership_contract (ev_libs E)" and "settled view (plan_download E atom x) w"
    and "plain_downloads atom" and "route_paths atom \<noteq> []" and "list_all plain_text (lg_files (snd x))"
    and "lg_files (snd x) \<noteq> []" and "plain_text (fst x)" and "plain_text path"
  shows "through T view w (at_Namespace atom) path (snd (snd (download_key atom x))) =
    (case pattern_match (route_paths atom) (lg_files (snd x)) path of
       None \<Rightarrow> path | Some rest \<Rightarrow> slash # fst x @ slash # rest)"
proof -
  let ?m0 = "getBareDownloadLinkMiddleware atom (the (lg_index (snd x)))"
  obtain m where m: "view w (MiddlewareKind, ob_Namespace ?m0, ob_Name ?m0) = Some (KMiddleware m)"
    and fix1: "mutateDownloadLinkMiddleware (ev_libs E) atom (fst x) (lg_files (snd x)) m = Ret (m, None)"
    using settled_Middleware [OF assms(3) [unfolded plan_download_def download_key_def]] .
  have key: "ob_Namespace ?m0 = at_Namespace atom" "snd (snd (download_key atom x)) = ob_Name ?m0"
    by (simp_all add: download_key_def getBareDownloadLinkMiddleware_def)
  obtain regex where "getDownloadLinkRegex (route_urls atom) (lg_files (snd x)) = Ret regex"
    using fix1 by (auto simp: mutateDownloadLinkMiddleware_def go_bind_eq_Ret)
  from getDownloadLinkRegex_eq [OF getDownloadLinkRegex_Ret [OF this]]
  have "getDownloadLinkRegex (route_urls atom) (lg_files (snd x)) =
      Ret (download_regex (route_paths atom) (lg_files (snd x)))"
    by (simp add: route_paths_def download_regex_def)
  then have "mw_ReplacePathRegex (ob_Spec m) = Some \<lparr>rp_Regex = download_regex (route_paths atom) (lg_files (snd x)),
      rp_Replacement = second_group_behind (fst x)\<rparr>"
    using downloadm.spec_of_prep [OF assms(2) fix1] by (simp add: download_prep_def second_group_behind_def)
  moreover have "list_all plain_text (route_paths atom)"
    using assms(4) by (simp add: plain_downloads_def)
  ultimately show ?thesis
    using rewrite_contractD [OF assms(1,5,7) _ assms(6,8,9)]
    unfolding through_def key m [unfolded key(1)] by simp
qed

section \<open>The way of a request\<close>

text \<open>Steps that each leave a path alone or take it to one target, which none of them changes.\<close>

lemma foldl_to_target:
  assumes "\<forall>x\<in>set xs. F path x = path \<or> F path x = target" and "\<forall>x\<in>set xs. F target x = target"
    and "\<exists>x\<in>set xs. F path x = target"
  shows "foldl F path xs = target"
proof -
  have stay: "foldl F target ys = target" if "set ys \<subseteq> set xs" for ys
    using that assms(2) by (induction ys) auto
  show ?thesis
    using assms(1,3) stay
  proof (induction xs)
    case (Cons x xs)
    show ?case
    proof (cases "F path x = target")
      case True
      then show ?thesis using Cons.prems(3) [of xs] by auto
    next
      case False
      then have "F path x = path" using Cons.prems(1) by simp
      moreover have "foldl F path xs = target"
        using Cons.prems False by (intro Cons.IH) auto
      ultimately show ?thesis by simp
    qed
  qed simp
qed

lemma plain_blob:
  assumes "has_blob_key l" and "plain_text (dl_Data l)"
  shows "plain_text (blob_prefix l)" and "plain_text (blob_name l)"
  using assms(2) unfolding blob_parts(3) [OF assms(1)] by simp_all

text \<open>The groups: plain names, and a file of a group that matches an unshadowed link is in the link's group.\<close>

lemma group_facts:
  assumes "list_all has_blob_key (GetDownloadLinks atom)"
    and "getDownloadLinkGroups (GetDownloadLinks atom) = Ret G" and "plain_downloads atom" and "x \<in> set G"
  shows "plain_text (fst x)" and "list_all plain_text (lg_files (snd x))" and "lg_files (snd x) \<noteq> []"
    and "unshadowed atom l \<Longrightarrow> list_ex (\<lambda>f. pat_prefix f (blob_name l)) (lg_files (snd x)) \<Longrightarrow> fst x = blob_prefix l"
proof -
  have x: "(fst x, snd x) \<in> set G" using assms(4) by simp
  have plain: "plain_text (blob_prefix l')" "plain_text (blob_name l')" if "l' \<in> set (GetDownloadLinks atom)" for l'
    using that plain_blob assms(1,3) by (simp_all add: list_all_iff plain_downloads_def)
  have files: "lg_files (snd x) = map blob_name (filter (\<lambda>l. blob_prefix l = fst x) (GetDownloadLinks atom))"
    by (rule dlg.members [OF assms(1,2) x])
  have "fst x \<in> blob_prefix ` set (GetDownloadLinks atom)"
    using dlg.keys [OF assms(1,2)] assms(4) by force
  then show "plain_text (fst x)" using plain(1) by auto
  show "list_all plain_text (lg_files (snd x))" using plain(2) by (auto simp: files list_all_iff)
  show "lg_files (snd x) \<noteq> []" by (rule dlg.group_nonempty [OF assms(1,2) x])
  show "fst x = blob_prefix l" if "unshadowed atom l" "list_ex (\<lambda>f. pat_prefix f (blob_name l)) (lg_files (snd x))"
    using that by (auto simp: files unshadowed_def list_ex_iff)
qed

text \<open>All the download middlewares, in any order, take the address of a link to its key.\<close>

lemma through_downloads:
  assumes "rewrite_contract T" and "ownership_contract (ev_libs E)"
    and "list_all has_blob_key (GetDownloadLinks atom)" and "getDownloadLinkGroups (GetDownloadLinks atom) = Ret G"
    and "\<forall>x\<in>set G. settled view (plan_download E atom x) w" and "plain_downloads atom"
    and "l \<in> set (GetDownloadLinks atom)" and "unshadowed atom l" and "U \<in> set (route_paths atom)"
    and "\<not> sublist downloads_dir (U @ [slash])" and "\<not> sublist downloads_dir (slash # dl_Data l)"
    and "set names = (\<lambda>x. snd (snd (download_key atom x))) ` set G"
  shows "foldl (through T view w (at_Namespace atom)) (U @ downloads_dir @ blob_name l) names = slash # dl_Data l"
proof -
  let ?path = "U @ downloads_dir @ blob_name l"
  have l: "has_blob_key l" "plain_text (dl_Data l)"
    using assms(3,6,7) by (simp_all add: list_all_iff plain_downloads_def)
  note name = blob_parts(3,4) [OF l(1)]
  have U: "plain_text U" "route_paths atom \<noteq> []"
    using assms(6,9) by (auto simp: plain_downloads_def list_all_iff)
  have step: "through T view w (at_Namespace atom) path (snd (snd (download_key atom x))) =
      (case pattern_match (route_paths atom) (lg_files (snd x)) path of
         None \<Rightarrow> path | Some rest \<Rightarrow> slash # fst x @ slash # rest)"
    if "x \<in> set G" "plain_text path" for x path
    using group_facts(1,2,3) [OF assms(3,4,6) that(1)] assms(5) that U(2)
    by (intro through_download [OF assms(1,2) _ assms(6)]) simp_all
  have at_path: "through T view w (at_Namespace atom) ?path (snd (snd (download_key atom x))) =
      (if list_ex (\<lambda>f. pat_prefix f (blob_name l)) (lg_files (snd x)) then slash # dl_Data l else ?path)"
    if x: "x \<in> set G" for x
    using step [OF x, of ?path] U(1) plain_blob [OF l] pattern_match_download [OF assms(10) name(2) assms(9)]
      group_facts(4) [OF assms(3,4,6) x assms(8)] name(1)
    by (simp add: downloads_dir_simps)
  have at_target: "through T view w (at_Namespace atom) (slash # dl_Data l) (snd (snd (download_key atom x))) =
      slash # dl_Data l" if "x \<in> set G" for x
    using step [OF that, of "slash # dl_Data l"] l(2) pattern_match_elsewhere [OF assms(11)] by simp
  obtain g where g: "map_of G (blob_prefix l) = Some g" "blob_name l \<in> set (lg_files g)"
    using dlg.link_in_its_group [OF assms(3,4,7)] by blast
  then have own: "(blob_prefix l, g) \<in> set G" "list_ex (\<lambda>f. pat_prefix f (blob_name l)) (lg_files g)"
    using pat_prefix_refl [of "blob_name l" "[]"] by (auto simp: map_of_SomeD list_ex_iff)
  show ?thesis
  proof (rule foldl_to_target)
    show "\<forall>n\<in>set names. through T view w (at_Namespace atom) ?path n = ?path \<or>
        through T view w (at_Namespace atom) ?path n = slash # dl_Data l"
      unfolding assms(12) using at_path by simp
    show "\<forall>n\<in>set names. through T view w (at_Namespace atom) (slash # dl_Data l) n = slash # dl_Data l"
      unfolding assms(12) using at_target by simp
    show "\<exists>n\<in>set names. through T view w (at_Namespace atom) ?path n = slash # dl_Data l"
      unfolding assms(12) using at_path [OF own(1)] own by force
  qed
qed

section \<open>The stored route\<close>

text \<open>For every URL of the Atom the IngressRoute has a route to the store, with the same middlewares.\<close>

lemma ingress_routes_urls:
  "ingress_routes ord L atom =
     go_bind (downloadMiddlewareRefs ord atom) (\<lambda>ms.
     go_bind (go_map (\<lambda>i. getRoutesForURL L atom (iru_URL i) ms) (route_urls atom)) (\<lambda>routes. Ret (concat routes)))"
  unfolding ingress_routes_def route_urls_def
  by (cases "downloadMiddlewareRefs ord atom"; cases "slice (as_IngressRouteURLs (at_Spec atom))")
    (auto split: go.split simp: go_simps; cases "getRoutesForURL L atom (sv_BaseURL (at_Service atom)) x1"; simp)+

lemma storage_route:
  assumes "ingress_routes ord L atom = Ret rs" and "downloadMiddlewareRefs ord atom = Ret ms"
    and "i \<in> set (route_urls atom)" and "iru_URL i = Some u"
  shows "azureStorageRule L atom u ms \<in> set rs"
proof -
  obtain routes where routes: "go_map (\<lambda>i. getRoutesForURL L atom (iru_URL i) ms) (route_urls atom) = Ret routes"
    and rs: "rs = concat routes"
    using assms(1,2) by (auto simp: ingress_routes_urls go_bind_eq_Ret)
  obtain r where r: "getRoutesForURL L atom (iru_URL i) ms = Ret r" "r \<in> set routes"
    using routes assms(3) unfolding go_map_eq_Ret list_all2_conv_all_nth in_set_conv_nth by metis
  have "azureStorageRule L atom u ms \<in> set r"
    using r(1) assms(4) by (auto simp: getRoutesForURL_def go_simps)
  with r(2) show ?thesis unfolding rs set_concat by blast
qed

lemma headers_through:
  assumes "ownership_contract L"
    and "settled view (kobj_key (KMiddleware (getBareHeadersMiddleware atom)),
      on_Middleware (\<lambda>m. mutateHeadersMiddleware L atom m csp)) w"
  shows "through T view w (at_Namespace atom) path (at_Name atom @ headersSuffix) = path"
proof -
  obtain m where m: "view w (MiddlewareKind, ob_Namespace (getBareHeadersMiddleware atom),
      ob_Name (getBareHeadersMiddleware atom)) = Some (KMiddleware m)"
    and fix1: "mutateHeadersMiddleware L atom m csp = Ret (m, None)"
    using settled_Middleware [OF assms(2)] .
  have "mw_ReplacePathRegex (ob_Spec m) = None"
    using headersm.spec_of_prep [OF assms(1) fix1] by (simp add: headers_prep_def empty_MiddlewareBody_def)
  moreover have "ob_Namespace (getBareHeadersMiddleware atom) = at_Namespace atom"
    "ob_Name (getBareHeadersMiddleware atom) = at_Name atom @ headersSuffix"
    by (simp_all add: getBareHeadersMiddleware_def Let_def)
  ultimately show ?thesis using m by (simp add: through_def)
qed

lemma download_served:
  assumes "rewrite_contract T" and "sound_env E view"
    and "getDownloadLinkGroups (GetDownloadLinks atom) = Ret G" and "all_settled view (plan_others E atom oi c G) w"
    and "plain_downloads atom" and "l \<in> set (GetDownloadLinks atom)" and "unshadowed atom l"
    and "i \<in> set (route_urls atom)" and "iru_URL i = Some u"
    and "\<not> sublist downloads_dir (url_Path u @ [slash])" and "\<not> sublist downloads_dir (slash # dl_Data l)"
  obtains ingress route
  where "view w (IngressRouteKind, at_Namespace atom, at_Name atom @ nameSuffix) = Some (KIngressRoute ingress)"
    and "route \<in> set (ir_Routes (ob_Spec ingress))"
    and "rt_Match route = getMatchRule (JoinPath u [''downloads/'']) True"
    and "foldl (through T view w (at_Namespace atom)) (url_Path u @ downloads_dir @ blob_name l) (rt_Middlewares route) =
      slash # dl_Data l"
proof -
  note sound = sound_env_parts [OF assms(2)]
  have keys: "list_all has_blob_key (GetDownloadLinks atom)"
    using assms(3) getDownloadLinkGroups_panics by (metis panics.simps(1))
  have orders: "iteration_order (ev_ord E)" "iteration_order (ev_ord_ingress E)"
    using assms(2) by (simp_all add: sound_env_def)
  have settled: "settled view (kobj_key (KIngressRoute (getBareIngressRoute atom)),
        on_IngressRoute (mutateIngressRoute (ev_ord_ingress E) (ev_libs E) atom)) w"
      "settled view (kobj_key (KMiddleware (getBareHeadersMiddleware atom)),
        on_Middleware (\<lambda>m. mutateHeadersMiddleware (ev_libs E) atom m (rc_CSP (ev_reconciler E)))) w"
      "\<forall>x\<in>set G. settled view (plan_download E atom x) w"
    using assms(4) iteration_order_set [OF orders(1), of G]
    by (auto simp: plan_others_def plan_before_def plan_after_def all_settled_def list_all_iff)
  obtain ingress where i1: "view w (IngressRouteKind, ob_Namespace (getBareIngressRoute atom),
      ob_Name (getBareIngressRoute atom)) = Some (KIngressRoute ingress)"
    and i2: "mutateIngressRoute (ev_ord_ingress E) (ev_libs E) atom ingress = Ret (ingress, None)"
    using settled_IngressRoute [OF settled(1)] .
  let ?names = "sort (map (\<lambda>x. ob_Name (getBareDownloadLinkMiddleware atom (the (lg_index (snd x))))) G)"
  have refs: "downloadMiddlewareRefs (ev_ord_ingress E) atom = Ret ?names"
    by (rule downloadMiddlewareRefs_eq [OF orders(2) _ assms(3)]) (simp add: atom_keys_valid_def keys)
  obtain an rs where an: "ingress_annotations (ev_libs E) atom = Ret an"
    and rs: "ingress_routes (ev_ord_ingress E) (ev_libs E) atom = Ret rs"
    using i2 by (auto simp: mutateIngressRoute_def go_bind_eq_Ret)
  have "ir_Routes (ob_Spec ingress) = rs"
    using ingressm.spec_of_prep [OF sound(3) i2] by (simp add: ingress_prep_def an rs)
  then have member: "azureStorageRule (ev_libs E) atom u ?names \<in> set (ir_Routes (ob_Spec ingress))"
    using storage_route [OF rs refs assms(8,9)] by simp
  have U: "url_Path u \<in> set (route_paths atom)"
    using assms(8,9) by (force simp: route_paths_def)
  have "set ?names = (\<lambda>x. snd (snd (download_key atom x))) ` set G"
    by (simp add: download_key_def)
  from through_downloads [OF assms(1) sound(3) keys assms(3) settled(3) assms(5-7) U assms(10,11) this]
  have "foldl (through T view w (at_Namespace atom)) (url_Path u @ downloads_dir @ blob_name l)
      (rt_Middlewares (azureStorageRule (ev_libs E) atom u ?names)) = slash # dl_Data l"
    using headers_through [OF sound(3) settled(2)] by (simp add: azureStorageRule_def)
  moreover have "rt_Match (azureStorageRule (ev_libs E) atom u ?names) = getMatchRule (JoinPath u [''downloads/'']) True"
    by (simp add: azureStorageRule_def)
  ultimately show thesis
    using that [OF _ member] i1 by (simp add: getBareIngressRoute_def)
qed

text \<open>
  The public address of a link under a URL with a plain path: it is printed with that path as it is, the
  rule of the route holds for it, and its path is the one that the middlewares are made for.
\<close>

abbreviation download_address :: "url \<Rightarrow> DownloadLink \<Rightarrow> url" where
  "download_address u l \<equiv> JoinPath u [''downloads'', blob_name l]"

lemma plain_segment_downloads: "plain_segment ''downloads''"
  by (simp add: plain_segment_def shouldEscape_def alphanum_def less_eq_char_def)

lemma download_address_plain:
  assumes "plain_url u segs" and "plain_segment (blob_name l)"
  shows "url_Path (download_address u l) = url_Path u @ downloads_dir @ blob_name l"
    and "EscapedPath (download_address u l) = url_Path (download_address u l)"
    and "prefix (url_Path (JoinPath u [''downloads/''])) (url_Path (download_address u l))"
    and "Hostname (JoinPath u [''downloads/'']) = Hostname (download_address u l)"
proof -
  have join: "download_address u l = u\<lparr>url_Path := abs_path (segs @ [''downloads'', blob_name l]), url_RawPath := []\<rparr>"
    using JoinPath_plain [OF assms(1), of "[''downloads'', blob_name l]"] assms(2) plain_segment_downloads by simp
  have path: "url_Path u = abs_path segs" using assms(1) by (simp add: plain_url_def)
  show address: "url_Path (download_address u l) = url_Path u @ downloads_dir @ blob_name l"
    by (simp add: join path url_simps downloads_dir_def)
  have "plain_url (download_address u l) (segs @ [''downloads'', blob_name l])"
    using assms plain_segment_downloads unfolding join by (simp add: plain_url_def)
  then show "EscapedPath (download_address u l) = url_Path (download_address u l)"
    using EscapedPath_plain by (simp add: plain_url_def)
  have "url_Path (JoinPath u [''downloads/'']) = url_Path u @ downloads_dir"
    using JoinPath_plain_slash [OF assms(1) plain_segment_downloads]
    by (simp add: path url_simps downloads_dir_def)
  then show "prefix (url_Path (JoinPath u [''downloads/''])) (url_Path (download_address u l))"
    by (simp add: address)
  show "Hostname (JoinPath u [''downloads/'']) = Hostname (download_address u l)"
    by (simp add: Hostname_def url_simps)
qed

text \<open>Behind the base URL it is the address that the feed publishes.\<close>

lemma published_address:
  assumes "getDownloadLinkGroups (GetDownloadLinks atom) = Ret G" and "l \<in> set (GetDownloadLinks atom)"
    and "sv_BaseURL (at_Service atom) = Some u"
  shows "getDownloadLinkHref l atom = ok (url_String (download_address u l))"
proof -
  have "has_blob_key l"
    using assms(1,2) getDownloadLinkGroups_panics unfolding list_all_iff by (metis panics.simps(1))
  then show ?thesis by (simp add: getDownloadLinkHref_def joined_def blob_parts(2) assms(3) go_simps)
qed

text \<open>
  The other way round: the first middleware on the route with a matching file decides, whatever group the
  link is in.
\<close>

lemma first_match_decides:
  assumes "rewrite_contract T" and "ownership_contract (ev_libs E)"
    and "list_all has_blob_key (GetDownloadLinks atom)" and "getDownloadLinkGroups (GetDownloadLinks atom) = Ret G"
    and "\<forall>x\<in>set G. settled view (plan_download E atom x) w" and "plain_downloads atom"
    and "plain_text n" and "slash \<notin> set n" and "U \<in> set (route_paths atom)"
    and "\<not> sublist downloads_dir (U @ [slash])" and "\<not> sublist downloads_dir (slash # fst x @ slash # n)"
    and "x \<in> set G" and "set pre \<subseteq> set G" and "set post \<subseteq> set G"
    and "list_ex (\<lambda>f. pat_prefix f n) (lg_files (snd x))"
    and "\<forall>y\<in>set pre. \<not> list_ex (\<lambda>f. pat_prefix f n) (lg_files (snd y))"
  shows "foldl (through T view w (at_Namespace atom)) (U @ downloads_dir @ n)
    (map (\<lambda>x. snd (snd (download_key atom x))) (pre @ x # post)) = slash # fst x @ slash # n"
proof -
  let ?F = "\<lambda>path y. through T view w (at_Namespace atom) path (snd (snd (download_key atom y)))"
  let ?path = "U @ downloads_dir @ n"
  have U: "plain_text U" "route_paths atom \<noteq> []"
    using assms(6,9) by (auto simp: plain_downloads_def list_all_iff)
  have step: "?F path y = (case pattern_match (route_paths atom) (lg_files (snd y)) path of
         None \<Rightarrow> path | Some rest \<Rightarrow> slash # fst y @ slash # rest)"
    if "y \<in> set G" "plain_text path" for y path
    using group_facts(1,2,3) [OF assms(3,4,6) that(1)] assms(5) that U(2)
    by (intro through_download [OF assms(1,2) _ assms(6)]) simp_all
  have at_path: "?F ?path y = (if list_ex (\<lambda>f. pat_prefix f n) (lg_files (snd y)) then slash # fst y @ slash # n else ?path)"
    if "y \<in> set G" for y
    using step [OF that, of ?path] U(1) assms(7) pattern_match_download [OF assms(10,8,9)]
    by (simp add: downloads_dir_simps)
  have "foldl ?F ?path pre = ?path"
    using assms(13,16) at_path by (induction pre) auto
  moreover have "?F ?path x = slash # fst x @ slash # n"
    using at_path [OF assms(12)] assms(15) by simp
  moreover have "foldl ?F (slash # fst x @ slash # n) post = slash # fst x @ slash # n"
    using assms(14) step [of _ "slash # fst x @ slash # n"] pattern_match_elsewhere [OF assms(11)] assms(7)
      group_facts(1) [OF assms(3,4,6,12)] by (induction post) auto
  ultimately show ?thesis by (simp add: foldl_map)
qed

end
