(* ===== verification/Registration.thy ===== *)
theory Registration
  imports Reconcile
begin

text \<open>
  What the operator tells the API machinery about itself: the versions of its resource with their types,
  \<open>api/v3/groupversion_info.go\<close> and \<open>api/v2beta1/groupversion_info.go\<close>, the objects whose changes start a
  reconcile, \<open>SetupWithManager\<close> of \<open>internal/controller/atom_controller.go\<close>, and the webhook,
  \<open>SetupAtomWebhookWithManager\<close> of \<open>internal/webhook/v3/atom_webhook.go\<close>. Go types are named by their package
  and name; what the machinery does with the descriptions is a parameter of the theory \<open>Startup\<close>.
\<close>

section \<open>The versions of the resource\<close>

record group_version =
  gv_Group :: string
  gv_Version :: string

definition GroupVersion :: group_version where
  "GroupVersion = \<lparr>gv_Group = ''pdok.nl'', gv_Version = ''v3''\<rparr>"

definition BetaGroupVersion :: group_version where
  "BetaGroupVersion = \<lparr>gv_Group = ''pdok.nl'', gv_Version = ''v2beta1''\<rparr>"

text \<open>A builder of controller-runtime collects the types of one version.\<close>

record scheme_builder =
  sb_GroupVersion :: group_version
  sb_types :: "string list"

definition Register :: "string list \<Rightarrow> scheme_builder \<Rightarrow> scheme_builder" where
  "Register objects b = b\<lparr>sb_types := sb_types b @ objects\<rparr>"

definition NewSchemeBuilder :: scheme_builder where
  "NewSchemeBuilder = \<lparr>sb_GroupVersion = GroupVersion, sb_types = []\<rparr>"

definition BetaNewSchemeBuilder :: scheme_builder where
  "BetaNewSchemeBuilder = \<lparr>sb_GroupVersion = BetaGroupVersion, sb_types = []\<rparr>"

definition SchemeBuilder :: scheme_builder where
  "SchemeBuilder = Register [''Atom'', ''AtomList''] NewSchemeBuilder"

definition BetaSchemeBuilder :: scheme_builder where
  "BetaSchemeBuilder = Register [''Atom'', ''AtomList''] BetaNewSchemeBuilder"

text \<open>A part of a scheme: that of a library, or the types of a builder.\<close>

datatype scheme_part = LibScheme string | BuilderScheme scheme_builder

section \<open>The controller and the webhook\<close>

record controller_builder =
  cb_For :: string
  cb_Owns :: "(string \<times> string) list"
  cb_Watches :: "(string \<times> string) list"

definition atom_controller :: controller_builder where
  "atom_controller =
     \<lparr>cb_For = ''pdoknlv3.Atom'',
      cb_Owns =
        [(''corev1.ConfigMap'', ''GenerationChangedPredicate''),
         (''appsv1.Deployment'', ''GenerationChangedPredicate''),
         (''corev1.Service'', ''GenerationChangedPredicate''),
         (''traefikiov1alpha1.Middleware'', ''GenerationChangedPredicate''),
         (''traefikiov1alpha1.IngressRoute'', ''GenerationChangedPredicate''),
         (''policyv1.PodDisruptionBudget'', ''GenerationChangedPredicate''),
         (''smoothoperatorv1.OwnerInfo'', ''GenerationChangedPredicate'')],
      cb_Watches = [(''appsv1.ReplicaSet'', ''GetReplicaSetEventHandlerForObj Atom'')]\<rparr>"

record webhook_builder =
  wb_For :: string
  wb_Validator :: string

definition atom_webhook :: webhook_builder where
  "atom_webhook = \<lparr>wb_For = ''pdoknlv3.Atom'', wb_Validator = ''AtomCustomValidator''\<rparr>"

section \<open>What is watched\<close>

fun go_type :: "kobj \<Rightarrow> string" where
  "go_type (KConfigMap x) = ''corev1.ConfigMap''"
| "go_type (KDeployment x) = ''appsv1.Deployment''"
| "go_type (KService x) = ''corev1.Service''"
| "go_type (KMiddleware x) = ''traefikiov1alpha1.Middleware''"
| "go_type (KIngressRoute x) = ''traefikiov1alpha1.IngressRoute''"
| "go_type (KPodDisruptionBudget x) = ''policyv1.PodDisruptionBudget''"
| "go_type (KAtom x) = ''pdoknlv3.Atom''"

text \<open>Every object that the cluster model knows is the Atom itself or of a type that the controller owns.\<close>

lemma known_types_watched: "go_type obj \<in> insert (cb_For atom_controller) (fst ` set (cb_Owns atom_controller))"
  by (cases obj) (simp_all add: atom_controller_def)

end
