(* ===== verification/Startup.thy ===== *)
theory Startup
  imports Registration
begin

text \<open>
  The start-up of the operator, \<open>cmd/main.go\<close>: the flags, the required ones, the package variables of the
  API, the options of the manager, and the registration of controller, webhook and health checks, each of
  which may end the process. The initialisation of the CRD, \<open>config/crd/embeds.go\<close>, is here too.

  The flag parser, the manager and the environment are the parameter \<open>boot_libs\<close>; logging is left out. \<open>main\<close>
  returns how the process ends together with what it has set up so far. The order in which Go ranges
  over the required flags is a parameter.
\<close>

section \<open>Initialisation of packages\<close>

text \<open>\<open>utilruntime.Must\<close> is a library function and a parameter.\<close>

definition main_init :: "(go_error option \<Rightarrow> unit go) \<Rightarrow> (scheme_part \<Rightarrow> go_error option) \<Rightarrow> unit go" where
  "main_init Must AddToScheme =
     go_bind (Must (AddToScheme (LibScheme ''clientgoscheme''))) (\<lambda>_.
     go_bind (Must (AddToScheme (BuilderScheme SchemeBuilder))) (\<lambda>_.
     go_bind (Must (AddToScheme (LibScheme ''traefikiov1alpha1''))) (\<lambda>_.
     Must (AddToScheme (LibScheme ''smoothoperatorv1'')))))"

text \<open>The types of v2beta1 are not among them: whether they could be added makes no difference.\<close>

lemma main_init_without_beta: "main_init Must (add(BuilderScheme BetaSchemeBuilder := e)) = main_init Must add"
  by (simp add: main_init_def SchemeBuilder_def BetaSchemeBuilder_def Register_def NewSchemeBuilder_def
      BetaNewSchemeBuilder_def GroupVersion_def BetaGroupVersion_def)

definition GetAtomCRD :: "(string \<Rightarrow> go_error + 'crd) \<Rightarrow> string \<Rightarrow> go_error + 'crd" where
  "GetAtomCRD Unmarshal atomCRD = Unmarshal atomCRD"

definition crd_init :: "(string \<Rightarrow> go_error + 'crd) \<Rightarrow> ('crd \<Rightarrow> go_error option) \<Rightarrow> string \<Rightarrow> unit go" where
  "crd_init Unmarshal AddValidator atomCRD =
     (case GetAtomCRD Unmarshal atomCRD of
        Inl err \<Rightarrow> Panic (PanicError err)
      | Inr crd \<Rightarrow> (case AddValidator crd of Some err \<Rightarrow> Panic (PanicError err) | None \<Rightarrow> Ret ()))"

section \<open>Flags\<close>

datatype flag_value = StringFlag string | BoolFlag bool | IntFlag "64 word"

definition registered_flags :: "(string \<times> flag_value) list" where
  "registered_flags =
     [(''metrics-bind-address'', StringFlag '':8080''),
      (''health-probe-bind-address'', StringFlag '':8081''),
      (''leader-elect'', BoolFlag False),
      (''metrics-secure'', BoolFlag True),
      (''cert-dir'', StringFlag []),
      (''enable-http2'', BoolFlag False),
      (''atom-baseurl'', StringFlag []),
      (''blob-endpoint'', StringFlag []),
      (''atom-generator-image'', StringFlag []),
      (''lighttpd-image'', StringFlag []),
      (''slack-webhook-url'', StringFlag []),
      (''log-level'', IntFlag 0),
      (''csp'', StringFlag [])]"

text \<open>The variables the flags are bound to, after parsing.\<close>

record flags =
  fg_metricsAddr :: string
  fg_probeAddr :: string
  fg_enableLeaderElection :: bool
  fg_secureMetrics :: bool
  fg_certDir :: string
  fg_enableHTTP2 :: bool
  fg_baseURL :: string
  fg_blobEndpoint :: string
  fg_atomGeneratorImage :: string
  fg_lighttpdImage :: string
  fg_slackWebhookURL :: string
  fg_logLevel :: "64 word"
  fg_csp :: string

fun the_string :: "flag_value \<Rightarrow> string" where
  "the_string (StringFlag s) = s" | "the_string v = []"

fun the_bool :: "flag_value \<Rightarrow> bool" where
  "the_bool (BoolFlag b) = b" | "the_bool v = False"

fun the_int :: "flag_value \<Rightarrow> 64 word" where
  "the_int (IntFlag n) = n" | "the_int v = 0"

definition bind_flags :: "(string \<Rightarrow> flag_value) \<Rightarrow> flags" where
  "bind_flags v =
     \<lparr>fg_metricsAddr = the_string (v ''metrics-bind-address''),
      fg_probeAddr = the_string (v ''health-probe-bind-address''),
      fg_enableLeaderElection = the_bool (v ''leader-elect''),
      fg_secureMetrics = the_bool (v ''metrics-secure''),
      fg_certDir = the_string (v ''cert-dir''),
      fg_enableHTTP2 = the_bool (v ''enable-http2''),
      fg_baseURL = the_string (v ''atom-baseurl''),
      fg_blobEndpoint = the_string (v ''blob-endpoint''),
      fg_atomGeneratorImage = the_string (v ''atom-generator-image''),
      fg_lighttpdImage = the_string (v ''lighttpd-image''),
      fg_slackWebhookURL = the_string (v ''slack-webhook-url''),
      fg_logLevel = the_int (v ''log-level''),
      fg_csp = the_string (v ''csp'')\<rparr>"

definition reqFlags :: "flags \<Rightarrow> (string \<times> string) list" where
  "reqFlags f =
     [(''baseurl'', fg_baseURL f), (''blobEndpoint'', fg_blobEndpoint f),
      (''atom-generator-image'', fg_atomGeneratorImage f), (''lighttpd-image'', fg_lighttpdImage f)]"

section \<open>The process\<close>

record tls_config =
  tls_NextProtos :: "string list"

definition disableHTTP2 :: "tls_config \<Rightarrow> tls_config" where
  "disableHTTP2 c = c\<lparr>tls_NextProtos := [''http/1.1'']\<rparr>"

record manager_options =
  mo_MetricsBindAddress :: string
  mo_SecureServing :: bool
  mo_MetricsTLSOpts :: "(tls_config \<Rightarrow> tls_config) list"
  mo_WebhookCertDir :: string
  mo_WebhookTLSOpts :: "(tls_config \<Rightarrow> tls_config) list"
  mo_HealthProbeBindAddress :: string
  mo_LeaderElection :: bool
  mo_LeaderElectionID :: string

text \<open>What has been set up: everything that later parts of the program can see.\<close>

record boot =
  bo_vars :: api_vars
  bo_manager :: "manager_options option"
  bo_controller :: "AtomReconciler option"
  bo_webhook :: bool
  bo_checks :: "string list"
  bo_started :: bool

text \<open>\<open>os.Exit(1)\<close> after a message, or the end of \<open>main\<close>.\<close>

datatype ending = Exit1 string | Returned

record boot_libs =
  ff_Parse :: "(string \<times> flag_value) list \<Rightarrow> go_error + (string \<Rightarrow> flag_value)"
  NewManager :: "manager_options \<Rightarrow> go_error option"
  ctrl_Complete :: "controller_builder \<Rightarrow> AtomReconciler \<Rightarrow> go_error option"
  Getenv :: "string \<Rightarrow> string"
  wh_Complete :: "webhook_builder \<Rightarrow> go_error option"
  AddHealthzCheck :: "string \<Rightarrow> go_error option"
  AddReadyzCheck :: "string \<Rightarrow> go_error option"
  mgr_Start :: "go_error option"

definition SetupWithManager :: "boot_libs \<Rightarrow> AtomReconciler \<Rightarrow> go_error option" where
  "SetupWithManager L r = ctrl_Complete L atom_controller r"

definition SetupAtomWebhookWithManager :: "boot_libs \<Rightarrow> go_error option" where
  "SetupAtomWebhookWithManager L = wh_Complete L atom_webhook"

definition exit_if :: "go_error option \<Rightarrow> string \<Rightarrow> boot \<Rightarrow> (boot \<Rightarrow> ending \<times> boot) \<Rightarrow> ending \<times> boot" where
  "exit_if err msg s k = (case err of Some _ \<Rightarrow> (Exit1 msg, s) | None \<Rightarrow> k s)"

text \<open>The loop over the required flags: the message of the first one without a value.\<close>

fun missing_flag :: "(string \<times> string) list \<Rightarrow> string option" where
  "missing_flag [] = None"
| "missing_flag ((reqFlag, val) # rest) =
     (if val = [] then Some (''A value for '' @ reqFlag @ '' must be specified.'') else missing_flag rest)"

definition tlsOpts :: "flags \<Rightarrow> (tls_config \<Rightarrow> tls_config) list" where
  "tlsOpts f = (if \<not> fg_enableHTTP2 f then [disableHTTP2] else [])"

definition manager_options_of :: "flags \<Rightarrow> manager_options" where
  "manager_options_of f =
     \<lparr>mo_MetricsBindAddress = fg_metricsAddr f, mo_SecureServing = fg_secureMetrics f,
      mo_MetricsTLSOpts = tlsOpts f, mo_WebhookCertDir = fg_certDir f, mo_WebhookTLSOpts = tlsOpts f,
      mo_HealthProbeBindAddress = fg_probeAddr f, mo_LeaderElection = fg_enableLeaderElection f,
      mo_LeaderElectionID = ''29e70f77.pdok.nl''\<rparr>"

definition reconciler_of :: "flags \<Rightarrow> AtomReconciler" where
  "reconciler_of f =
     \<lparr>rc_AtomGeneratorImage = fg_atomGeneratorImage f, rc_LighttpdImage = fg_lighttpdImage f, rc_CSP = fg_csp f\<rparr>"

text \<open>The second half of \<open>main\<close>: manager, controller, webhook, health checks, run.\<close>

definition start_webhook :: "boot_libs \<Rightarrow> boot \<Rightarrow> (boot \<Rightarrow> ending \<times> boot) \<Rightarrow> ending \<times> boot" where
  "start_webhook L s k =
     (if Getenv L ''ENABLE_WEBHOOKS'' \<noteq> ''false''
      then exit_if (SetupAtomWebhookWithManager L) ''unable to create webhook'' s (\<lambda>s. k (s\<lparr>bo_webhook := True\<rparr>))
      else k s)"

definition start_manager :: "boot_libs \<Rightarrow> flags \<Rightarrow> boot \<Rightarrow> ending \<times> boot" where
  "start_manager L f s =
     exit_if (NewManager L (manager_options_of f)) ''unable to start manager'' s (\<lambda>s.
     exit_if (SetupWithManager L (reconciler_of f)) ''unable to create controller''
         (s\<lparr>bo_manager := Some (manager_options_of f)\<rparr>) (\<lambda>s.
     start_webhook L (s\<lparr>bo_controller := Some (reconciler_of f)\<rparr>) (\<lambda>s.
     exit_if (AddHealthzCheck L ''healthz'') ''unable to set up health check'' s (\<lambda>s.
     exit_if (AddReadyzCheck L ''readyz'') ''unable to set up ready check''
         (s\<lparr>bo_checks := bo_checks s @ [''healthz'']\<rparr>) (\<lambda>s.
     exit_if (mgr_Start L) ''problem running manager''
         (s\<lparr>bo_checks := bo_checks s @ [''readyz''], bo_started := True\<rparr>) (\<lambda>s. (Returned, s)))))))"

definition main ::
  "boot_libs \<Rightarrow> ((string \<times> string) list \<Rightarrow> (string \<times> string) list) \<Rightarrow> boot \<Rightarrow> ending \<times> boot" where
  "main L ord s =
     (case ff_Parse L registered_flags of
        Inl err \<Rightarrow> (Exit1 ''unable to parse flags'', s)
      | Inr vals \<Rightarrow>
          (let f = bind_flags vals
           in case missing_flag (ord (reqFlags f)) of
                Some msg \<Rightarrow> (Exit1 msg, s)
              | None \<Rightarrow>
                  start_manager L f
                    (s\<lparr>bo_vars := SetBlobEndpoint (fg_blobEndpoint f) (SetBaseURL (fg_baseURL f) (bo_vars s))\<rparr>)))"

definition fresh_boot :: boot where
  "fresh_boot = \<lparr>bo_vars = \<lparr>av_baseURL = [], av_blobEndpoint = []\<rparr>, bo_manager = None, bo_controller = None,
     bo_webhook = False, bo_checks = [], bo_started = False\<rparr>"

section \<open>What runs when the manager runs\<close>

lemma missing_flag_None: "missing_flag xs = None \<longleftrightarrow> list_all (\<lambda>x. snd x \<noteq> []) xs"
  by (induction xs rule: missing_flag.induct) simp_all

lemma missing_flag_order:
  assumes "mset (ord xs) = mset xs"
  shows "missing_flag (ord xs) = None \<longleftrightarrow> list_all (\<lambda>x. snd x \<noteq> []) xs"
  using mset_eq_setD [OF assms] by (simp add: missing_flag_None list_all_iff)

lemma missing_flag_Some:
  "missing_flag xs = Some msg \<Longrightarrow> \<exists>n. (n, []) \<in> set xs \<and> msg = ''A value for '' @ n @ '' must be specified.''"
  by (induction xs rule: missing_flag.induct) (auto split: if_splits)

lemma exit_if_started:
  assumes "exit_if err msg s k = (e, s')" and "bo_started s'" and "\<not> bo_started s"
  shows "k s = (e, s')"
  using assms by (cases err) (auto simp: exit_if_def)

lemma start_webhook_started:
  assumes "start_webhook L s k = (e, s')" and "bo_started s'" and "\<not> bo_started s" and "\<not> bo_webhook s"
  shows "k (s\<lparr>bo_webhook := Getenv L ''ENABLE_WEBHOOKS'' \<noteq> ''false''\<rparr>) = (e, s')"
proof (cases "Getenv L ''ENABLE_WEBHOOKS'' = ''false''")
  case True
  moreover have "s\<lparr>bo_webhook := False\<rparr> = s" using assms(4) by simp
  ultimately show ?thesis using assms(1) by (simp add: start_webhook_def)
next
  case False
  then show ?thesis
    using assms(1) exit_if_started [OF _ assms(2,3)] by (simp add: start_webhook_def)
qed

lemma start_manager_started:
  assumes "start_manager L f s = (e, s')" and "bo_started s'" and "\<not> bo_started s" and "\<not> bo_webhook s"
  shows "s' = s\<lparr>bo_manager := Some (manager_options_of f), bo_controller := Some (reconciler_of f),
      bo_webhook := Getenv L ''ENABLE_WEBHOOKS'' \<noteq> ''false'', bo_checks := bo_checks s @ [''healthz'', ''readyz''],
      bo_started := True\<rparr>"
    and "e = (case mgr_Start L of None \<Rightarrow> Returned | Some _ \<Rightarrow> Exit1 ''problem running manager'')"
proof -
  note next1 = exit_if_started [OF assms(1) [unfolded start_manager_def] assms(2,3)]
  note next2 = exit_if_started [OF next1 assms(2), simplified, OF assms(3)]
  note next3 = start_webhook_started [OF next2 assms(2), simplified, OF assms(3,4)]
  note next4 = exit_if_started [OF next3 assms(2), simplified, OF assms(3)]
  note next5 = exit_if_started [OF next4 assms(2), simplified, OF assms(3)]
  show "s' = s\<lparr>bo_manager := Some (manager_options_of f), bo_controller := Some (reconciler_of f),
      bo_webhook := Getenv L ''ENABLE_WEBHOOKS'' \<noteq> ''false'', bo_checks := bo_checks s @ [''healthz'', ''readyz''],
      bo_started := True\<rparr>"
    "e = (case mgr_Start L of None \<Rightarrow> Returned | Some _ \<Rightarrow> Exit1 ''problem running manager'')"
    using next5 by (cases "mgr_Start L"; simp add: exit_if_def)+
qed

lemma main_started:
  assumes "main L ord fresh_boot = (e, s)" and "bo_started s" and "\<And>xs. mset (ord xs) = mset xs"
  obtains vals where "ff_Parse L registered_flags = Inr vals"
    and "list_all (\<lambda>x. snd x \<noteq> []) (reqFlags (bind_flags vals))"
    and "start_manager L (bind_flags vals)
      (fresh_boot\<lparr>bo_vars := \<lparr>av_baseURL = str_TrimSuffix (fg_baseURL (bind_flags vals)) ''/'',
         av_blobEndpoint = fg_blobEndpoint (bind_flags vals)\<rparr>\<rparr>) = (e, s)"
proof -
  obtain vals where parse: "ff_Parse L registered_flags = Inr vals"
    using assms(1,2) by (auto simp: main_def fresh_boot_def split: sum.splits)
  moreover have all: "missing_flag (ord (reqFlags (bind_flags vals))) = None"
    using assms(1,2) parse by (auto simp: main_def fresh_boot_def Let_def split: option.splits)
  ultimately show thesis
    using assms(1) that missing_flag_order [of ord "reqFlags (bind_flags vals)"] assms(3)
    by (simp add: main_def Let_def SetBaseURL_def SetBlobEndpoint_def fresh_boot_def)
qed

end
