(* ===== verification/System.thy ===== *)
theory System
  imports Success Webhook
begin

text \<open>
  The operator in its cluster, as a step relation: users create, update and delete Atoms through the
  webhook and change OwnerInfos as they like, and the manager calls \<open>Reconcile\<close> at any time for any
  request. The invariants of the reachable states are proved by rule induction.

  The API server's own writes (storing an Atom or an OwnerInfo) are the parameters of \<open>server\<close>.
\<close>

record 'w server =
  PutAtom :: "Atom \<Rightarrow> 'w \<Rightarrow> 'w"
  PutOwnerInfo :: "OwnerInfo \<Rightarrow> 'w \<Rightarrow> 'w"
  RemoveAtom :: "string \<times> string \<Rightarrow> 'w \<Rightarrow> 'w"

text \<open>One change of the cluster.\<close>

inductive cluster_step :: "'w env \<Rightarrow> validation_libs \<Rightarrow> 'w server \<Rightarrow> 'w \<Rightarrow> 'w \<Rightarrow> bool"
  for E :: "'w env" and V :: validation_libs and S :: "'w server"
where
  create: "admitted (webhook_ValidateCreate V (GetOwnerInfo (ev_client E) w) (AtomObj atom)) \<Longrightarrow>
    cluster_step E V S w (PutAtom S atom w)"
| update: "GetAtom (ev_client E) w (at_Namespace atom, at_Name atom) = Inr old \<Longrightarrow>
    webhook_ValidateUpdate V (GetOwnerInfo (ev_client E) w) (AtomObj old) (AtomObj atom) = Ret r \<Longrightarrow>
    admitted r \<Longrightarrow> cluster_step E V S w (PutAtom S atom w)"
| owner: "cluster_step E V S w (PutOwnerInfo S oi w)"
| remove: "admitted (webhook_ValidateDelete (AtomObj atom)) \<Longrightarrow>
    cluster_step E V S w (RemoveAtom S (at_Namespace atom, at_Name atom) w)"
| reconcile: "cluster_step E V S w (snd (Reconcile E req now w))"

inductive cluster_reachable :: "'w env \<Rightarrow> validation_libs \<Rightarrow> 'w server \<Rightarrow> 'w \<Rightarrow> 'w \<Rightarrow> bool"
  for E :: "'w env" and V :: validation_libs and S :: "'w server" and w0 :: 'w
where
  start: "cluster_reachable E V S w0 w0"
| step: "cluster_reachable E V S w0 w \<Longrightarrow> cluster_step E V S w w' \<Longrightarrow> cluster_reachable E V S w0 w'"

section \<open>What the server is assumed to do\<close>

text \<open>
  Storing an Atom or an OwnerInfo changes no other object, and reading an Atom gives a specification that
  was stored under its name; the client's writes keep the specifications of the Atoms.
\<close>

definition specs_kept :: "'w client \<Rightarrow> 'w \<Rightarrow> 'w \<Rightarrow> bool" where
  "specs_kept C w w' \<longleftrightarrow>
     (\<forall>r a'. GetAtom C w' r = Inr a' \<longrightarrow> (\<exists>a. GetAtom C w r = Inr a \<and> at_Spec a' = at_Spec a))"

definition server_contract :: "'w client \<Rightarrow> 'w server \<Rightarrow> 'w view \<Rightarrow> bool" where
  "server_contract C S view \<longleftrightarrow>
     (\<forall>atom w. view (PutAtom S atom w) = view w) \<and> (\<forall>oi w. view (PutOwnerInfo S oi w) = view w) \<and>
     (\<forall>r w. view (RemoveAtom S r w) = view w) \<and>
     (\<forall>atom w r a'. GetAtom C (PutAtom S atom w) r = Inr a' \<longrightarrow>
        at_Spec a' = at_Spec atom \<or> (\<exists>a. GetAtom C w r = Inr a \<and> at_Spec a' = at_Spec a)) \<and>
     (\<forall>oi w. specs_kept C w (PutOwnerInfo S oi w)) \<and> (\<forall>r w. specs_kept C w (RemoveAtom S r w))"

lemma server_contract_parts:
  assumes "server_contract C S view"
  shows "view (PutAtom S atom w) = view w" and "view (PutOwnerInfo S oi w) = view w"
    and "view (RemoveAtom S r w) = view w"
    and "GetAtom C (PutAtom S atom w) r = Inr a' \<Longrightarrow>
      at_Spec a' = at_Spec atom \<or> (\<exists>a. GetAtom C w r = Inr a \<and> at_Spec a' = at_Spec a)"
    and "specs_kept C w (PutOwnerInfo S oi w)" and "specs_kept C w (RemoveAtom S r w)"
  using assms by (cases r; simp add: server_contract_def; fail)+

definition client_keeps_specs :: "'w client \<Rightarrow> bool" where
  "client_keeps_specs C \<longleftrightarrow>
     (\<forall>obj mut w. specs_kept C w (snd (CreateOrUpdate C obj mut w))) \<and>
     (\<forall>atom e w. specs_kept C w (LogAndUpdateStatusError C atom e w)) \<and>
     (\<forall>atom rs w. specs_kept C w (LogAndUpdateStatusFinished C atom rs w)) \<and>
     (\<forall>atom w. specs_kept C w (snd (DeleteAtom C atom w)))"

section \<open>A property that every write keeps\<close>

definition kept_by_creates :: "'w client \<Rightarrow> ('w \<Rightarrow> bool) \<Rightarrow> bool" where
  "kept_by_creates C I \<longleftrightarrow>
     (\<forall>obj mut w. I w \<longrightarrow> I (snd (CreateOrUpdate C obj mut w))) \<and>
     (\<forall>atom e w. I w \<longrightarrow> I (LogAndUpdateStatusError C atom e w)) \<and>
     (\<forall>atom rs w. I w \<longrightarrow> I (LogAndUpdateStatusFinished C atom rs w))"

definition kept_by_writes :: "'w client \<Rightarrow> ('w \<Rightarrow> bool) \<Rightarrow> bool" where
  "kept_by_writes C I \<longleftrightarrow>
     kept_by_creates C I \<and> (\<forall>atom w. I w \<longrightarrow> I (snd (DeleteAtom C atom w)))"

lemma kept_by_writes_creates: "kept_by_writes C I \<Longrightarrow> kept_by_creates C I"
  by (simp add: kept_by_writes_def)

abbreviation preserves :: "('w \<Rightarrow> bool) \<Rightarrow> ('a, 'w) step \<Rightarrow> bool" where
  "preserves I m \<equiv> triple I m (\<lambda>_. I) I"

lemma preserves_lift: "preserves I (step_lift r)"
  by (rule triple_lift) simp_all

lemma preserves_bind: "preserves I m \<Longrightarrow> (\<And>x. preserves I (f x)) \<Longrightarrow> preserves I (step_bind m f)"
  by (rule triple_bind)

lemma preserves_for: "(\<And>x. preserves I (f x)) \<Longrightarrow> preserves I (step_for f xs)"
  using triple_for [of xs "\<lambda>_. I" f I] by simp

lemma create_or_update_preserves:
  assumes "kept_by_creates C I"
  shows "preserves I (create_or_update C key msg tolerated obj mut)"
  unfolding triple_def
proof (intro allI impI)
  fix rs w
  assume "I w"
  then have kept: "I (snd (CreateOrUpdate C obj mut w))"
    using assms unfolding kept_by_creates_def by blast
  obtain r w' where r: "CreateOrUpdate C obj mut w = (r, w')" by fastforce
  show "outcome (\<lambda>_. I) I (create_or_update C key msg tolerated obj mut (rs, w))"
    using kept r by (cases r) (auto simp: create_or_update_def split: option.split)
qed

lemma apply_object_preserves:
  "kept_by_creates C I \<Longrightarrow> preserves I (apply_object C msg tolerated obj mut)"
  unfolding apply_object_def
  by (rule preserves_bind [OF create_or_update_preserves]) (auto intro: triple_ok)

lemma createOrUpdateAll_preserves:
  assumes "kept_by_creates (ev_client E) I"
  shows "preserves I (createOrUpdateAllForAtom E atom oi)"
  unfolding createOrUpdateAllForAtom_def apply_configMap_def apply_deployment_def apply_service_def
    apply_stripPrefix_def apply_headers_def apply_downloads_def apply_download_def apply_ingressRoute_def
    apply_podDisruptionBudget_def Let_def case_prod_unfold
  by (intro preserves_bind preserves_lift preserves_for create_or_update_preserves apply_object_preserves assms)

text \<open>Below the \<open>defer\<close>, nothing is deleted while the Atom is not expired.\<close>

lemma reconcile_found_preserves:
  assumes "kept_by_creates (ev_client E) I" and "I w" and "\<not> ttlExpired atom now"
  shows "I (snd (reconcile_found E now atom oi w))"
proof -
  have "outcome (\<lambda>_. I) I (createOrUpdateAllForAtom E atom oi (Map.empty, w))"
    using createOrUpdateAll_preserves [OF assms(1)] assms(2) unfolding triple_def by blast
  then show ?thesis
    using assms(1,3) unfolding kept_by_creates_def
    by (cases "createOrUpdateAllForAtom E atom oi (Map.empty, w)" rule: step_cases)
      (auto simp: reconcile_found_def Let_def)
qed

lemma recovering_preserves:
  "kept_by_creates (ev_client E) I \<Longrightarrow> I (snd r) \<Longrightarrow> I (snd (recovering (ev_client E) atom r))"
  unfolding kept_by_creates_def by (auto simp: recovering_def Let_def split: prod.split go.split)

lemma Reconcile_alive_preserves:
  assumes "kept_by_creates (ev_client E) I" and "I w"
    and "GetAtom (ev_client E) w req = Inr atom"
    and "GetOwnerInfo (ev_client E) w (at_Namespace atom, sv_OwnerInfoRef (at_Service atom)) = Inr oi"
    and "\<not> ttlExpired atom now"
  shows "I (snd (Reconcile E req now w))"
  using recovering_preserves [OF assms(1) reconcile_found_preserves [OF assms(1,2,5), where oi = oi]] assms(3,4)
  by (simp add: Reconcile_def Let_def)

lemma Reconcile_preserves:
  assumes "kept_by_writes (ev_client E) I" and "I w"
  shows "I (snd (Reconcile E req now w))"
proof -
  note creates = kept_by_writes_creates [OF assms(1)]
  have "I (snd (reconcile_found E now atom oi w))" for atom oi
  proof (cases "ttlExpired atom now")
    case True
    then show ?thesis
      using assms unfolding kept_by_writes_def
      by (auto simp: reconcile_found_def Let_def split: prod.split) (metis snd_conv)
  next
    case False
    then show ?thesis by (rule reconcile_found_preserves [OF creates assms(2)])
  qed
  from recovering_preserves [OF creates this] show ?thesis
    using assms(2) by (auto simp: Reconcile_def Let_def split: sum.split)
qed

section \<open>The invariants of the reachable states\<close>

text \<open>Every stored Atom passes the checks of feeds and base URL that the webhook makes.\<close>

definition spec_checked :: "validation_libs \<Rightarrow> Atom \<Rightarrow> bool" where
  "spec_checked V atom \<longleftrightarrow>
     feeds_ok atom \<and>
     ValidateIngressRouteURLsContainsBaseURL V (as_IngressRouteURLs (at_Spec atom)) (sv_BaseURL (at_Service atom)) = None"

definition atoms_checked :: "validation_libs \<Rightarrow> 'w client \<Rightarrow> 'w \<Rightarrow> bool" where
  "atoms_checked V C w \<longleftrightarrow> (\<forall>r atom. GetAtom C w r = Inr atom \<longrightarrow> spec_checked V atom)"

lemma spec_checked_cong: "at_Spec a' = at_Spec a \<Longrightarrow> spec_checked V a' = spec_checked V a"
  by (simp add: spec_checked_def feeds_ok_def)

lemma atoms_checked_kept: "specs_kept C w w' \<Longrightarrow> atoms_checked V C w \<Longrightarrow> atoms_checked V C w'"
  unfolding atoms_checked_def specs_kept_def using spec_checked_cong by metis

lemma atoms_checked_put:
  assumes "server_contract C S view" and "atoms_checked V C w" and "spec_checked V atom"
  shows "atoms_checked V C (PutAtom S atom w)"
  unfolding atoms_checked_def
proof (intro allI impI)
  fix r a'
  assume "GetAtom C (PutAtom S atom w) r = Inr a'"
  from server_contract_parts(4) [OF assms(1) this]
  have "at_Spec a' = at_Spec atom \<or> (\<exists>a. GetAtom C w r = Inr a \<and> at_Spec a' = at_Spec a)" .
  then show "spec_checked V a'"
    using assms(2,3) spec_checked_cong unfolding atoms_checked_def by metis
qed

lemma client_keeps_specs_atoms:
  assumes "client_keeps_specs C"
  shows "kept_by_writes C (atoms_checked V C)"
proof -
  note kept = assms [unfolded client_keeps_specs_def]
  show ?thesis
    unfolding kept_by_writes_def kept_by_creates_def
  proof (intro conjI allI impI)
    fix obj mut w
    assume "atoms_checked V C w"
    then show "atoms_checked V C (snd (CreateOrUpdate C obj mut w))"
      by (rule atoms_checked_kept [rotated]) (rule kept [THEN conjunct1, rule_format])
  next
    fix atom e w
    assume "atoms_checked V C w"
    then show "atoms_checked V C (LogAndUpdateStatusError C atom e w)"
      by (rule atoms_checked_kept [rotated]) (rule kept [THEN conjunct2, THEN conjunct1, rule_format])
  next
    fix atom rs w
    assume "atoms_checked V C w"
    then show "atoms_checked V C (LogAndUpdateStatusFinished C atom rs w)"
      by (rule atoms_checked_kept [rotated])
        (rule kept [THEN conjunct2, THEN conjunct2, THEN conjunct1, rule_format])
  next
    fix atom w
    assume "atoms_checked V C w"
    then show "atoms_checked V C (snd (DeleteAtom C atom w))"
      by (rule atoms_checked_kept [rotated])
        (rule kept [THEN conjunct2, THEN conjunct2, THEN conjunct2, rule_format])
  qed
qed

lemma cluster_step_atoms_checked:
  assumes "cluster_step E V S w w'" and "server_contract (ev_client E) S view"
    and "client_keeps_specs (ev_client E)" and "atoms_checked V (ev_client E) w"
  shows "atoms_checked V (ev_client E) w'"
  using assms(1)
proof (cases rule: cluster_step.cases)
  case (create atom)
  then have "spec_checked V atom"
    by (auto simp: spec_checked_def admitted_create_iff ValidateCreate_accepts_iff)
  then show ?thesis using create(1) atoms_checked_put [OF assms(2,4)] by simp
next
  case (update atom old r)
  then obtain ws where "ValidateUpdate V (GetOwnerInfo (ev_client E) w) atom old = Ret (ws, None)"
    by (auto simp: webhook_ValidateUpdate_def go_bind_eq_Ret admitted_def answer_def)
  from ValidateUpdate_accepts [OF this] have "spec_checked V atom"
    by (simp add: spec_checked_def)
  then show ?thesis using update(1) atoms_checked_put [OF assms(2,4)] by simp
next
  case (owner oi)
  then show ?thesis
    unfolding owner(1) by (intro atoms_checked_kept [OF _ assms(4)] server_contract_parts [OF assms(2)])
next
  case (remove atom)
  then show ?thesis
    unfolding remove(1) by (intro atoms_checked_kept [OF _ assms(4)] server_contract_parts [OF assms(2)])
next
  case (reconcile req now)
  show ?thesis
    unfolding reconcile(1) by (rule Reconcile_preserves [OF client_keeps_specs_atoms [OF assms(3)] assms(4)])
qed

lemma cluster_step_refs_closed:
  assumes "cluster_step E V S w w'" and "server_contract (ev_client E) S view"
    and "sound_env E view" and "refs_closed view w"
  shows "refs_closed view w'"
proof -
  have same: "refs_closed view w2" if "view w2 = view w" for w2
    using assms(4) that by (simp add: refs_closed_def)
  note put = server_contract_parts [OF assms(2)]
  show ?thesis
    using assms(1)
  proof (cases rule: cluster_step.cases)
    case (reconcile req now)
    have "refs_closed view (snd (recovering (ev_client E) atom (reconcile_found E now atom oi w)))" for atom oi
      by (rule recovering_closed [OF sound_env_parts(1) [OF assms(3)] reconcile_found_closed [OF assms(3,4)]])
    then show ?thesis
      using assms(4) by (auto simp: reconcile(1) Reconcile_def Let_def split: sum.split)
  qed (simp_all add: same put(1-3))
qed

text \<open>Both, for all the states that can be reached.\<close>

lemma cluster_reachable_invariants:
  assumes "cluster_reachable E V S w0 w" and "server_contract (ev_client E) S view"
    and "client_keeps_specs (ev_client E)" and "sound_env E view"
    and "refs_closed view w0" and "atoms_checked V (ev_client E) w0"
  shows "refs_closed view w \<and> atoms_checked V (ev_client E) w"
  using assms(1)
proof (induction rule: cluster_reachable.induct)
  case start
  show ?case using assms(5,6) by simp
next
  case (step w w')
  then show ?case
    using cluster_step_refs_closed [OF step.hyps(2) assms(2,4)]
      cluster_step_atoms_checked [OF step.hyps(2) assms(2,3)] by simp
qed

end
