(* ===== verification/Isolation.thy ===== *)
theory Isolation
  imports System
begin

text \<open>
  Atoms do not get in each other's way: the objects of different Atoms have different keys, although their
  names are put together from the name of the Atom, a suffix and perhaps a number, and a reconcile writes
  the objects of its own Atom only. ConfigMaps are set apart, since their names end in a hash that a library
  chooses.
\<close>

section \<open>Keys of different Atoms\<close>

lemma itoa_chars: "c \<in> set (itoa n) \<Longrightarrow> 48 \<le> (of_char c :: nat) \<and> (of_char c :: nat) < 58"
proof (induction n rule: itoa.induct)
  case (1 n)
  have digit: "48 \<le> (of_char (char_of (48 + m mod 10) :: char) :: nat) \<and>
      (of_char (char_of (48 + m mod 10) :: char) :: nat) < 58" for m :: nat
  proof -
    have less: "48 + m mod 10 < 58" by simp
    then have "(48 + m mod 10) mod 256 = 48 + m mod 10" by (intro mod_less) linarith
    then show ?thesis using less by simp
  qed
  show ?case
    using 1 digit [of n] by (cases "n < 10") (auto simp: itoa.simps [of n])
qed

lemma itoa_last: "48 \<le> (of_char (last (itoa n)) :: nat) \<and> (of_char (last (itoa n)) :: nat) < 58"
  by (rule itoa_chars [of _ n], rule last_in_set) (simp add: itoa.simps [of n])

lemma itoa_no_dash: "CHR ''-'' \<notin> set (itoa n)"
  using itoa_chars [of "CHR ''-''" n] by auto

lemma last_split_eq:
  fixes c :: char
  assumes "xs @ c # s = ys @ c # t" and "c \<notin> set s" and "c \<notin> set t"
  shows "xs = ys \<and> s = t"
proof -
  have "length xs = length ys"
    using arg_cong [OF assms(1), of "\<lambda>z. str_LastIndex z c"] assms(2,3) by (simp add: str_simps)
  then show ?thesis using assms(1) by simp
qed

lemma middleware_names_apart:
  shows "x @ stripPrefixSuffix \<noteq> y @ headersSuffix"
    and "x @ stripPrefixSuffix \<noteq> y @ downloadsSuffix @ itoa i"
    and "x @ headersSuffix \<noteq> y @ downloadsSuffix @ itoa i"
    and "x @ downloadsSuffix @ itoa i = y @ downloadsSuffix @ itoa j \<longleftrightarrow> x = y \<and> i = j"
proof -
  have end_of: "last (y @ downloadsSuffix @ itoa i) = last (itoa i)"
    by (simp add: downloadsSuffix_def itoa.simps [of i])
  show "x @ stripPrefixSuffix \<noteq> y @ headersSuffix"
    by (rule notI, drule arg_cong [where f = last]) (simp add: stripPrefixSuffix_def headersSuffix_def)
  show "x @ stripPrefixSuffix \<noteq> y @ downloadsSuffix @ itoa i"
  proof
    assume "x @ stripPrefixSuffix = y @ downloadsSuffix @ itoa i"
    from arg_cong [OF this, of last] have "last (itoa i) = CHR ''p''"
      unfolding end_of by (simp add: stripPrefixSuffix_def)
    then show False using itoa_last [of i] by simp
  qed
  show "x @ headersSuffix \<noteq> y @ downloadsSuffix @ itoa i"
  proof
    assume "x @ headersSuffix = y @ downloadsSuffix @ itoa i"
    from arg_cong [OF this, of last] have "last (itoa i) = CHR ''s''"
      unfolding end_of by (simp add: headersSuffix_def)
    then show False using itoa_last [of i] by simp
  qed
  have "x = y \<and> i = j" if "x @ downloadsSuffix @ itoa i = y @ downloadsSuffix @ itoa j"
  proof -
    have "(x @ ''-atom-downloads'') @ CHR ''-'' # itoa i = (y @ ''-atom-downloads'') @ CHR ''-'' # itoa j"
      using that by (simp add: downloadsSuffix_def)
    from last_split_eq [OF this itoa_no_dash itoa_no_dash] show ?thesis by (simp add: itoa_inject)
  qed
  then show "x @ downloadsSuffix @ itoa i = y @ downloadsSuffix @ itoa j \<longleftrightarrow> x = y \<and> i = j" by blast
qed

lemma own_keys_disjoint:
  assumes "(at_Namespace a, at_Name a) \<noteq> (at_Namespace b, at_Name b)"
  shows "own_keys a \<inter> own_keys b = {}"
  using assms middleware_names_apart middleware_names_apart(1-3) [symmetric]
  by (auto simp: own_keys_def route_keys_def getBareDeployment_def getBareService_def getBareIngressRoute_def
      getBarePodDisruptionBudget_def getBareStripPrefixMiddleware_def getBareHeadersMiddleware_def
      getBareDownloadLinkMiddleware_def Let_def)

section \<open>What a reconcile leaves alone\<close>

definition untouched :: "'w view \<Rightarrow> key set \<Rightarrow> 'w \<Rightarrow> 'w \<Rightarrow> bool" where
  "untouched view K w0 w \<longleftrightarrow> (\<forall>k\<in>K. view w k = view w0 k)"

lemma create_or_update_untouched:
  assumes "cluster_contract C view" and "kobj_key obj \<notin> K"
  shows "preserves (untouched view K w0) (create_or_update C key msg tolerated obj mut)"
  unfolding triple_def
proof (intro allI impI)
  fix rs w
  assume before: "untouched view K w0 w"
  obtain r w' where r: "CreateOrUpdate C obj mut w = (r, w')" by fastforce
  have "untouched view K w0 w'"
    using cluster_contract_run(1) [OF assms(1) r] before assms(2) unfolding untouched_def written_def by auto
  then show "outcome (\<lambda>_. untouched view K w0) (untouched view K w0)
      (create_or_update C key msg tolerated obj mut (rs, w))"
    using r by (cases r) (auto simp: create_or_update_def split: option.split)
qed

lemma apply_object_untouched:
  assumes "cluster_contract C view" and "kobj_key obj \<notin> K"
  shows "preserves (untouched view K w0) (apply_object C msg tolerated obj mut)"
  unfolding apply_object_def
  by (rule preserves_bind [OF create_or_update_untouched [OF assms]]) (auto intro: triple_ok)

text \<open>
  Keys that are neither of the Atom nor that of the ConfigMap it asks for stay as they are, however the run
  ends.
\<close>

lemma createOrUpdateAll_untouched:
  assumes "cluster_contract (ev_client E) view" and "own_keys atom \<inter> K = {}"
    and "\<And>c. configMap_mutator E atom oi (getBareConfigMap atom) = Ret (c, None) \<Longrightarrow> kobj_key (KConfigMap c) \<notin> K"
  shows "preserves (untouched view K w0) (createOrUpdateAllForAtom E atom oi)"
proof -
  have own: "k \<notin> K" if "k \<in> own_keys atom" for k using assms(2) that by blast
  note object = apply_object_untouched [OF assms(1)]
  have configMap: "preserves (untouched view K w0) (apply_configMap E atom oi)"
    unfolding apply_configMap_def Let_def
  proof (rule triple_bind)
    show "triple (untouched view K w0)
        (step_lift (go_bind (configMap_mutator E atom oi (getBareConfigMap atom))
          (\<lambda>(configMap, err). Ret (case err of Some e \<Rightarrow> Inl e | None \<Rightarrow> Inr configMap))))
        (\<lambda>c w. kobj_key (KConfigMap c) \<notin> K \<and> untouched view K w0 w) (untouched view K w0)"
    proof (rule triple_lift)
      fix c w
      assume "go_bind (configMap_mutator E atom oi (getBareConfigMap atom))
        (\<lambda>(configMap, err). Ret (case err of Some e \<Rightarrow> Inl e | None \<Rightarrow> Inr configMap)) = ok c"
      then have "configMap_mutator E atom oi (getBareConfigMap atom) = Ret (c, None)"
        by (auto simp: go_bind_eq_Ret split: option.splits)
      moreover assume "untouched view K w0 w"
      ultimately show "kobj_key (KConfigMap c) \<notin> K \<and> untouched view K w0 w" using assms(3) by blast
    qed
    show "triple (\<lambda>w. kobj_key (KConfigMap c) \<notin> K \<and> untouched view K w0 w)
        (create_or_update (ev_client E) (GetObjectFullName (ev_client E) (KAtom atom)) unable none_tolerated
          (KConfigMap c) (on_ConfigMap (configMap_mutator E atom oi)))
        (\<lambda>_. untouched view K w0) (untouched view K w0)" for c
      by (rule triple_pure) (rule create_or_update_untouched [OF assms(1)])
  qed
  show ?thesis
    unfolding createOrUpdateAllForAtom_def apply_deployment_def apply_service_def
      apply_stripPrefix_def apply_headers_def apply_downloads_def apply_download_def apply_ingressRoute_def
      apply_podDisruptionBudget_def case_prod_unfold
    by (intro preserves_bind preserves_lift preserves_for configMap object own)
      (simp_all add: own_keys_def route_keys_def del: kobj_key.simps)
qed

lemma Reconcile_untouched:
  assumes "cluster_contract (ev_client E) view" and "GetAtom (ev_client E) w req = Inr atom"
    and "own_keys atom \<inter> K = {}"
    and "\<And>oi c. GetOwnerInfo (ev_client E) w (at_Namespace atom, sv_OwnerInfoRef (at_Service atom)) = Inr oi \<Longrightarrow>
      configMap_mutator E atom oi (getBareConfigMap atom) = Ret (c, None) \<Longrightarrow> kobj_key (KConfigMap c) \<notin> K"
  shows "untouched view K w (snd (Reconcile E req now w))"
proof -
  have same: "view (LogAndUpdateStatusError (ev_client E) atom e w2) = view w2"
    "view (LogAndUpdateStatusFinished (ev_client E) atom rs w2) = view w2"
    "view (snd (DeleteAtom (ev_client E) atom w2)) = view w2" for e rs w2
    using assms(1) by (simp_all add: cluster_contract_def)
  have start: "untouched view K w w" by (simp add: untouched_def)
  have found: "untouched view K w (snd (reconcile_found E now atom oi w))"
    if oi: "GetOwnerInfo (ev_client E) w (at_Namespace atom, sv_OwnerInfoRef (at_Service atom)) = Inr oi" for oi
  proof (cases "ttlExpired atom now")
    case True
    have "snd (reconcile_found E now atom oi w) = snd (DeleteAtom (ev_client E) atom w)"
      using True by (simp add: reconcile_found_def split: prod.split)
    then show ?thesis by (simp add: untouched_def same)
  next
    case False
    have "outcome (\<lambda>_. untouched view K w) (untouched view K w)
        (createOrUpdateAllForAtom E atom oi (Map.empty, w))"
      using createOrUpdateAll_untouched [OF assms(1,3) assms(4) [OF oi]] start unfolding triple_def by blast
    then show ?thesis
      using False by (cases "createOrUpdateAllForAtom E atom oi (Map.empty, w)" rule: step_cases)
        (auto simp: reconcile_found_def untouched_def same split: prod.split)
  qed
  have "untouched view K w (snd (recovering (ev_client E) atom (reconcile_found E now atom oi w)))"
    if "GetOwnerInfo (ev_client E) w (at_Namespace atom, sv_OwnerInfoRef (at_Service atom)) = Inr oi" for oi
    using found [OF that] by (auto simp: recovering_def Let_def untouched_def same split: prod.split go.split)
  then show ?thesis
    using start assms(2) by (auto simp: Reconcile_def Let_def split: sum.split)
qed

end
