(* ===== verification/Ownership.thy ===== *)
theory Ownership
  imports Convergence Registration
begin

text \<open>
  Which objects the API machinery leads back to an Atom. An object of a type that the controller owns is
  watched; the request that a change of it causes is for the controller in its owner references. The
  same references make the garbage collector remove the object with its Atom, which is all that
  \<open>Reconcile\<close> deletes of an expired one. Both work for the objects of a run because of
  \<open>set_gvk_and_owner\<close> in every mutate function and because the types agree with those of \<open>SetupWithManager\<close>.
\<close>

text \<open>The controller reference to the Atom is there: setting it again changes nothing.\<close>

definition controlled_by :: "libs \<Rightarrow> Atom \<Rightarrow> kobj \<Rightarrow> bool" where
  "controlled_by L atom s \<longleftrightarrow> SetControllerReference L atom (kobj_meta s) = (kobj_meta s, None)"

definition watched_type :: "kobj \<Rightarrow> bool" where
  "watched_type s \<longleftrightarrow> go_type s \<in> fst ` set (cb_Owns atom_controller)"

definition leads_back :: "libs \<Rightarrow> Atom \<Rightarrow> kobj \<Rightarrow> bool" where
  "leads_back L atom s \<longleftrightarrow> controlled_by L atom s \<and> watched_type s"

section \<open>Fixed points of the mutate functions\<close>

definition marks :: "libs \<Rightarrow> Atom \<Rightarrow> application \<Rightarrow> bool" where
  "marks L atom x \<longleftrightarrow> (\<forall>s. kobj_key s = fst x \<longrightarrow> snd x s = Ret (s, None) \<longrightarrow> leads_back L atom s)"

lemma mutators_mark:
  assumes "ownership_contract L"
  shows "marks L atom (kobj_key (KDeployment d), on_Deployment (\<lambda>d. mutateDeployment r L atom d n))"
    and "marks L atom (kobj_key (KService s), on_Service (mutateService L atom))"
    and "marks L atom (kobj_key (KMiddleware m), on_Middleware (mutateStripPrefixMiddleware L atom))"
    and "marks L atom (kobj_key (KMiddleware m), on_Middleware (\<lambda>m. mutateHeadersMiddleware L atom m csp))"
    and "marks L atom (kobj_key (KMiddleware m), on_Middleware (mutateDownloadLinkMiddleware L atom pfx fs))"
    and "marks L atom (kobj_key (KIngressRoute i), on_IngressRoute (mutateIngressRoute ord L atom))"
    and "marks L atom (kobj_key (KPodDisruptionBudget p), on_PodDisruptionBudget (mutatePodDisruptionBudget L atom))"
  using deploymentm.owned [OF assms] servicem.owned [OF assms] stripm.owned [OF assms]
    headersm.owned [OF assms] downloadm.owned [OF assms] ingressm.owned [OF assms] pdbm.owned [OF assms]
  unfolding marks_def leads_back_def controlled_by_def watched_type_def atom_controller_def
  by (auto simp: key_constructor wrap_eq_Ret)

lemma configMap_marks:
  assumes "labels_contract L" and "ownership_contract L" and "hash_contract L"
  shows "marks L atom (kobj_key (KConfigMap c), on_ConfigMap (mutateAtomGeneratorConfigMap L G v atom oi))"
  using set_gvk_and_owner_fixed(1) [OF mutateConfigMap_ok(5) [OF assms]]
  unfolding marks_def leads_back_def controlled_by_def watched_type_def atom_controller_def
  by (auto simp: key_constructor wrap_eq_Ret)

lemma plan_marks:
  assumes "sound_env E view" and "x \<in> set (plan E atom oi c G)"
  shows "marks (ev_libs E) atom x"
  using assms(2) mutators_mark [OF sound_env_parts(3) [OF assms(1)]]
    configMap_marks [OF sound_env_parts(2,3,4) [OF assms(1)]]
  by (auto simp: plan_def plan_before_def plan_download_def plan_after_def download_key_def)

text \<open>The keys of the statements of a run: those of \<open>object_keys\<close>, and those of ConfigMap and Deployment.\<close>

lemma plan_others_keys:
  assumes "getDownloadLinkGroups (GetDownloadLinks atom) = Ret G" and "iteration_order (ev_ord E)"
  shows "fst ` set (plan_others E atom oi c G) = insert (kobj_key (KConfigMap c)) (object_keys atom)"
proof -
  have "fst ` set (map (plan_download E atom) (ev_ord E G)) = download_keys atom"
    unfolding download_keys_def assms(1)
    by (simp add: image_image plan_download_def iteration_order_set [OF assms(2)])
  then show ?thesis
    by (auto simp: plan_others_def image_Un plan_before_def plan_after_def object_keys_def route_keys_def)
qed

lemma plan_keys:
  assumes "getDownloadLinkGroups (GetDownloadLinks atom) = Ret G" and "iteration_order (ev_ord E)"
  shows "fst ` set (plan E atom oi c G) =
    {kobj_key (KConfigMap c), kobj_key (KDeployment (getBareDeployment atom))} \<union> object_keys atom"
  unfolding plan_split image_insert plan_others_keys [OF assms] by (auto simp: plan_deployment_def)

text \<open>A settled statement has stored an object that leads back.\<close>

lemma settled_leads_back:
  assumes "sound_env E view" and "x \<in> set (plan E atom oi c G)" and "settled view x w"
  shows "\<exists>s. view w (fst x) = Some s \<and> leads_back (ev_libs E) atom s"
proof -
  obtain s where "view w (fst x) = Some s" "kobj_key s = fst x" "snd x s = Ret (s, None)"
    using assms(3) unfolding settled_def by blast
  then show ?thesis
    using plan_marks [OF assms(1,2)] unfolding marks_def by blast
qed

lemma Reconcile_leads_back:
  assumes "exact_contract (ev_client E) view" and "sound_env E view"
    and "GetAtom (ev_client E) w req = Inr atom"
    and "GetOwnerInfo (ev_client E) w (at_Namespace atom, sv_OwnerInfoRef (at_Service atom)) = Inr oi"
    and "\<not> ttlExpired atom now" and "Reconcile E req now w = (None, w')"
  obtains c where "configMap_mutator E atom oi (getBareConfigMap atom) = Ret (c, None)"
    and "\<And>k. k \<in> insert (kobj_key (KConfigMap c)) (object_keys atom) \<Longrightarrow>
      \<exists>s. view w' k = Some s \<and> leads_back (ev_libs E) atom s"
    and "\<not> deployment_conflict E atom oi w \<Longrightarrow>
      \<exists>s. view w' (kobj_key (KDeployment (getBareDeployment atom))) = Some s \<and> leads_back (ev_libs E) atom s"
proof -
  obtain c G where c: "configMap_mutator E atom oi (getBareConfigMap atom) = Ret (c, None)"
    and G: "getDownloadLinkGroups (GetDownloadLinks atom) = Ret G"
    and others: "all_settled view (plan_others E atom oi c G) w'"
    and deployment: "\<not> deployment_conflict E atom oi w \<Longrightarrow> settled view (plan_deployment E atom c) w'"
    by (rule Reconcile_settles [OF assms]) blast
  note leads = settled_leads_back [OF assms(2), of _ atom oi c G]
  show thesis
  proof (rule that [OF c])
    fix k
    assume "k \<in> insert (kobj_key (KConfigMap c)) (object_keys atom)"
    then have "k \<in> fst ` set (plan_others E atom oi c G)"
      using plan_others_keys [OF G sound_env_parts(5) [OF assms(2)]] by simp
    then obtain x where x: "x \<in> set (plan_others E atom oi c G)" "k = fst x" by blast
    then have "settled view x w'" using others unfolding all_settled_def by (auto simp: list_all_iff)
    then show "\<exists>s. view w' k = Some s \<and> leads_back (ev_libs E) atom s"
      unfolding x(2) using x(1) by (intro leads) (simp_all add: plan_split)
  next
    assume "\<not> deployment_conflict E atom oi w"
    then show "\<exists>s. view w' (kobj_key (KDeployment (getBareDeployment atom))) = Some s \<and> leads_back (ev_libs E) atom s"
      using leads [OF _ deployment] by (simp add: plan_split plan_deployment_def)
  qed
qed

end
