(* ===== verification/Fleet.thy ===== *)
theory Fleet
  imports Isolation Ownership Success
begin

text \<open>
  Several Atoms under one manager. In a run in which the Atoms and their OwnerInfos stay as they are, and in
  which the manager reconciles them in any order and as often as it likes, every reconcile succeeds, what one
  Atom has settled is not disturbed by the others, and when every Atom has had a turn without a conflict in
  the request for its Deployment, the cluster is at rest for ever.
\<close>

abbreviation name_of :: "Atom \<Rightarrow> string \<times> string" where
  "name_of a \<equiv> (at_Namespace a, at_Name a)"

section \<open>The keys of an Atom\<close>

text \<open>The library hashes the contents of different Atoms to different names.\<close>

definition configMaps_apart :: "'w env \<Rightarrow> Atom set \<Rightarrow> (Atom \<Rightarrow> OwnerInfo) \<Rightarrow> bool" where
  "configMaps_apart E As oi \<longleftrightarrow>
     (\<forall>a\<in>As. \<forall>b\<in>As. a \<noteq> b \<longrightarrow>
        (\<forall>c d. configMap_mutator E a (oi a) (getBareConfigMap a) = Ret (c, None) \<longrightarrow>
           configMap_mutator E b (oi b) (getBareConfigMap b) = Ret (d, None) \<longrightarrow>
           kobj_key (KConfigMap c) \<noteq> kobj_key (KConfigMap d)))"

lemma configMap_not_own: "kobj_key (KConfigMap c) \<notin> own_keys a"
  by (auto simp: own_keys_def route_keys_def)

lemma run_keys_disjoint:
  assumes "configMaps_apart E As oi" and "a \<in> As" and "b \<in> As" and "name_of a \<noteq> name_of b"
  shows "run_keys E a (oi a) \<inter> run_keys E b (oi b) = {}"
proof -
  have "a \<noteq> b" using assms(4) by blast
  then show ?thesis
    using assms(1-3) own_keys_disjoint [OF assms(4)] configMap_not_own
    unfolding run_keys_def configMaps_apart_def by (auto simp del: kobj_key.simps)
qed

lemma plan_keys_run:
  assumes "getDownloadLinkGroups (GetDownloadLinks a) = Ret G" and "iteration_order (ev_ord E)"
    and "configMap_mutator E a oi (getBareConfigMap a) = Ret (c, None)"
  shows "fst ` set (plan E a oi c G) \<subseteq> run_keys E a oi"
  using plan_keys [OF assms(1,2)] object_keys_own [of a] assms(3)
  by (auto simp: run_keys_def own_keys_def simp del: kobj_key.simps)

text \<open>Being settled, or having one's ConfigMap intact, depends on these keys only.\<close>

lemma all_settled_local:
  assumes "\<And>k. k \<in> fst ` set xs \<Longrightarrow> view w' k = view w k" and "all_settled view xs w"
  shows "all_settled view xs w'"
  using assms by (auto simp: all_settled_def list_all_iff settled_def)

lemma configMap_intact_local:
  assumes "\<And>k. k \<in> run_keys E a oi \<Longrightarrow> view w' k = view w k" and "configMap_intact E view a oi w"
  shows "configMap_intact E view a oi w'"
  unfolding configMap_intact_def
proof (intro allI impI)
  fix c x x'
  assume c: "configMap_mutator E a oi (getBareConfigMap a) = Ret (c, None)"
    and x: "view w' (kobj_key (KConfigMap c)) = Some (KConfigMap x)"
    and x': "configMap_mutator E a oi x = Ret (x', None)"
  have "kobj_key (KConfigMap c) \<in> run_keys E a oi" using c unfolding run_keys_def by blast
  then have "view w (kobj_key (KConfigMap c)) = Some (KConfigMap x)" using assms(1) x by metis
  then show "ob_Name x' = ob_Name x" using assms(2) c x' unfolding configMap_intact_def by blast
qed

lemma settled_intact:
  assumes "configMap_mutator E a oi (getBareConfigMap a) = Ret (c, None)" and "all_settled view (plan_others E a oi c G) w"
  shows "configMap_intact E view a oi w"
proof -
  have "settled view (kobj_key (KConfigMap c), on_ConfigMap (configMap_mutator E a oi)) w"
    using assms(2) by (simp add: plan_others_def plan_before_def)
  then show ?thesis
    using assms(1) by (auto simp: configMap_intact_def settled_def wrap_eq_Ret)
qed

lemma claimable_local:
  assumes "\<And>k. k \<in> K \<Longrightarrow> view w' k = view w k" and "claimable view a K w"
  shows "claimable view a K w'"
  using assms unfolding claimable_def by metis

section \<open>A single reconcile in the run\<close>

lemma cluster_contract_consistent:
  assumes "cluster_contract C view"
  shows "kept_by_writes C (consistent view)"
proof -
  have "consistent view (snd (CreateOrUpdate C obj mut w))" if "consistent view w" for obj mut w
  proof -
    obtain r w' where r: "CreateOrUpdate C obj mut w = (r, w')" by fastforce
    consider "view w' = view w" | o2 where "kobj_key o2 = kobj_key obj" "view w' = (view w)(kobj_key obj \<mapsto> o2)"
      using cluster_contract_run(1) [OF assms r] unfolding written_def by blast
    then show ?thesis
    proof cases
      case 1
      then show ?thesis using that by (simp add: r consistent_def)
    next
      case (2 o2)
      show ?thesis
        unfolding r snd_conv consistent_def 2(2)
      proof (intro allI impI)
        fix k s
        assume "((view w)(kobj_key obj \<mapsto> o2)) k = Some s"
        then show "kobj_key s = k"
          using that [unfolded consistent_def, rule_format, of k s] 2(1)
          by (simp split: if_splits del: split_paired_All)
      qed
    qed
  qed
  moreover have "view (LogAndUpdateStatusError C atom e w) = view w"
    "view (LogAndUpdateStatusFinished C atom rs w) = view w" "view (snd (DeleteAtom C atom w)) = view w" for atom e rs w
    using assms unfolding cluster_contract_def by blast+
  ultimately show ?thesis
    unfolding kept_by_writes_def kept_by_creates_def consistent_def by (intro conjI allI impI) metis+
qed

text \<open>What the Atom needs of the environment, and its plan at rest.\<close>

definition at_rest :: "'w env \<Rightarrow> 'w view \<Rightarrow> Atom \<Rightarrow> OwnerInfo \<Rightarrow> 'w \<Rightarrow> bool" where
  "at_rest E view a oi w \<longleftrightarrow>
     (\<exists>c G. configMap_mutator E a oi (getBareConfigMap a) = Ret (c, None) \<and>
        getDownloadLinkGroups (GetDownloadLinks a) = Ret G \<and> all_settled view (plan E a oi c G) w)"

lemma reconcile_settles:
  assumes "exact_contract (ev_client E) view" and "ready E view a oi" and "owner_supports a oi"
    and "GetAtom (ev_client E) w (name_of a) = Inr a"
    and "GetOwnerInfo (ev_client E) w (at_Namespace a, sv_OwnerInfoRef (at_Service a)) = Inr oi"
    and "\<not> ttlExpired a now" and "consistent view w" and "configMap_intact E view a oi w"
    and "claimable view a (run_keys E a oi) w"
  shows "fst (Reconcile E (name_of a) now w) = None"
    and "\<not> deployment_conflict E a oi w \<Longrightarrow> at_rest E view a oi (snd (Reconcile E (name_of a) now w))"
    and "configMap_intact E view a oi (snd (Reconcile E (name_of a) now w))"
    and "claimable view a (run_keys E a oi) (snd (Reconcile E (name_of a) now w))"
proof -
  have sound: "sound_env E view" using assms(2) by (simp add: ready_def)
  obtain rs w1 where "reconcile_found E now a oi w = (Ret None, LogAndUpdateStatusFinished (ev_client E) a rs w1)"
    and w1: "claimable view a (run_keys E a oi) w1"
    using reconcile_found_completes [OF assms(2,3,6,7,8,9)] by blast
  then have ran: "Reconcile E (name_of a) now w = (None, LogAndUpdateStatusFinished (ev_client E) a rs w1)"
    using assms(4,5) by (simp add: Reconcile_def Let_def recovering_def)
  obtain c G where plan: "configMap_mutator E a oi (getBareConfigMap a) = Ret (c, None)"
      "getDownloadLinkGroups (GetDownloadLinks a) = Ret G"
      "all_settled view (plan_others E a oi c G) (LogAndUpdateStatusFinished (ev_client E) a rs w1)"
      "\<not> deployment_conflict E a oi w \<Longrightarrow>
        settled view (plan_deployment E a c) (LogAndUpdateStatusFinished (ev_client E) a rs w1)"
    by (rule Reconcile_settles [OF assms(1) sound assms(4,5,6) ran]) blast
  show "fst (Reconcile E (name_of a) now w) = None" by (simp add: ran)
  show "at_rest E view a oi (snd (Reconcile E (name_of a) now w))" if "\<not> deployment_conflict E a oi w"
    unfolding ran at_rest_def snd_conv all_settled_plan using plan that by blast
  show "configMap_intact E view a oi (snd (Reconcile E (name_of a) now w))"
    unfolding ran snd_conv by (rule settled_intact [OF plan(1,3)])
  show "claimable view a (run_keys E a oi) (snd (Reconcile E (name_of a) now w))"
    using w1 by (simp add: ran claimable_def exact_contract_parts(3) [OF assms(1)])
qed

lemma at_rest_calm:
  assumes "exact_contract (ev_client E) view" and "sound_env E view" and "at_rest E view a oi w"
    and "GetAtom (ev_client E) w (name_of a) = Inr a"
    and "GetOwnerInfo (ev_client E) w (at_Namespace a, sv_OwnerInfoRef (at_Service a)) = Inr oi"
    and "\<not> ttlExpired a now"
  shows "fst (Reconcile E (name_of a) now w) = None \<and> view (snd (Reconcile E (name_of a) now w)) = view w"
proof -
  obtain c G where "configMap_mutator E a oi (getBareConfigMap a) = Ret (c, None)"
      "getDownloadLinkGroups (GetDownloadLinks a) = Ret G" "all_settled view (plan E a oi c G) w"
    using assms(3) unfolding at_rest_def by blast
  from Reconcile_calm [OF assms(1,2) this assms(4-6)] show ?thesis by auto
qed

lemma at_rest_local:
  assumes "\<And>k. k \<in> run_keys E a oi \<Longrightarrow> view w' k = view w k" and "at_rest E view a oi w"
    and "iteration_order (ev_ord E)"
  shows "at_rest E view a oi w'"
proof -
  obtain c G where c: "configMap_mutator E a oi (getBareConfigMap a) = Ret (c, None)"
    and G: "getDownloadLinkGroups (GetDownloadLinks a) = Ret G" and rest: "all_settled view (plan E a oi c G) w"
    using assms(2) unfolding at_rest_def by blast
  have "all_settled view (plan E a oi c G) w'"
    using plan_keys_run [OF G assms(3) c] assms(1) by (intro all_settled_local [OF _ rest]) blast
  then show ?thesis using c G unfolding at_rest_def by blast
qed

lemma at_rest_stored:
  assumes "at_rest E view a oi w" and "iteration_order (ev_ord E)"
  shows "insert (kobj_key (KDeployment (getBareDeployment a))) (object_keys a) \<subseteq> dom (view w)"
proof -
  obtain c G where c: "configMap_mutator E a oi (getBareConfigMap a) = Ret (c, None)"
    and G: "getDownloadLinkGroups (GetDownloadLinks a) = Ret G" and rest: "all_settled view (plan E a oi c G) w"
    using assms(1) unfolding at_rest_def by blast
  have "fst ` set (plan E a oi c G) \<subseteq> dom (view w)"
    using rest by (auto simp: all_settled_def list_all_iff settled_def)
  then show ?thesis unfolding plan_keys [OF G assms(2)] by auto
qed

section \<open>Runs\<close>

definition fleet_run ::
  "'w env \<Rightarrow> 'w view \<Rightarrow> Atom set \<Rightarrow> (Atom \<Rightarrow> OwnerInfo) \<Rightarrow> (nat \<Rightarrow> int) \<Rightarrow> (nat \<Rightarrow> Atom option) \<Rightarrow> (nat \<Rightarrow> 'w) \<Rightarrow> bool"
where
  "fleet_run E view As oi now pick run \<longleftrightarrow>
     (\<forall>n. (\<forall>a\<in>As. GetAtom (ev_client E) (run n) (name_of a) = Inr a \<and>
             GetOwnerInfo (ev_client E) (run n) (at_Namespace a, sv_OwnerInfoRef (at_Service a)) = Inr (oi a) \<and>
             \<not> ttlExpired a (now n)) \<and>
          (case pick n of
             None \<Rightarrow> view (run (Suc n)) = view (run n)
           | Some a \<Rightarrow> a \<in> As \<and> run (Suc n) = snd (Reconcile E (name_of a) (now n) (run n))))"

lemma fleet_run_parts:
  assumes "fleet_run E view As oi now pick run"
  shows "a \<in> As \<Longrightarrow> GetAtom (ev_client E) (run n) (name_of a) = Inr a"
    and "a \<in> As \<Longrightarrow> GetOwnerInfo (ev_client E) (run n) (at_Namespace a, sv_OwnerInfoRef (at_Service a)) = Inr (oi a)"
    and "a \<in> As \<Longrightarrow> \<not> ttlExpired a (now n)"
    and "pick n = None \<Longrightarrow> view (run (Suc n)) = view (run n)"
    and "pick n = Some a \<Longrightarrow> a \<in> As \<and> run (Suc n) = snd (Reconcile E (name_of a) (now n) (run n))"
  using assms [unfolded fleet_run_def, rule_format, of n] by auto

lemma fleet_names:
  assumes "fleet_run E view As oi now pick run" and "a \<in> As" and "b \<in> As" and "a \<noteq> b"
  shows "name_of a \<noteq> name_of b"
proof
  assume "name_of a = name_of b"
  then have "Inr a = (Inr b :: go_error + Atom)"
    using fleet_run_parts(1) [OF assms(1,2), of 0] fleet_run_parts(1) [OF assms(1,3), of 0] by metis
  then show False using assms(4) by simp
qed

text \<open>Whatever happens to others, the keys of an Atom only change in its own turn.\<close>

lemma fleet_step_other:
  assumes "fleet_run E view As oi now pick run" and "configMaps_apart E As oi" and "cluster_contract (ev_client E) view"
    and "a \<in> As" and "pick n \<noteq> Some a" and "k \<in> run_keys E a (oi a)"
  shows "view (run (Suc n)) k = view (run n) k"
proof (cases "pick n")
  case None
  then show ?thesis using fleet_run_parts(4) [OF assms(1)] by simp
next
  case (Some b)
  have b: "b \<in> As" and step: "run (Suc n) = snd (Reconcile E (name_of b) (now n) (run n))"
    using fleet_run_parts(5) [OF assms(1) Some] by blast+
  have "a \<noteq> b" using assms(5) Some by auto
  then have apart: "run_keys E b (oi b) \<inter> run_keys E a (oi a) = {}"
    using run_keys_disjoint [OF assms(2) b assms(4)] fleet_names [OF assms(1,4) b] by auto
  have "untouched view (run_keys E a (oi a)) (run n) (snd (Reconcile E (name_of b) (now n) (run n)))"
  proof (rule Reconcile_untouched [OF assms(3) fleet_run_parts(1) [OF assms(1) b]])
    show "own_keys b \<inter> run_keys E a (oi a) = {}" using apart by (auto simp: run_keys_def [of E b])
    fix oi' c
    assume "GetOwnerInfo (ev_client E) (run n) (at_Namespace b, sv_OwnerInfoRef (at_Service b)) = Inr oi'"
      and c: "configMap_mutator E b oi' (getBareConfigMap b) = Ret (c, None)"
    then have "oi' = oi b" using fleet_run_parts(2) [OF assms(1) b, of n] by simp
    then have "kobj_key (KConfigMap c) \<in> run_keys E b (oi b)" using c unfolding run_keys_def by blast
    then show "kobj_key (KConfigMap c) \<notin> run_keys E a (oi a)" using apart by blast
  qed
  then show ?thesis using assms(6) by (simp add: step untouched_def)
qed

lemma fleet_consistent:
  assumes "fleet_run E view As oi now pick run" and "cluster_contract (ev_client E) view" and "consistent view (run 0)"
  shows "consistent view (run n)"
proof (induction n)
  case (Suc n)
  show ?case
  proof (cases "pick n")
    case None
    then show ?thesis using Suc fleet_run_parts(4) [OF assms(1)] by (simp add: consistent_def)
  next
    case (Some b)
    have "run (Suc n) = snd (Reconcile E (name_of b) (now n) (run n))"
      using fleet_run_parts(5) [OF assms(1) Some] by blast
    then show ?thesis
      using Reconcile_preserves [OF cluster_contract_consistent [OF assms(2)] Suc] by simp
  qed
qed (rule assms(3))

text \<open>What a run needs to begin with.\<close>

definition fleet_ready ::
  "'w env \<Rightarrow> 'w view \<Rightarrow> Atom set \<Rightarrow> (Atom \<Rightarrow> OwnerInfo) \<Rightarrow> 'w \<Rightarrow> bool" where
  "fleet_ready E view As oi w \<longleftrightarrow>
     exact_contract (ev_client E) view \<and> configMaps_apart E As oi \<and> consistent view w \<and>
     (\<forall>a\<in>As. ready E view a (oi a) \<and> owner_supports a (oi a) \<and> configMap_intact E view a (oi a) w \<and>
        claimable view a (run_keys E a (oi a)) w)"

lemma fleet_turn:
  assumes run: "fleet_run E view As oi now pick run" and start: "fleet_ready E view As oi (run 0)" and a: "a \<in> As"
  shows "configMap_intact E view a (oi a) (run n) \<and> claimable view a (run_keys E a (oi a)) (run n)"
    and "fst (Reconcile E (name_of a) (now n) (run n)) = None"
    and "pick n = Some a \<Longrightarrow> \<not> deployment_conflict E a (oi a) (run n) \<Longrightarrow> at_rest E view a (oi a) (run (Suc n))"
proof -
  have need: "exact_contract (ev_client E) view" "configMaps_apart E As oi" "consistent view (run 0)"
      "ready E view a (oi a)" "owner_supports a (oi a)" "configMap_intact E view a (oi a) (run 0)"
      "claimable view a (run_keys E a (oi a)) (run 0)"
    using start a by (simp_all add: fleet_ready_def)
  have cluster: "cluster_contract (ev_client E) view"
    using need(4) by (simp add: ready_def sound_env_parts(1))
  note turn = reconcile_settles [OF need(1,4,5) fleet_run_parts(1-3) [OF run a] fleet_consistent [OF run cluster need(3)]]
  show intact: "configMap_intact E view a (oi a) (run n) \<and> claimable view a (run_keys E a (oi a)) (run n)"
    for n
  proof (induction n)
    case (Suc n)
    show ?case
    proof (cases "pick n = Some a")
      case True
      then show ?thesis
        using turn(3,4) [of n n] Suc fleet_run_parts(5) [OF run True] by simp
    next
      case False
      note same = fleet_step_other [OF run need(2) cluster a False]
      have "configMap_intact E view a (oi a) (run (Suc n))"
        by (rule configMap_intact_local [OF same conjunct1 [OF Suc]])
      moreover have "claimable view a (run_keys E a (oi a)) (run (Suc n))"
        by (rule claimable_local [OF same conjunct2 [OF Suc]])
      ultimately show ?thesis ..
    qed
  qed (simp add: need(6,7))
  show "fst (Reconcile E (name_of a) (now n) (run n)) = None"
    using turn(1) [of n n] intact by blast
  show "at_rest E view a (oi a) (run (Suc n))"
    if "pick n = Some a" and "\<not> deployment_conflict E a (oi a) (run n)"
    using turn(2) [of n n] that intact fleet_run_parts(5) [OF run that(1)] by simp
qed

lemma fleet_stays_at_rest:
  assumes run: "fleet_run E view As oi now pick run" and start: "fleet_ready E view As oi (run 0)" and a: "a \<in> As"
    and rest: "at_rest E view a (oi a) (run m)" and "m \<le> n"
  shows "at_rest E view a (oi a) (run n)"
  using assms(5)
proof (induction rule: dec_induct)
  case (step n)
  have sound: "sound_env E view" and apart: "configMaps_apart E As oi" and exact: "exact_contract (ev_client E) view"
    using start a by (simp_all add: fleet_ready_def ready_def)
  have same: "view (run (Suc n)) k = view (run n) k" if "k \<in> run_keys E a (oi a)" for k
  proof (cases "pick n = Some a")
    case True
    then show ?thesis
      using at_rest_calm [OF exact sound step.IH fleet_run_parts(1-3) [OF run a]] fleet_run_parts(5) [OF run True]
      by simp
  next
    case False
    then show ?thesis by (rule fleet_step_other [OF run apart sound_env_parts(1) [OF sound] a _ that])
  qed
  show ?case by (rule at_rest_local [OF same step.IH sound_env_parts(5) [OF sound]])
qed (rule rest)

lemma fleet_settles:
  assumes run: "fleet_run E view As oi now pick run" and start: "fleet_ready E view As oi (run 0)"
    and fin: "finite As" and turns: "\<And>a. a \<in> As \<Longrightarrow>
      \<exists>n. pick n = Some a \<and> \<not> deployment_conflict E a (oi a) (run n)"
  shows "\<exists>n0. \<forall>n\<ge>n0. view (run n) = view (run n0) \<and>
    (\<forall>a\<in>As. at_rest E view a (oi a) (run n) \<and> fst (Reconcile E (name_of a) (now n) (run n)) = None)"
proof -
  obtain t where t: "\<And>a. a \<in> As \<Longrightarrow> pick (t a) = Some a"
      "\<And>a. a \<in> As \<Longrightarrow> \<not> deployment_conflict E a (oi a) (run (t a))"
    using turns by metis
  define n0 where "n0 = Max (insert 0 ((\<lambda>a. Suc (t a)) ` As))"
  have late: "Suc (t a) \<le> n0" if "a \<in> As" for a
    unfolding n0_def using fin that by (intro Max_ge) auto
  have rest: "at_rest E view a (oi a) (run n)" if "a \<in> As" "n0 \<le> n" for a n
  proof -
    have "at_rest E view a (oi a) (run (Suc (t a)))" 
      by (rule fleet_turn(3) [OF run start that(1) t(1) [OF that(1)] t(2) [OF that(1)]])
    from fleet_stays_at_rest [OF run start that(1) this] late [OF that(1)] that(2) show ?thesis by simp
  qed
  have calm: "fst (Reconcile E (name_of a) (now n) (run n)) = None \<and>
      view (snd (Reconcile E (name_of a) (now n) (run n))) = view (run n)" if "a \<in> As" "n0 \<le> n" for a n
  proof -
    have "exact_contract (ev_client E) view" "sound_env E view"
      using start that(1) by (simp_all add: fleet_ready_def ready_def)
    from at_rest_calm [OF this rest [OF that] fleet_run_parts(1-3) [OF run that(1)]] show ?thesis .
  qed
  have same: "view (run n) = view (run n0)" if "n0 \<le> n" for n
    using that
  proof (induction rule: dec_induct)
    case (step n)
    have "view (run (Suc n)) = view (run n)"
    proof (cases "pick n")
      case None
      then show ?thesis by (rule fleet_run_parts(4) [OF run])
    next
      case (Some a)
      have "a \<in> As" and next_run: "run (Suc n) = snd (Reconcile E (name_of a) (now n) (run n))"
        using fleet_run_parts(5) [OF run Some] by blast+
      then show ?thesis using calm step(1) unfolding next_run by blast
    qed
    then show ?case using step.IH by simp
  qed simp
  show ?thesis using rest fleet_turn(2) [OF run start] same by (intro exI [of _ n0]) blast
qed

end
