(* ===== verification/Migration.thy ===== *)
theory Migration
  imports Conversion_Props Success Webhook
begin

text \<open>
  A stored v2beta1 Atom, from its conversion on: when the v3 Atom it becomes is complete, supported by
  the OwnerInfo that the conversion names, admitted by the webhook, and reconciled without an error.
  The answer is given on the v2beta1 Atom: its datasets, its downloads and their blob keys.
\<close>

section \<open>A converted Atom is complete\<close>

text \<open>The conversion takes a missing blob key to an empty one, and any other key as it is.\<close>

definition beta_key_valid :: "BetaLink \<Rightarrow> bool" where
  "beta_key_valid l \<longleftrightarrow> (case li_BlobKey l of None \<Rightarrow> False | Some k \<Rightarrow> slash \<in> set k)"

definition beta_keys_valid :: "BetaAtom \<Rightarrow> bool" where
  "beta_keys_valid a \<longleftrightarrow>
     list_all (\<lambda>d. list_all (\<lambda>x. list_all beta_key_valid (do_Links x)) (ds_Downloads d))
       (be_Datasets (bt_Service a))"

lemma has_blob_key_toV3: "has_blob_key (downloadLink_toV3 V l) \<longleftrightarrow> beta_key_valid l"
  by (simp add: has_blob_key_def downloadLink_toV3_def beta_key_valid_def split: option.split)

lemma entry_toV3_keys:
  assumes "entry_toV3 V now s d i x = Inr e"
  shows "list_all has_blob_key (en_DownloadLinks e) \<longleftrightarrow> list_all beta_key_valid (do_Links x)"
  using assms by (auto simp: entry_toV3_def list_all_iff has_blob_key_toV3 split: sum.splits)

lemma list_all_across:
  assumes "length ys = length xs" and "\<And>j. j < length xs \<Longrightarrow> P (ys ! j) \<longleftrightarrow> Q (xs ! j)"
  shows "list_all P ys \<longleftrightarrow> list_all Q xs"
  using assms by (simp add: list_all_length)

lemma dataset_toV3_keys:
  assumes "dataset_toV3 V now s i d = Inr f"
  shows "list_all (\<lambda>e. list_all has_blob_key (en_DownloadLinks e)) (df_Entries f) \<longleftrightarrow>
    list_all (\<lambda>x. list_all beta_key_valid (do_Links x)) (ds_Downloads d)"
proof -
  obtain links entries where entries: "err_map (entry_toV3 V (now i) s d) 0 (ds_Downloads d) = Inr entries"
    and f: "f = dataset_feed V s d links entries"
    using assms by (auto simp: dataset_toV3_ok)
  then have "df_Entries f = entries" by (simp add: dataset_feed_def)
  with entries show ?thesis
    unfolding err_map_eq_Inr by (intro list_all_across entry_toV3_keys) auto
qed

lemma GetDownloadLinks_all:
  "list_all P (GetDownloadLinks a) \<longleftrightarrow>
     list_all (\<lambda>f. list_all (\<lambda>e. list_all P (en_DownloadLinks e)) (df_Entries f)) (at_DatasetFeeds a)"
  by (auto simp: GetDownloadLinks_def list_all_iff)

lemma ToV3_keys:
  assumes "ToV3 V vars now a dst = (None, dst')"
  shows "atom_keys_valid dst' \<longleftrightarrow> beta_keys_valid a"
proof -
  obtain b where len: "length (at_DatasetFeeds dst') = length (be_Datasets (bt_Service a))"
    and feed: "\<forall>j < length (be_Datasets (bt_Service a)).
      dataset_toV3 V now (bt_Service a) j (be_Datasets (bt_Service a) ! j) = Inr (at_DatasetFeeds dst' ! j)"
    using ToV3_ok [OF assms] by blast
  show ?thesis
    unfolding atom_keys_valid_def GetDownloadLinks_all beta_keys_valid_def
    by (rule list_all_across [OF len dataset_toV3_keys]) (rule feed [rule_format])
qed

lemma createBaseURL_set: "createBaseURL V b g = Inr u \<Longrightarrow> u \<noteq> None"
  by (auto simp: createBaseURL_def Let_def split: sum.splits option.splits)

lemma ToV3_IngressRouteURLs:
  assumes "ToV3 V vars now a dst = (None, dst')"
  shows "as_IngressRouteURLs (at_Spec dst') = as_IngressRouteURLs (at_Spec dst)"
  using assms by (auto simp: ToV3_def Let_def split: sum.splits prod.splits option.splits)

text \<open>The conversion webhook hands \<open>ToV3\<close> an empty Atom, which has no ingress URLs.\<close>

lemma ToV3_complete:
  assumes "ToV3 V vars now a dst = (None, dst')" and "as_IngressRouteURLs (at_Spec dst) = None"
  shows "atom_complete dst' \<longleftrightarrow> beta_keys_valid a"
proof -
  obtain b where b: "createBaseURL V (GetBaseURL vars) (bs_General (bt_Spec a)) = Inr b"
    and svc: "at_Service dst' = (service_toV3 b (bt_Service a))\<lparr>sv_DatasetFeeds := at_DatasetFeeds dst'\<rparr>"
    using ToV3_ok [OF assms(1)] by blast
  have "sv_BaseURL (at_Service dst') \<noteq> None" and "sv_Stylesheet (at_Service dst') = None"
    using createBaseURL_set [OF b] by (subst svc, simp add: service_toV3_def)+
  moreover have "urls_set dst' \<longleftrightarrow> sv_BaseURL (at_Service dst') \<noteq> None"
    by (simp add: urls_set_def ToV3_IngressRouteURLs [OF assms(1)] assms(2))
  moreover have "list_all feed_convertible (at_DatasetFeeds dst')"
    using ToV3_convertible [OF assms(1)] by (simp add: convertible_def)
  ultimately show ?thesis
    unfolding ToV3_keys [OF assms(1), symmetric] atom_complete_def
    by (auto simp: list_all_iff feed_convertible_def)
qed

section \<open>A converted Atom is supported, admitted and reconciled\<close>

definition owner_has_templates :: "OwnerInfo \<Rightarrow> bool" where
  "owner_has_templates oi \<longleftrightarrow> oi_Atom oi \<noteq> None \<and>
     list_all (\<lambda>sel. \<not> lacks_url oi sel) [mus_CSW, mus_OpenSearch, mus_HTML]"

lemma owner_has_templates_supports: "owner_has_templates oi \<Longrightarrow> owner_supports atom oi"
  by (simp add: owner_has_templates_def owner_supports_def)

text \<open>What is assumed of everything but the Atom.\<close>

definition operational :: "'w env \<Rightarrow> 'w view \<Rightarrow> OwnerInfo \<Rightarrow> bool" where
  "operational E view oi \<longleftrightarrow>
     sound_env E view \<and> libs_ready (ev_libs E) \<and> obliging (ev_client E) view \<and>
     marshals (ev_gen E) \<and> renders (ev_gen E) oi \<and> owner_complete oi"

lemma ready_iff: "ready E view atom oi \<longleftrightarrow> operational E view oi \<and> atom_complete atom"
  by (auto simp: ready_def operational_def)

lemma ToV3_owner:
  assumes "ToV3 V vars now a dst = (None, dst')"
  shows "sv_OwnerInfoRef (at_Service dst') = ''pdok''" and "at_ObjectMeta dst' = bt_ObjectMeta a"
proof -
  obtain b where svc: "at_Service dst' = (service_toV3 b (bt_Service a))\<lparr>sv_DatasetFeeds := at_DatasetFeeds dst'\<rparr>"
    and "at_ObjectMeta dst' = bt_ObjectMeta a"
    using ToV3_ok [OF assms] by blast
  then show "at_ObjectMeta dst' = bt_ObjectMeta a" by blast
  show "sv_OwnerInfoRef (at_Service dst') = ''pdok''"
    by (subst svc) (simp add: service_toV3_def)
qed

text \<open>The OwnerInfo decides, and the blob keys decide about the rest.\<close>

lemma converted_reconciles:
  assumes "ToV3 C vars now a dst = (None, atom)" and "as_IngressRouteURLs (at_Spec dst) = None"
    and "GetAtom (ev_client E) w req = Inr atom"
    and "GetOwnerInfo (ev_client E) w (om_Namespace (bt_ObjectMeta a), ''pdok'') = Inr oi"
    and "owner_has_templates oi" and "operational E view oi"
    and "consistent view w" and "configMap_intact E view atom oi w" and "claimable view atom (run_keys E atom oi) w"
    and "\<not> ttlExpired atom time"
  shows "fst (Reconcile E req time w) = None \<longleftrightarrow> beta_keys_valid a"
proof -
  have oi: "GetOwnerInfo (ev_client E) w (at_Namespace atom, sv_OwnerInfoRef (at_Service atom)) = Inr oi"
    using assms(4) by (simp add: ToV3_owner [OF assms(1)])
  show ?thesis
  proof (cases "beta_keys_valid a")
    case True
    then have "ready E view atom oi"
      by (simp add: ready_iff assms(6) ToV3_complete [OF assms(1,2)])
    from Reconcile_succeeds [OF assms(3) oi this owner_has_templates_supports [OF assms(5)] assms(10,7,8,9)] True
    show ?thesis by simp
  next
    case False
    then have "\<not> atom_keys_valid atom" by (simp add: ToV3_keys [OF assms(1)])
    from Reconcile_bad_key [OF assms(3) oi assms(10) this] False show ?thesis by simp
  qed
qed

lemma converted_admitted:
  assumes "ToV3 C vars now a dst = (None, atom)" and "as_IngressRouteURLs (at_Spec dst) = None"
    and "pointer_contract C" and "c (om_Namespace (bt_ObjectMeta a), ''pdok'') = Inr oi" and "owner_has_templates oi"
    and "ValidateLabelsOnCreate V (om_Labels (bt_ObjectMeta a)) = None"
    and "ValidateIngressRouteURLsContainsBaseURL V None (sv_BaseURL (at_Service atom)) = None"
  shows "admitted (webhook_ValidateCreate V c (AtomObj atom)) \<longleftrightarrow>
    distinct (map ds_Name (be_Datasets (bt_Service a))) \<and>
    list_all (dataset_ok (be_MetadataIdentifier (bt_Service a))) (be_Datasets (bt_Service a))"
  using assms(4-7) owner_has_templates_supports [OF assms(5), of atom]
  by (simp add: admitted_create_iff ValidateCreate_accepts_iff ToV3_feeds_ok [OF assms(3,1)]
      ToV3_owner [OF assms(1)] ToV3_IngressRouteURLs [OF assms(1)] assms(2))

end
