(* ===== verification/Memory.thy ===== *)
theory Memory
  imports Prelude
begin

text \<open>
  Go's memory as far as the generated deep copies see it. A struct, a string or a number is a value that
  is copied when it is assigned; pointers and slices refer to cells of the memory, and assigning them
  makes two values share a cell. A memory holds arrays of values; a pointer leads to an array of length
  one, a slice to a section of an array.

  A Go type describes how far the values of a struct reach. \<open>val\<close> reads the tree that a value of a type
  stands for, with the pointers followed; \<open>reach\<close> is the set of cells it depends on. The main result is
  about \<open>deep\<close>, a copy directed by the type: its result stands for the same tree and reaches new cells
  only, so that no later write to one of the two shows up in the other.
\<close>

named_theorems deepcopy "what the generated copies are for the types"

section \<open>Values, types and memories\<close>

type_synonym addr = nat

datatype scalar = Str string | Num int

datatype gval =
    Scalar scalar
  | Ptr "addr option"
  | Slice "(addr \<times> nat \<times> nat) option"
  | Struct "(string \<times> gval) list"

text \<open>A struct of a library keeps its name: it is copied by a function of that library.\<close>

datatype ty =
    TScalar
  | TPtr ty
  | TSlice ty
  | TStruct "(string \<times> ty) list"
  | TLib string ty

text \<open>Cells from \<open>next\<close> on are free.\<close>

record memory =
  cells :: "addr \<Rightarrow> gval list option"
  next_addr :: addr

definition wf_mem :: "memory \<Rightarrow> bool" where
  "wf_mem m \<longleftrightarrow> (\<forall>a\<ge>next_addr m. cells m a = None)"

section \<open>What a value stands for\<close>

datatype tree = Leaf scalar | NilTree | Node "tree list"

fun opt_map :: "('a \<Rightarrow> 'b option) \<Rightarrow> 'a list \<Rightarrow> 'b list option" where
  "opt_map f [] = Some []"
| "opt_map f (x # xs) =
     (case f x of None \<Rightarrow> None | Some y \<Rightarrow> (case opt_map f xs of None \<Rightarrow> None | Some ys \<Rightarrow> Some (y # ys)))"

definition array_at :: "memory \<Rightarrow> addr \<Rightarrow> nat \<Rightarrow> nat \<Rightarrow> gval list option" where
  "array_at m a off n =
     (case cells m a of
        None \<Rightarrow> None
      | Some xs \<Rightarrow> if off + n \<le> length xs then Some (take n (drop off xs)) else None)"

definition load :: "memory \<Rightarrow> addr \<Rightarrow> gval option" where
  "load m a = (case cells m a of Some [v] \<Rightarrow> Some v | _ \<Rightarrow> None)"

fun val :: "memory \<Rightarrow> ty \<Rightarrow> gval \<Rightarrow> tree option"
  and val_fields :: "memory \<Rightarrow> (string \<times> ty) list \<Rightarrow> (string \<times> gval) list \<Rightarrow> tree list option" where
  "val m TScalar (Scalar s) = Some (Leaf s)"
| "val m (TPtr t) (Ptr None) = Some NilTree"
| "val m (TPtr t) (Ptr (Some a)) =
     (case load m a of None \<Rightarrow> None | Some v \<Rightarrow> map_option (\<lambda>x. Node [x]) (val m t v))"
| "val m (TSlice t) (Slice None) = Some NilTree"
| "val m (TSlice t) (Slice (Some (a, off, n))) =
     (case array_at m a off n of None \<Rightarrow> None | Some vs \<Rightarrow> map_option Node (opt_map (\<lambda>v. val m t v) vs))"
| "val m (TStruct ts) (Struct fs) = map_option Node (val_fields m ts fs)"
| "val m (TLib n t) v = val m t v"
| "val m _ _ = None"
| "val_fields m [] [] = Some []"
| "val_fields m ((n, t) # ts) ((k, v) # fs) =
     (if n = k
      then (case val m t v of
              None \<Rightarrow> None | Some x \<Rightarrow> (case val_fields m ts fs of None \<Rightarrow> None | Some xs \<Rightarrow> Some (x # xs)))
      else None)"
| "val_fields m _ _ = None"

fun reach :: "memory \<Rightarrow> ty \<Rightarrow> gval \<Rightarrow> addr set"
  and reach_fields :: "memory \<Rightarrow> (string \<times> ty) list \<Rightarrow> (string \<times> gval) list \<Rightarrow> addr set" where
  "reach m (TPtr t) (Ptr (Some a)) =
     insert a (case load m a of None \<Rightarrow> {} | Some v \<Rightarrow> reach m t v)"
| "reach m (TSlice t) (Slice (Some (a, off, n))) =
     insert a (case array_at m a off n of None \<Rightarrow> {} | Some vs \<Rightarrow> \<Union> (set (map (\<lambda>v. reach m t v) vs)))"
| "reach m (TStruct ts) (Struct fs) = reach_fields m ts fs"
| "reach m (TLib n t) v = reach m t v"
| "reach m _ _ = {}"
| "reach_fields m ((n, t) # ts) ((k, v) # fs) = reach m t v \<union> reach_fields m ts fs"
| "reach_fields m _ _ = {}"

section \<open>Copying\<close>

type_synonym 'a mop = "memory \<Rightarrow> ('a \<times> memory) option"
type_synonym copier = "gval \<Rightarrow> gval mop"

definition mret :: "'a \<Rightarrow> 'a mop" where
  "mret x = (\<lambda>m. Some (x, m))"

definition mbind :: "'a mop \<Rightarrow> ('a \<Rightarrow> 'b mop) \<Rightarrow> 'b mop" where
  "mbind p f = (\<lambda>m. case p m of None \<Rightarrow> None | Some (x, m') \<Rightarrow> f x m')"

fun mmap :: "('a \<Rightarrow> 'b mop) \<Rightarrow> 'a list \<Rightarrow> 'b list mop" where
  "mmap f [] = mret []"
| "mmap f (x # xs) = mbind (f x) (\<lambda>y. mbind (mmap f xs) (\<lambda>ys. mret (y # ys)))"

definition alloc :: "gval list \<Rightarrow> addr mop" where
  "alloc vs = (\<lambda>m. Some (next_addr m,
     m\<lparr>cells := (cells m)(next_addr m \<mapsto> vs), next_addr := Suc (next_addr m)\<rparr>))"

text \<open>
  The statements of the generated code, each of them after \<open>*out = *in\<close>. \<open>new\<close> and \<open>make\<close> are followed by
  writing the new cell; the model allocates it with what is written. A value of another form than the type
  of the field is \<open>None\<close>: the compiler excludes it.
\<close>

fun copy_ptr :: "copier \<Rightarrow> copier" where
  "copy_ptr f (Ptr None) = mret (Ptr None)"
| "copy_ptr f (Ptr (Some a)) =
     (\<lambda>m. case load m a of
        None \<Rightarrow> None
      | Some v \<Rightarrow> mbind (f v) (\<lambda>v'. mbind (alloc [v']) (\<lambda>a'. mret (Ptr (Some a')))) m)"
| "copy_ptr f _ = (\<lambda>m. None)"

fun copy_slice :: "copier \<Rightarrow> copier" where
  "copy_slice f (Slice None) = mret (Slice None)"
| "copy_slice f (Slice (Some (a, off, n))) =
     (\<lambda>m. case array_at m a off n of
        None \<Rightarrow> None
      | Some vs \<Rightarrow> mbind (mmap f vs) (\<lambda>vs'. mbind (alloc vs') (\<lambda>a'. mret (Slice (Some (a', 0, n))))) m)"
| "copy_slice f _ = (\<lambda>m. None)"

fun at_field :: "string \<Rightarrow> copier \<Rightarrow> (string \<times> gval) list \<Rightarrow> (string \<times> gval) list mop" where
  "at_field n f [] = (\<lambda>m. None)"
| "at_field n f ((k, v) # fs) =
     (if k = n then mbind (f v) (\<lambda>v'. mret ((k, v') # fs))
      else mbind (at_field n f fs) (\<lambda>fs'. mret ((k, v) # fs')))"

fun copy_field :: "string \<Rightarrow> copier \<Rightarrow> copier" where
  "copy_field n f (Struct fs) = mbind (at_field n f fs) (\<lambda>fs'. mret (Struct fs'))"
| "copy_field n f _ = (\<lambda>m. None)"

text \<open>\<open>out.F = in.F\<close> repeats a part of \<open>*out = *in\<close>.\<close>

definition assign_field :: "string \<Rightarrow> copier" where
  "assign_field n = mret"

fun copy_struct :: "copier list \<Rightarrow> copier" where
  "copy_struct [] v = mret v"
| "copy_struct (s # ss) v = mbind (s v) (copy_struct ss)"

text \<open>The copy directed by the type: parts without pointers are assigned, structs of libraries left to them.\<close>

fun flat :: "ty \<Rightarrow> bool" where
  "flat TScalar = True"
| "flat (TStruct ts) = list_all (\<lambda>(n, t). flat t) ts"
| "flat _ = False"

fun deep :: "(string \<Rightarrow> copier) \<Rightarrow> ty \<Rightarrow> copier"
  and deep_fields :: "(string \<Rightarrow> copier) \<Rightarrow> (string \<times> ty) list \<Rightarrow> copier list" where
  "deep L TScalar = mret"
| "deep L (TPtr t) = copy_ptr (deep L t)"
| "deep L (TSlice t) = copy_slice (deep L t)"
| "deep L (TStruct ts) = copy_struct (deep_fields L ts)"
| "deep L (TLib n t) = L n"
| "deep_fields L [] = []"
| "deep_fields L ((n, t) # ts) =
     (if flat t then deep_fields L ts else copy_field n (deep L t) # deep_fields L ts)"

section \<open>Changes of the memory\<close>

definition same_on :: "addr set \<Rightarrow> memory \<Rightarrow> memory \<Rightarrow> bool" where
  "same_on A m m' \<longleftrightarrow> (\<forall>a\<in>A. cells m' a = cells m a)"

definition grows :: "memory \<Rightarrow> memory \<Rightarrow> bool" where
  "grows m m' \<longleftrightarrow> wf_mem m' \<and> next_addr m \<le> next_addr m' \<and> same_on {..<next_addr m} m m'"

lemma opt_map_Some:
  "opt_map f xs = Some ys \<longleftrightarrow> list_all2 (\<lambda>x y. f x = Some y) xs ys"
  by (induction f xs arbitrary: ys rule: opt_map.induct)
    (auto simp: list_all2_Cons1 split: option.splits)

lemma same_on_parts:
  "same_on (A \<union> B) m m' \<longleftrightarrow> same_on A m m' \<and> same_on B m m'"
  "same_on (insert a A) m m' \<longleftrightarrow> cells m' a = cells m a \<and> same_on A m m'"
  "same_on (\<Union> S) m m' \<longleftrightarrow> (\<forall>A\<in>S. same_on A m m')"
  by (auto simp: same_on_def)

text \<open>A value and what it reaches depend on the cells it reaches only.\<close>

lemma same_cell: "cells m' a = cells m a \<Longrightarrow> load m' a = load m a \<and> array_at m' a off n = array_at m a off n"
  by (simp add: load_def array_at_def)

lemma val_frame:
  "val m t v = Some x \<Longrightarrow> same_on (reach m t v) m m' \<Longrightarrow> val m' t v = Some x \<and> reach m' t v = reach m t v"
  "val_fields m ts fs = Some xs \<Longrightarrow> same_on (reach_fields m ts fs) m m' \<Longrightarrow>
     val_fields m' ts fs = Some xs \<and> reach_fields m' ts fs = reach_fields m ts fs"
proof (induction m t v and m ts fs arbitrary: x and xs rule: val_val_fields.induct)
  case (3 m t a)
  then have "cells m' a = cells m a" by (simp add: same_on_parts)
  then have "load m' a = load m a" by (simp add: load_def)
  then show ?case using 3 by (cases "load m a") (auto simp: same_on_parts)
next
  case (5 m t a off n)
  then obtain vs ys where vs: "array_at m a off n = Some vs" and ys: "opt_map (val m t) vs = Some ys"
    and x: "x = Node ys"
    by (auto split: option.splits)
  have "cells m' a = cells m a" using 5(3) by (simp add: same_on_parts)
  then have arr: "array_at m' a off n = Some vs" using vs by (simp add: array_at_def)
  have each: "val m' t v = val m t v \<and> reach m' t v = reach m t v" if "v \<in> set vs" for v
  proof -
    obtain y where "val m t v = Some y"
      using ys \<open>v \<in> set vs\<close> by (auto simp: opt_map_Some list_all2_conv_all_nth in_set_conv_nth)
    then show ?thesis using 5(1) [OF vs, of v y] 5(3) vs that by (auto simp: same_on_parts)
  qed
  then have "opt_map (val m' t) vs = Some ys" "map (reach m' t) vs = map (reach m t) vs"
    using ys by (auto simp: opt_map_Some list_all2_conv_all_nth)
  then show ?case using x vs arr by simp
qed (auto simp: same_on_parts split: option.splits if_splits)

lemma old_cell:
  "wf_mem m \<Longrightarrow> load m a = Some v \<Longrightarrow> a < next_addr m"
  "wf_mem m \<Longrightarrow> array_at m a off n = Some vs \<Longrightarrow> a < next_addr m"
  by (rule ccontr, simp add: wf_mem_def load_def array_at_def)+

lemma reach_old:
  shows "wf_mem m \<Longrightarrow> val m t v = Some x \<Longrightarrow> reach m t v \<subseteq> {..<next_addr m}"
    and "wf_mem m \<Longrightarrow> val_fields m ts fs = Some xs \<Longrightarrow> reach_fields m ts fs \<subseteq> {..<next_addr m}"
proof (induction m t v and m ts fs arbitrary: x and xs rule: val_val_fields.induct)
  case (3 m t a)
  then show ?case using old_cell(1) by (fastforce split: option.splits)
next
  case (5 m t a off n)
  then show ?case using old_cell(2) by (fastforce simp: opt_map_Some list_all2_conv_all_nth in_set_conv_nth split: option.splits)
qed (auto split: option.splits if_splits)

lemma val_grows:
  assumes "wf_mem m" and "grows m m'" and "val m t v = Some x"
  shows "val m' t v = Some x" and "reach m' t v = reach m t v"
proof -
  have "same_on (reach m t v) m m'"
    using reach_old(1) [OF assms(1,3)] assms(2) by (auto simp: grows_def same_on_def)
  from val_frame(1) [OF assms(3) this] show "val m' t v = Some x" "reach m' t v = reach m t v" by simp_all
qed

lemma grows_trans: "grows m1 m2 \<Longrightarrow> grows m2 m3 \<Longrightarrow> grows m1 m3"
  by (auto simp: grows_def same_on_def)

lemma grows_refl: "wf_mem m \<Longrightarrow> grows m m"
  by (simp add: grows_def same_on_def)

lemma grows_alloc:
  assumes "wf_mem m" and "alloc vs m = Some (a, m')"
  shows "grows m m'" and "a = next_addr m" and "next_addr m' = Suc (next_addr m)" and "cells m' a = Some vs"
  using assms by (auto simp: alloc_def grows_def same_on_def wf_mem_def)

section \<open>What a copy promises\<close>

text \<open>The result stands for the same tree, and reaches only cells that were free before.\<close>

definition fresh_copy :: "memory \<Rightarrow> ty \<Rightarrow> tree \<Rightarrow> gval \<times> memory \<Rightarrow> bool" where
  "fresh_copy m t x = (\<lambda>(v', m').
     grows m m' \<and> val m' t v' = Some x \<and> reach m' t v' \<subseteq> {next_addr m..<next_addr m'})"

definition copies :: "ty \<Rightarrow> copier \<Rightarrow> bool" where
  "copies t f \<longleftrightarrow>
     (\<forall>m v x. wf_mem m \<longrightarrow> val m t v = Some x \<longrightarrow> (\<exists>r. f v m = Some r \<and> fresh_copy m t x r))"

lemma copiesE:
  assumes "copies t f" and "wf_mem m" and "val m t v = Some x"
  obtains v' m' where "f v m = Some (v', m')" and "grows m m'" and "wf_mem m'" and "val m' t v' = Some x"
    and "reach m' t v' \<subseteq> {next_addr m..<next_addr m'}"
  using assms unfolding copies_def fresh_copy_def grows_def by fast

lemma copies_ptr:
  assumes "copies t f"
  shows "copies (TPtr t) (copy_ptr f)"
  unfolding copies_def
proof (intro allI impI)
  fix m v x
  assume m: "wf_mem m" and v: "val m (TPtr t) v = Some x"
  then consider "v = Ptr None" "x = NilTree"
    | a w y where "v = Ptr (Some a)" "load m a = Some w" "val m t w = Some y" "x = Node [y]"
    by (cases "(m, TPtr t, v)" rule: val.cases) (auto split: option.splits)
  then show "\<exists>r. copy_ptr f v m = Some r \<and> fresh_copy m (TPtr t) x r"
  proof cases
    case 1
    then show ?thesis using m by (simp add: mret_def fresh_copy_def grows_refl)
  next
    case (2 a w y)
    obtain w' m1 where run: "f w m = Some (w', m1)" and m1: "grows m m1" "wf_mem m1" "val m1 t w' = Some y"
      "reach m1 t w' \<subseteq> {next_addr m..<next_addr m1}"
      by (rule copiesE [OF assms m 2(3)])
    obtain a' m2 where al: "alloc [w'] m1 = Some (a', m2)" by (simp add: alloc_def)
    note new = grows_alloc [OF m1(2) al]
    have "load m2 a' = Some w'" by (simp add: load_def new(4))
    then have "fresh_copy m (TPtr t) x (Ptr (Some a'), m2)"
      using val_grows [OF m1(2) new(1) m1(3)] grows_trans [OF m1(1) new(1)] m1(1,4) new(2,3) 2(4)
      by (auto simp: fresh_copy_def grows_def)
    then show ?thesis using 2(1,2) run al by (simp add: mbind_def mret_def)
  qed
qed

text \<open>The elements of a slice are copied one after the other, in memories that grow.\<close>

lemma opt_map_grows:
  assumes "wf_mem m" and "grows m m'" and "opt_map (val m t) vs = Some ys"
  shows "opt_map (val m' t) vs = Some ys" and "map (reach m' t) vs = map (reach m t) vs"
  using assms(3) val_grows [OF assms(1,2)] by (auto simp: opt_map_Some list_all2_conv_all_nth in_set_conv_nth)

lemma mmap_copies:
  assumes "copies t f"
  shows "wf_mem m \<Longrightarrow> opt_map (val m t) vs = Some ys \<Longrightarrow>
    \<exists>vs' m'. mmap f vs m = Some (vs', m') \<and> grows m m' \<and> length vs' = length vs \<and>
      opt_map (val m' t) vs' = Some ys \<and> \<Union> (set (map (reach m' t) vs')) \<subseteq> {next_addr m..<next_addr m'}"
proof (induction vs arbitrary: m ys)
  case Nil
  then show ?case by (simp add: mret_def grows_refl)
next
  case (Cons v vs)
  then obtain y zs where y: "val m t v = Some y" "opt_map (val m t) vs = Some zs" "ys = y # zs"
    by (auto split: option.splits)
  obtain v1 m1 where run1: "f v m = Some (v1, m1)" and m1: "grows m m1" "wf_mem m1" "val m1 t v1 = Some y"
      "reach m1 t v1 \<subseteq> {next_addr m..<next_addr m1}"
    by (rule copiesE [OF assms Cons.prems(1) y(1)])
  obtain vs2 m2 where run2: "mmap f vs m1 = Some (vs2, m2)" and m2: "grows m1 m2" "length vs2 = length vs"
      "opt_map (val m2 t) vs2 = Some zs" "\<Union> (set (map (reach m2 t) vs2)) \<subseteq> {next_addr m1..<next_addr m2}"
    using Cons.IH [OF m1(2) opt_map_grows(1) [OF Cons.prems(1) m1(1) y(2)]] by blast
  note kept = val_grows [OF m1(2) m2(1) m1(3)]
  have le: "next_addr m \<le> next_addr m1" "next_addr m1 \<le> next_addr m2" using m1(1) m2(1) by (simp_all add: grows_def)
  have "reach m2 t v1 \<subseteq> {next_addr m..<next_addr m2}" using m1(4) kept(2) le by force
  moreover have "\<Union> (set (map (reach m2 t) vs2)) \<subseteq> {next_addr m..<next_addr m2}" using m2(4) le by force
  ultimately have "\<Union> (set (map (reach m2 t) (v1 # vs2))) \<subseteq> {next_addr m..<next_addr m2}" by simp
  moreover have "mmap f (v # vs) m = Some (v1 # vs2, m2)"
    by (simp add: mbind_def mret_def run1 run2)
  ultimately show ?case
    using grows_trans [OF m1(1) m2(1)] kept(1) m2(2,3) y(3) by (intro exI [of _ "v1 # vs2"] exI [of _ m2]) simp
qed

lemma copies_slice:
  assumes "copies t f"
  shows "copies (TSlice t) (copy_slice f)"
  unfolding copies_def
proof (intro allI impI)
  fix m v x
  assume m: "wf_mem m" and v: "val m (TSlice t) v = Some x"
  then consider "v = Slice None" "x = NilTree"
    | a off n vs ys where "v = Slice (Some (a, off, n))" "array_at m a off n = Some vs"
        "opt_map (val m t) vs = Some ys" "x = Node ys"
    by (cases "(m, TSlice t, v)" rule: val.cases) (auto split: option.splits)
  then show "\<exists>r. copy_slice f v m = Some r \<and> fresh_copy m (TSlice t) x r"
  proof cases
    case 1
    then show ?thesis using m by (simp add: mret_def fresh_copy_def grows_refl)
  next
    case (2 a off n vs ys)
    obtain vs' m1 where run: "mmap f vs m = Some (vs', m1)" and m1: "grows m m1" "length vs' = length vs"
        "opt_map (val m1 t) vs' = Some ys" "\<Union> (set (map (reach m1 t) vs')) \<subseteq> {next_addr m..<next_addr m1}"
      using mmap_copies [OF assms m 2(3)] by blast
    have m1': "wf_mem m1" using m1(1) by (simp add: grows_def)
    obtain a' m2 where al: "alloc vs' m1 = Some (a', m2)" by (simp add: alloc_def)
    note new = grows_alloc [OF m1' al] and kept = opt_map_grows [OF m1' grows_alloc(1) [OF m1' al] m1(3)]
    have "length vs = n" using 2(2) by (auto simp: array_at_def split: option.splits if_splits)
    then have arr: "array_at m2 a' 0 n = Some vs'" using new(4) m1(2) by (simp add: array_at_def)
    have le: "next_addr m \<le> next_addr m1" using m1(1) by (simp add: grows_def)
    have "\<Union> (set (map (reach m2 t) vs')) \<subseteq> {next_addr m..<next_addr m2}"
      using m1(4) kept(2) new(3) by force
    then have "fresh_copy m (TSlice t) x (Slice (Some (a', 0, n)), m2)"
      using grows_trans [OF m1(1) new(1)] kept(1) arr 2(4) new(2,3) le by (simp add: fresh_copy_def)
    then show ?thesis using 2(1,2) run al by (simp add: mbind_def mret_def)
  qed
qed

section \<open>The copy directed by the type\<close>

text \<open>Struct types have distinct field names; the structs of libraries are copied as promised.\<close>

fun wf_ty :: "ty \<Rightarrow> bool"
  and wf_fields :: "(string \<times> ty) list \<Rightarrow> bool" where
  "wf_ty TScalar = True"
| "wf_ty (TPtr t) = wf_ty t"
| "wf_ty (TSlice t) = wf_ty t"
| "wf_ty (TStruct ts) = (distinct (map fst ts) \<and> wf_fields ts)"
| "wf_ty (TLib n t) = True"
| "wf_fields [] = True"
| "wf_fields ((n, t) # ts) = (wf_ty t \<and> wf_fields ts)"

fun libs_of :: "ty \<Rightarrow> (string \<times> ty) set"
  and libs_of_fields :: "(string \<times> ty) list \<Rightarrow> (string \<times> ty) set" where
  "libs_of TScalar = {}"
| "libs_of (TPtr t) = libs_of t"
| "libs_of (TSlice t) = libs_of t"
| "libs_of (TStruct ts) = libs_of_fields ts"
| "libs_of (TLib n t) = {(n, t)}"
| "libs_of_fields [] = {}"
| "libs_of_fields ((n, t) # ts) = libs_of t \<union> libs_of_fields ts"

definition libs_copy :: "(string \<Rightarrow> copier) \<Rightarrow> (string \<times> ty) set \<Rightarrow> bool" where
  "libs_copy L A \<longleftrightarrow> (\<forall>(n, t)\<in>A. copies t (L n))"

lemma libs_copy_parts: "libs_copy L (A \<union> B) \<longleftrightarrow> libs_copy L A \<and> libs_copy L B"
  "libs_copy L {(n, t)} \<longleftrightarrow> copies t (L n)" "libs_copy L {}"
  by (auto simp: libs_copy_def)

lemma copies_lib: "copies (TLib n t) f \<longleftrightarrow> copies t f"
  by (simp add: copies_def fresh_copy_def)

lemma flat_reach:
  "val m t v = Some x \<Longrightarrow> flat t \<Longrightarrow> reach m t v = {}"
  "val_fields m ts fs = Some xs \<Longrightarrow> list_all (\<lambda>(n, t). flat t) ts \<Longrightarrow> reach_fields m ts fs = {}"
  by (induction m t v and m ts fs arbitrary: x and xs rule: val_val_fields.induct)
    (auto split: option.splits if_splits)

lemma mbind_laws: "mbind (mret x) f = f x" "mbind (mbind p f) g = mbind p (\<lambda>x. mbind (f x) g)" "mbind p mret = p"
  by (simp_all add: mbind_def mret_def fun_eq_iff split: option.split)

lemma at_field_here:
  "n \<notin> fst ` set pre \<Longrightarrow>
    at_field n f (pre @ (n, v) # fs) = mbind (f v) (\<lambda>v'. mret (pre @ (n, v') # fs))"
  by (induction pre) (auto simp: mbind_laws)

lemma copy_field_here:
  "n \<notin> fst ` set pre \<Longrightarrow>
    copy_field n f (Struct (pre @ (n, v) # fs)) = mbind (f v) (\<lambda>v'. mret (Struct (pre @ (n, v') # fs)))"
  by (simp add: at_field_here mbind_laws)

lemma copy_fields_ok:
  assumes "\<And>n t. (n, t) \<in> set ts \<Longrightarrow> copies t (deep L t)" and "distinct (map fst pre @ map fst ts)"
    and "wf_mem m" and "val_fields m ts fs = Some xs"
  shows "\<exists>fs' m'. copy_struct (deep_fields L ts) (Struct (pre @ fs)) m = Some (Struct (pre @ fs'), m') \<and>
    grows m m' \<and> val_fields m' ts fs' = Some xs \<and> reach_fields m' ts fs' \<subseteq> {next_addr m..<next_addr m'}"
  using assms
proof (induction ts arbitrary: pre m fs xs)
  case Nil
  then have "fs = []" "xs = []" by (cases fs; auto)+
  then show ?case using Nil.prems(3) by (simp add: mret_def grows_refl)
next
  case (Cons nt ts)
  obtain n t where nt: "nt = (n, t)" by (cases nt)
  obtain v fs1 y ys where parts: "fs = (n, v) # fs1" "val m t v = Some y" "val_fields m ts fs1 = Some ys" "xs = y # ys"
    using Cons.prems(4) unfolding nt by (cases fs) (auto split: option.splits if_splits)
  have first: "\<exists>v1 m1. (if flat t then mret v m else deep L t v m) = Some (v1, m1) \<and> grows m m1 \<and> wf_mem m1 \<and>
      val m1 t v1 = Some y \<and> reach m1 t v1 \<subseteq> {next_addr m..<next_addr m1}"
  proof (cases "flat t")
    case True
    then show ?thesis
      using Cons.prems(3) parts(2) flat_reach(1) [OF parts(2) True] by (simp add: mret_def grows_refl)
  next
    case False
    have "copies t (deep L t)" by (rule Cons.prems(1) [of n]) (simp add: nt)
    from copiesE [OF this Cons.prems(3) parts(2)] show ?thesis using False by simp metis
  qed
  then obtain v1 m1 where run1: "(if flat t then mret v m else deep L t v m) = Some (v1, m1)"
    and m1: "grows m m1" "wf_mem m1" "val m1 t v1 = Some y" "reach m1 t v1 \<subseteq> {next_addr m..<next_addr m1}"
    by blast
  have ys: "val_fields m1 ts fs1 = Some ys"
  proof -
    have "same_on (reach_fields m ts fs1) m m1"
      using reach_old(2) [OF Cons.prems(3) parts(3)] m1(1) by (auto simp: grows_def same_on_def)
    from val_frame(2) [OF parts(3) this] show ?thesis by simp
  qed
  have "distinct (map fst (pre @ [(n, v1)]) @ map fst ts)" using Cons.prems(2) by (simp add: nt)
  then obtain fs2 m2 where run2: "copy_struct (deep_fields L ts) (Struct ((pre @ [(n, v1)]) @ fs1)) m1 =
      Some (Struct ((pre @ [(n, v1)]) @ fs2), m2)"
    and m2: "grows m1 m2" "val_fields m2 ts fs2 = Some ys"
      "reach_fields m2 ts fs2 \<subseteq> {next_addr m1..<next_addr m2}"
    using Cons.IH [of "pre @ [(n, v1)]" m1 fs1 ys] Cons.prems(1) m1(2) ys by (auto simp: nt)
  note kept = val_grows [OF m1(2) m2(1) m1(3)]
  have "n \<notin> fst ` set pre" using Cons.prems(2) by (simp add: nt)
  then have "copy_struct (deep_fields L (nt # ts)) (Struct (pre @ fs)) m = Some (Struct (pre @ (n, v1) # fs2), m2)"
    using run1 run2 by (cases "flat t") (simp_all add: nt parts(1) copy_field_here mbind_def mret_def del: copy_field.simps)
  moreover have "reach_fields m2 (nt # ts) ((n, v1) # fs2) \<subseteq> {next_addr m..<next_addr m2}"
    using m1(1,4) m2(1,3) kept(2) by (force simp: nt grows_def)
  ultimately show ?case
    using grows_trans [OF m1(1) m2(1)] kept(1) m2(2) parts(4)
    by (intro exI [of _ "(n, v1) # fs2"] exI [of _ m2]) (simp add: nt)
qed

lemma deep_copies:
  "wf_ty t \<Longrightarrow> libs_copy L (libs_of t) \<Longrightarrow> copies t (deep L t)"
  "wf_fields ts \<Longrightarrow> libs_copy L (libs_of_fields ts) \<Longrightarrow> (n, u) \<in> set ts \<Longrightarrow> copies u (deep L u)"
proof (induction t and ts arbitrary: and n u rule: wf_ty_wf_fields.induct)
  case 1
  have "val m TScalar v = Some x \<Longrightarrow> reach m TScalar v = {}" for m v x by (rule flat_reach) simp_all
  then show ?case by (simp add: copies_def mret_def fresh_copy_def grows_refl)
next
  case (4 ts)
  show ?case
    unfolding copies_def
  proof (intro allI impI)
    fix m v x
    assume m: "wf_mem m" and v: "val m (TStruct ts) v = Some x"
    obtain fs xs where fs: "v = Struct fs" "val_fields m ts fs = Some xs" "x = Node xs"
      using v by (cases "(m, TStruct ts, v)" rule: val.cases) auto
    have each: "copies u (deep L u)" if "(k, u) \<in> set ts" for k u
      using 4 that by simp
    have "distinct (map fst [] @ map fst ts)" using 4(2) by simp
    from copy_fields_ok [where ts = ts and L = L, OF _ this m fs(2)] each show "\<exists>r. deep L (TStruct ts) v m = Some r \<and> fresh_copy m (TStruct ts) x r"
      by (fastforce simp: fs(1,3) fresh_copy_def)
  qed
qed (auto simp: libs_copy_parts copies_ptr copies_slice copies_lib)

section \<open>Independence\<close>

text \<open>
  After a fresh copy, writes to cells that existed before do not show in the copy, and writes to cells
  that did not exist before do not show in the original.
\<close>

definition independent :: "memory \<Rightarrow> ty \<Rightarrow> gval \<Rightarrow> gval \<Rightarrow> memory \<Rightarrow> tree \<Rightarrow> bool" where
  "independent m t v v' m' x \<longleftrightarrow>
     (\<forall>m''. same_on {next_addr m..} m' m'' \<longrightarrow> val m'' t v' = Some x) \<and>
     (\<forall>m''. same_on {..<next_addr m} m' m'' \<longrightarrow> val m'' t v = Some x)"

lemma fresh_copy_independent:
  assumes "wf_mem m" and "val m t v = Some x" and "fresh_copy m t x (v', m')"
  shows "independent m t v v' m' x"
  unfolding independent_def
proof (intro conjI allI impI)
  have copy: "grows m m'" "val m' t v' = Some x" "reach m' t v' \<subseteq> {next_addr m..<next_addr m'}"
    using assms(3) by (simp_all add: fresh_copy_def)
  fix m''
  show "val m'' t v' = Some x" if "same_on {next_addr m..} m' m''"
  proof -
    have "same_on (reach m' t v') m' m''" using that copy(3) by (force simp: same_on_def)
    from val_frame(1) [OF copy(2) this] show ?thesis by simp
  qed
  note orig = val_grows [OF assms(1) copy(1) assms(2)]
  show "val m'' t v = Some x" if "same_on {..<next_addr m} m' m''"
  proof -
    have "same_on (reach m' t v) m' m''"
      using that reach_old(1) [OF assms(1,2)] by (force simp: same_on_def orig(2))
    from val_frame(1) [OF orig(1) this] show ?thesis by simp
  qed
qed

lemma copies_independent:
  assumes "copies t f" and "wf_mem m" and "val m t v = Some x"
  shows "\<exists>v' m'. f v m = Some (v', m') \<and> grows m m' \<and> val m' t v' = Some x \<and> independent m t v v' m' x"
  using assms fresh_copy_independent [OF assms(2,3)] unfolding copies_def fresh_copy_def by fast

section \<open>The interface of a generated copy\<close>

text \<open>
  \<open>DeepCopy\<close> of a type: nil for nil, otherwise a new cell that \<open>DeepCopyInto\<close> fills. As a
  \<open>runtime.Object\<close> the result carries its type, and nil becomes the nil interface.
\<close>

definition DeepCopy :: "copier \<Rightarrow> copier" where
  "DeepCopy into = copy_ptr into"

definition DeepCopyObject :: "string \<Rightarrow> copier \<Rightarrow> gval \<Rightarrow> (string \<times> gval) option mop" where
  "DeepCopyObject name copy v =
     mbind (copy v) (\<lambda>c. mret (if c \<noteq> Ptr None then Some (name, c) else None))"

text \<open>What is assumed of the libraries: they copy their structs, whatever these look like inside.\<close>

definition lib_copies :: "(string \<Rightarrow> copier) \<Rightarrow> (string \<Rightarrow> ty) \<Rightarrow> bool" where
  "lib_copies L F \<longleftrightarrow> (\<forall>n. copies (F n) (L n))"

abbreviation lib :: "(string \<Rightarrow> ty) \<Rightarrow> string \<Rightarrow> ty" where
  "lib F n \<equiv> TLib n (F n)"

lemma copy_struct_simps [deepcopy]:
  "copy_struct [] = mret" "copy_struct (s # ss) = (\<lambda>v. mbind (s v) (copy_struct ss))"
  "mbind (assign_field n v) f = f v"
  by (simp_all add: assign_field_def fun_eq_iff mbind_laws)

lemma layout_known [deepcopy]: "(n, F n) \<in> range (\<lambda>n. (n, F n))"
  by simp

text \<open>
  A generated \<open>DeepCopyInto\<close> follows the declaration of its struct. From this alone come all of its
  properties, also for the pointers, slices and objects built on it.
\<close>

locale struct_copier =
  fixes L :: "string \<Rightarrow> copier" and F :: "string \<Rightarrow> ty" and t :: ty and into :: copier
  assumes follows_type: "deep L t = into"
    and names: "wf_ty t"
    and layouts: "libs_of t \<subseteq> range (\<lambda>n. (n, F n))"
begin

lemma copies_value: "lib_copies L F \<Longrightarrow> copies t into"
proof -
  assume "lib_copies L F"
  then have "libs_copy L (libs_of t)" using layouts by (auto simp: lib_copies_def libs_copy_def)
  from deep_copies(1) [OF names this] show "copies t into" by (simp add: follows_type)
qed

lemma copies_pointer: "lib_copies L F \<Longrightarrow> copies (TPtr t) (DeepCopy into)"
  unfolding DeepCopy_def by (rule copies_ptr [OF copies_value])

text \<open>The object is nil exactly for a nil pointer, and independent of the original otherwise.\<close>

lemma copies_object:
  assumes "lib_copies L F" and "wf_mem m" and "val m (TPtr t) v = Some x"
  shows "\<exists>v' m'. DeepCopyObject name (DeepCopy into) v m =
      Some (if v = Ptr None then None else Some (name, v'), m') \<and> grows m m' \<and>
      val m' (TPtr t) v' = Some x \<and> independent m (TPtr t) v v' m' x"
proof -
  obtain v' m' where run: "DeepCopy into v m = Some (v', m')" and copy: "grows m m'" "val m' (TPtr t) v' = Some x"
    "independent m (TPtr t) v v' m' x"
    using copies_independent [OF copies_pointer [OF assms(1)] assms(2,3)] by blast
  have "v = Ptr None \<longleftrightarrow> x = NilTree" "v' = Ptr None \<longleftrightarrow> x = NilTree"
    using assms(3) copy(2) by (cases "(m, TPtr t, v)" rule: val.cases; cases "(m', TPtr t, v')" rule: val.cases;
        auto split: option.splits)+
  then show ?thesis
    using run copy by (intro exI [of _ v'] exI [of _ m']) (simp add: DeepCopyObject_def mbind_def mret_def)
qed

end

end
