(* ===== verification/DeepCopyV3.thy ===== *)
theory DeepCopyV3
  imports Memory
begin

text \<open>
  The deep copies of the v3 types, \<open>api/v3/zz_generated.deepcopy.go\<close>, statement by statement, and the
  field types of the structs in \<open>api/v3/atom_types.go\<close> that they have to follow. Parameters: \<open>F\<close> is the
  layout of the structs of the libraries, \<open>L\<close> their \<open>DeepCopyInto\<close>.

  For every type the generated copy is the one that the declaration of the struct asks for.
\<close>

section \<open>Structs of the libraries that the generated code assigns\<close>

definition TypeMeta_ty :: ty where
  "TypeMeta_ty = TStruct [(''Kind'', TScalar), (''APIVersion'', TScalar)]"

definition Author_ty :: ty where
  "Author_ty = TStruct [(''Name'', TScalar), (''Email'', TScalar)]"

definition BBox_ty :: ty where
  "BBox_ty = TStruct [(''MinX'', TScalar), (''MaxX'', TScalar), (''MinY'', TScalar), (''MaxY'', TScalar)]"

lemma flat_structs [deepcopy]:
  "deep L TypeMeta_ty = mret" "flat TypeMeta_ty" "wf_ty TypeMeta_ty" "libs_of TypeMeta_ty = {}"
  "deep L Author_ty = mret" "flat Author_ty" "wf_ty Author_ty" "libs_of Author_ty = {}"
  "deep L BBox_ty = mret" "flat BBox_ty" "wf_ty BBox_ty" "libs_of BBox_ty = {}"
  by (simp_all add: TypeMeta_ty_def Author_ty_def BBox_ty_def deepcopy)

section \<open>The types of the resource\<close>

definition MetadataLink_ty :: ty where
  "MetadataLink_ty = TStruct
     [(''MetadataIdentifier'', TScalar), (''Templates'', TSlice TScalar)]"

definition MetadataLink_DeepCopyInto :: copier where
  "MetadataLink_DeepCopyInto = copy_struct
     [copy_field ''Templates'' (copy_slice mret)]"

definition MetadataLink_DeepCopy :: copier where
  "MetadataLink_DeepCopy = DeepCopy MetadataLink_DeepCopyInto"

lemma MetadataLink_copy [deepcopy]:
  "deep L MetadataLink_ty = MetadataLink_DeepCopyInto"
  "\<not> flat MetadataLink_ty" "wf_ty MetadataLink_ty" "libs_of MetadataLink_ty \<subseteq> range (\<lambda>n. (n, F n))"
  by (simp_all add: MetadataLink_ty_def MetadataLink_DeepCopyInto_def deepcopy)

interpretation MetadataLink_copier: struct_copier L F "MetadataLink_ty" "MetadataLink_DeepCopyInto" for L F
  by unfold_locales (simp_all add: deepcopy)

definition Link_ty :: "(string \<Rightarrow> ty) \<Rightarrow> ty" where
  "Link_ty F = TStruct
     [(''Href'', lib F ''model.URL''), (''Rel'', TScalar), (''Type'', TScalar),
      (''Hreflang'', TPtr TScalar), (''Title'', TPtr TScalar)]"

definition Link_DeepCopyInto :: "(string \<Rightarrow> copier) \<Rightarrow> copier" where
  "Link_DeepCopyInto L = copy_struct
     [copy_field ''Href'' (L ''model.URL''),
      copy_field ''Hreflang'' (copy_ptr mret),
      copy_field ''Title'' (copy_ptr mret)]"

definition Link_DeepCopy :: "(string \<Rightarrow> copier) \<Rightarrow> copier" where
  "Link_DeepCopy L = DeepCopy (Link_DeepCopyInto L)"

lemma Link_copy [deepcopy]:
  "deep L (Link_ty F) = Link_DeepCopyInto L"
  "\<not> flat (Link_ty F)" "wf_ty (Link_ty F)" "libs_of (Link_ty F) \<subseteq> range (\<lambda>n. (n, F n))"
  by (simp_all add: Link_ty_def Link_DeepCopyInto_def deepcopy)

interpretation Link_copier: struct_copier L F "Link_ty F" "Link_DeepCopyInto L" for L F
  by unfold_locales (simp_all add: deepcopy)

definition DownloadLink_ty :: ty where
  "DownloadLink_ty = TStruct
     [(''Data'', TScalar), (''Rel'', TPtr TScalar), (''Time'', TPtr TScalar),
      (''BBox'', TPtr BBox_ty)]"

definition DownloadLink_DeepCopyInto :: copier where
  "DownloadLink_DeepCopyInto = copy_struct
     [copy_field ''Rel'' (copy_ptr mret),
      copy_field ''Time'' (copy_ptr mret),
      copy_field ''BBox'' (copy_ptr mret)]"

definition DownloadLink_DeepCopy :: copier where
  "DownloadLink_DeepCopy = DeepCopy DownloadLink_DeepCopyInto"

lemma DownloadLink_copy [deepcopy]:
  "deep L DownloadLink_ty = DownloadLink_DeepCopyInto"
  "\<not> flat DownloadLink_ty" "wf_ty DownloadLink_ty" "libs_of DownloadLink_ty \<subseteq> range (\<lambda>n. (n, F n))"
  by (simp_all add: DownloadLink_ty_def DownloadLink_DeepCopyInto_def deepcopy)

interpretation DownloadLink_copier: struct_copier L F "DownloadLink_ty" "DownloadLink_DeepCopyInto" for L F
  by unfold_locales (simp_all add: deepcopy)

definition Polygon_ty :: ty where
  "Polygon_ty = TStruct
     [(''BBox'', BBox_ty)]"

definition Polygon_DeepCopyInto :: copier where
  "Polygon_DeepCopyInto = copy_struct
     [assign_field ''BBox'']"

definition Polygon_DeepCopy :: copier where
  "Polygon_DeepCopy = DeepCopy Polygon_DeepCopyInto"

lemma Polygon_copy [deepcopy]:
  "Polygon_DeepCopyInto = mret" "deep L Polygon_ty = mret"
  "flat Polygon_ty" "wf_ty Polygon_ty" "libs_of Polygon_ty = {}"
  by (simp_all add: Polygon_ty_def Polygon_DeepCopyInto_def deepcopy)

interpretation Polygon_copier: struct_copier L F "Polygon_ty" "Polygon_DeepCopyInto" for L F
  by unfold_locales (simp_all add: deepcopy)

definition SRS_ty :: "(string \<Rightarrow> ty) \<Rightarrow> ty" where
  "SRS_ty F = TStruct
     [(''URI'', lib F ''model.URL''), (''Name'', TScalar)]"

definition SRS_DeepCopyInto :: "(string \<Rightarrow> copier) \<Rightarrow> copier" where
  "SRS_DeepCopyInto L = copy_struct
     [copy_field ''URI'' (L ''model.URL'')]"

definition SRS_DeepCopy :: "(string \<Rightarrow> copier) \<Rightarrow> copier" where
  "SRS_DeepCopy L = DeepCopy (SRS_DeepCopyInto L)"

lemma SRS_copy [deepcopy]:
  "deep L (SRS_ty F) = SRS_DeepCopyInto L"
  "\<not> flat (SRS_ty F)" "wf_ty (SRS_ty F)" "libs_of (SRS_ty F) \<subseteq> range (\<lambda>n. (n, F n))"
  by (simp_all add: SRS_ty_def SRS_DeepCopyInto_def deepcopy)

interpretation SRS_copier: struct_copier L F "SRS_ty F" "SRS_DeepCopyInto L" for L F
  by unfold_locales (simp_all add: deepcopy)

definition Entry_ty :: "(string \<Rightarrow> ty) \<Rightarrow> ty" where
  "Entry_ty F = TStruct
     [(''TechnicalName'', TScalar), (''Title'', TPtr TScalar), (''Content'', TPtr TScalar),
      (''DownloadLinks'', TSlice DownloadLink_ty), (''Updated'', lib F ''metav1.Time''),
      (''Polygon'', Polygon_ty), (''SRS'', SRS_ty F)]"

definition Entry_DeepCopyInto :: "(string \<Rightarrow> copier) \<Rightarrow> copier" where
  "Entry_DeepCopyInto L = copy_struct
     [copy_field ''Title'' (copy_ptr mret),
      copy_field ''Content'' (copy_ptr mret),
      copy_field ''DownloadLinks'' (copy_slice DownloadLink_DeepCopyInto),
      copy_field ''Updated'' (L ''metav1.Time''),
      assign_field ''Polygon'',
      copy_field ''SRS'' (SRS_DeepCopyInto L)]"

definition Entry_DeepCopy :: "(string \<Rightarrow> copier) \<Rightarrow> copier" where
  "Entry_DeepCopy L = DeepCopy (Entry_DeepCopyInto L)"

lemma Entry_copy [deepcopy]:
  "deep L (Entry_ty F) = Entry_DeepCopyInto L"
  "\<not> flat (Entry_ty F)" "wf_ty (Entry_ty F)" "libs_of (Entry_ty F) \<subseteq> range (\<lambda>n. (n, F n))"
  by (simp_all add: Entry_ty_def Entry_DeepCopyInto_def deepcopy)

interpretation Entry_copier: struct_copier L F "Entry_ty F" "Entry_DeepCopyInto L" for L F
  by unfold_locales (simp_all add: deepcopy)

definition DatasetFeed_ty :: "(string \<Rightarrow> ty) \<Rightarrow> ty" where
  "DatasetFeed_ty F = TStruct
     [(''TechnicalName'', TScalar), (''Title'', TScalar), (''Subtitle'', TScalar),
      (''DatasetMetadataLinks'', TPtr MetadataLink_ty), (''Links'', TSlice (Link_ty F)),
      (''Author'', Author_ty), (''SpatialDatasetIdentifierCode'', TPtr TScalar),
      (''SpatialDatasetIdentifierNamespace'', TPtr TScalar), (''Entries'', TSlice (Entry_ty F))]"

definition DatasetFeed_DeepCopyInto :: "(string \<Rightarrow> copier) \<Rightarrow> copier" where
  "DatasetFeed_DeepCopyInto L = copy_struct
     [copy_field ''DatasetMetadataLinks'' (copy_ptr MetadataLink_DeepCopyInto),
      copy_field ''Links'' (copy_slice (Link_DeepCopyInto L)),
      assign_field ''Author'',
      copy_field ''SpatialDatasetIdentifierCode'' (copy_ptr mret),
      copy_field ''SpatialDatasetIdentifierNamespace'' (copy_ptr mret),
      copy_field ''Entries'' (copy_slice (Entry_DeepCopyInto L))]"

definition DatasetFeed_DeepCopy :: "(string \<Rightarrow> copier) \<Rightarrow> copier" where
  "DatasetFeed_DeepCopy L = DeepCopy (DatasetFeed_DeepCopyInto L)"

lemma DatasetFeed_copy [deepcopy]:
  "deep L (DatasetFeed_ty F) = DatasetFeed_DeepCopyInto L"
  "\<not> flat (DatasetFeed_ty F)" "wf_ty (DatasetFeed_ty F)" "libs_of (DatasetFeed_ty F) \<subseteq> range (\<lambda>n. (n, F n))"
  by (simp_all add: DatasetFeed_ty_def DatasetFeed_DeepCopyInto_def deepcopy)

interpretation DatasetFeed_copier: struct_copier L F "DatasetFeed_ty F" "DatasetFeed_DeepCopyInto L" for L F
  by unfold_locales (simp_all add: deepcopy)

definition Service_ty :: "(string \<Rightarrow> ty) \<Rightarrow> ty" where
  "Service_ty F = TStruct
     [(''BaseURL'', lib F ''model.URL''), (''Lang'', TScalar),
      (''Stylesheet'', TPtr (lib F ''model.URL'')), (''Title'', TScalar), (''Subtitle'', TScalar),
      (''OwnerInfoRef'', TScalar), (''ServiceMetadataLinks'', TPtr MetadataLink_ty),
      (''Links'', TSlice (Link_ty F)), (''Rights'', TScalar),
      (''DatasetFeeds'', TSlice (DatasetFeed_ty F))]"

definition Service_DeepCopyInto :: "(string \<Rightarrow> copier) \<Rightarrow> copier" where
  "Service_DeepCopyInto L = copy_struct
     [copy_field ''BaseURL'' (L ''model.URL''),
      copy_field ''Stylesheet'' (copy_ptr (L ''model.URL'')),
      copy_field ''ServiceMetadataLinks'' (copy_ptr MetadataLink_DeepCopyInto),
      copy_field ''Links'' (copy_slice (Link_DeepCopyInto L)),
      copy_field ''DatasetFeeds'' (copy_slice (DatasetFeed_DeepCopyInto L))]"

definition Service_DeepCopy :: "(string \<Rightarrow> copier) \<Rightarrow> copier" where
  "Service_DeepCopy L = DeepCopy (Service_DeepCopyInto L)"

lemma Service_copy [deepcopy]:
  "deep L (Service_ty F) = Service_DeepCopyInto L"
  "\<not> flat (Service_ty F)" "wf_ty (Service_ty F)" "libs_of (Service_ty F) \<subseteq> range (\<lambda>n. (n, F n))"
  by (simp_all add: Service_ty_def Service_DeepCopyInto_def deepcopy)

interpretation Service_copier: struct_copier L F "Service_ty F" "Service_DeepCopyInto L" for L F
  by unfold_locales (simp_all add: deepcopy)

definition AtomSpec_ty :: "(string \<Rightarrow> ty) \<Rightarrow> ty" where
  "AtomSpec_ty F = TStruct
     [(''Lifecycle'', TPtr (lib F ''model.Lifecycle'')),
      (''IngressRouteURLs'', TSlice (lib F ''model.IngressRouteURL'')), (''Service'', Service_ty F)]"

definition AtomSpec_DeepCopyInto :: "(string \<Rightarrow> copier) \<Rightarrow> copier" where
  "AtomSpec_DeepCopyInto L = copy_struct
     [copy_field ''Lifecycle'' (copy_ptr (L ''model.Lifecycle'')),
      copy_field ''IngressRouteURLs'' (copy_slice (L ''model.IngressRouteURL'')),
      copy_field ''Service'' (Service_DeepCopyInto L)]"

definition AtomSpec_DeepCopy :: "(string \<Rightarrow> copier) \<Rightarrow> copier" where
  "AtomSpec_DeepCopy L = DeepCopy (AtomSpec_DeepCopyInto L)"

lemma AtomSpec_copy [deepcopy]:
  "deep L (AtomSpec_ty F) = AtomSpec_DeepCopyInto L"
  "\<not> flat (AtomSpec_ty F)" "wf_ty (AtomSpec_ty F)" "libs_of (AtomSpec_ty F) \<subseteq> range (\<lambda>n. (n, F n))"
  by (simp_all add: AtomSpec_ty_def AtomSpec_DeepCopyInto_def deepcopy)

interpretation AtomSpec_copier: struct_copier L F "AtomSpec_ty F" "AtomSpec_DeepCopyInto L" for L F
  by unfold_locales (simp_all add: deepcopy)

definition Atom_ty :: "(string \<Rightarrow> ty) \<Rightarrow> ty" where
  "Atom_ty F = TStruct
     [(''TypeMeta'', TypeMeta_ty), (''ObjectMeta'', lib F ''metav1.ObjectMeta''),
      (''Spec'', AtomSpec_ty F), (''Status'', lib F ''model.OperatorStatus'')]"

definition Atom_DeepCopyInto :: "(string \<Rightarrow> copier) \<Rightarrow> copier" where
  "Atom_DeepCopyInto L = copy_struct
     [assign_field ''TypeMeta'',
      copy_field ''ObjectMeta'' (L ''metav1.ObjectMeta''),
      copy_field ''Spec'' (AtomSpec_DeepCopyInto L),
      copy_field ''Status'' (L ''model.OperatorStatus'')]"

definition Atom_DeepCopy :: "(string \<Rightarrow> copier) \<Rightarrow> copier" where
  "Atom_DeepCopy L = DeepCopy (Atom_DeepCopyInto L)"

definition Atom_DeepCopyObject :: "(string \<Rightarrow> copier) \<Rightarrow> gval \<Rightarrow> (string \<times> gval) option mop" where
  "Atom_DeepCopyObject L = DeepCopyObject ''Atom'' (Atom_DeepCopy L)"

lemma Atom_copy [deepcopy]:
  "deep L (Atom_ty F) = Atom_DeepCopyInto L"
  "\<not> flat (Atom_ty F)" "wf_ty (Atom_ty F)" "libs_of (Atom_ty F) \<subseteq> range (\<lambda>n. (n, F n))"
  by (simp_all add: Atom_ty_def Atom_DeepCopyInto_def deepcopy)

interpretation Atom_copier: struct_copier L F "Atom_ty F" "Atom_DeepCopyInto L" for L F
  by unfold_locales (simp_all add: deepcopy)

definition AtomList_ty :: "(string \<Rightarrow> ty) \<Rightarrow> ty" where
  "AtomList_ty F = TStruct
     [(''TypeMeta'', TypeMeta_ty), (''ListMeta'', lib F ''metav1.ListMeta''),
      (''Items'', TSlice (Atom_ty F))]"

definition AtomList_DeepCopyInto :: "(string \<Rightarrow> copier) \<Rightarrow> copier" where
  "AtomList_DeepCopyInto L = copy_struct
     [assign_field ''TypeMeta'',
      copy_field ''ListMeta'' (L ''metav1.ListMeta''),
      copy_field ''Items'' (copy_slice (Atom_DeepCopyInto L))]"

definition AtomList_DeepCopy :: "(string \<Rightarrow> copier) \<Rightarrow> copier" where
  "AtomList_DeepCopy L = DeepCopy (AtomList_DeepCopyInto L)"

definition AtomList_DeepCopyObject :: "(string \<Rightarrow> copier) \<Rightarrow> gval \<Rightarrow> (string \<times> gval) option mop" where
  "AtomList_DeepCopyObject L = DeepCopyObject ''AtomList'' (AtomList_DeepCopy L)"

lemma AtomList_copy [deepcopy]:
  "deep L (AtomList_ty F) = AtomList_DeepCopyInto L"
  "\<not> flat (AtomList_ty F)" "wf_ty (AtomList_ty F)" "libs_of (AtomList_ty F) \<subseteq> range (\<lambda>n. (n, F n))"
  by (simp_all add: AtomList_ty_def AtomList_DeepCopyInto_def deepcopy)

interpretation AtomList_copier: struct_copier L F "AtomList_ty F" "AtomList_DeepCopyInto L" for L F
  by unfold_locales (simp_all add: deepcopy)

section \<open>All copies\<close>

text \<open>The types of the package with their generated copies.\<close>

definition v3_copiers :: "(string \<Rightarrow> copier) \<Rightarrow> (string \<Rightarrow> ty) \<Rightarrow> (ty \<times> copier) list" where
  "v3_copiers L F =
     [(MetadataLink_ty, MetadataLink_DeepCopyInto),
      (Link_ty F, Link_DeepCopyInto L),
      (DownloadLink_ty, DownloadLink_DeepCopyInto),
      (Polygon_ty, Polygon_DeepCopyInto),
      (SRS_ty F, SRS_DeepCopyInto L),
      (Entry_ty F, Entry_DeepCopyInto L),
      (DatasetFeed_ty F, DatasetFeed_DeepCopyInto L),
      (Service_ty F, Service_DeepCopyInto L),
      (AtomSpec_ty F, AtomSpec_DeepCopyInto L),
      (Atom_ty F, Atom_DeepCopyInto L),
      (AtomList_ty F, AtomList_DeepCopyInto L)]"

lemma v3_copiers_ok: "list_all (\<lambda>(t, into). struct_copier L F t into) (v3_copiers L F)"
  by (simp add: v3_copiers_def struct_copier_def deepcopy)

end
