(* ===== verification/DeepCopyBeta.thy ===== *)
theory DeepCopyBeta
  imports DeepCopyV3
begin

text \<open>
  The deep copies of the v2beta1 types, \<open>api/v2beta1/zz_generated.deepcopy.go\<close>, and the field types of the
  structs in \<open>api/v2beta1/atom_types.go\<close> and \<open>types.go\<close>. Types that both versions have carry \<open>Beta\<close> here.
\<close>

definition General_ty :: ty where
  "General_ty = TStruct
     [(''Dataset'', TScalar), (''Theme'', TPtr TScalar), (''DatasetOwner'', TScalar),
      (''ServiceVersion'', TPtr TScalar), (''DataVersion'', TPtr TScalar)]"

definition General_DeepCopyInto :: copier where
  "General_DeepCopyInto = copy_struct
     [copy_field ''Theme'' (copy_ptr mret),
      copy_field ''ServiceVersion'' (copy_ptr mret),
      copy_field ''DataVersion'' (copy_ptr mret)]"

definition General_DeepCopy :: copier where
  "General_DeepCopy = DeepCopy General_DeepCopyInto"

lemma General_copy [deepcopy]:
  "deep L General_ty = General_DeepCopyInto"
  "\<not> flat General_ty" "wf_ty General_ty" "libs_of General_ty \<subseteq> range (\<lambda>n. (n, F n))"
  by (simp_all add: General_ty_def General_DeepCopyInto_def deepcopy)

interpretation General_copier: struct_copier L F "General_ty" "General_DeepCopyInto" for L F
  by unfold_locales (simp_all add: deepcopy)

definition BetaAuthor_ty :: ty where
  "BetaAuthor_ty = TStruct
     [(''Name'', TScalar), (''Email'', TScalar)]"

definition BetaAuthor_DeepCopyInto :: copier where
  "BetaAuthor_DeepCopyInto = copy_struct []"

definition BetaAuthor_DeepCopy :: copier where
  "BetaAuthor_DeepCopy = DeepCopy BetaAuthor_DeepCopyInto"

lemma BetaAuthor_copy [deepcopy]:
  "BetaAuthor_DeepCopyInto = mret" "deep L BetaAuthor_ty = mret"
  "flat BetaAuthor_ty" "wf_ty BetaAuthor_ty" "libs_of BetaAuthor_ty = {}"
  by (simp_all add: BetaAuthor_ty_def BetaAuthor_DeepCopyInto_def deepcopy)

interpretation BetaAuthor_copier: struct_copier L F "BetaAuthor_ty" "BetaAuthor_DeepCopyInto" for L F
  by unfold_locales (simp_all add: deepcopy)

definition OtherLink_ty :: ty where
  "OtherLink_ty = TStruct
     [(''Type'', TScalar), (''URI'', TScalar), (''ContentType'', TPtr TScalar),
      (''Language'', TPtr TScalar)]"

definition OtherLink_DeepCopyInto :: copier where
  "OtherLink_DeepCopyInto = copy_struct
     [copy_field ''ContentType'' (copy_ptr mret),
      copy_field ''Language'' (copy_ptr mret)]"

definition OtherLink_DeepCopy :: copier where
  "OtherLink_DeepCopy = DeepCopy OtherLink_DeepCopyInto"

lemma OtherLink_copy [deepcopy]:
  "deep L OtherLink_ty = OtherLink_DeepCopyInto"
  "\<not> flat OtherLink_ty" "wf_ty OtherLink_ty" "libs_of OtherLink_ty \<subseteq> range (\<lambda>n. (n, F n))"
  by (simp_all add: OtherLink_ty_def OtherLink_DeepCopyInto_def deepcopy)

interpretation OtherLink_copier: struct_copier L F "OtherLink_ty" "OtherLink_DeepCopyInto" for L F
  by unfold_locales (simp_all add: deepcopy)

definition BetaBbox_ty :: ty where
  "BetaBbox_ty = TStruct
     [(''Minx'', TScalar), (''Maxx'', TScalar), (''Miny'', TScalar), (''Maxy'', TScalar)]"

definition BetaBbox_DeepCopyInto :: copier where
  "BetaBbox_DeepCopyInto = copy_struct []"

definition BetaBbox_DeepCopy :: copier where
  "BetaBbox_DeepCopy = DeepCopy BetaBbox_DeepCopyInto"

lemma BetaBbox_copy [deepcopy]:
  "BetaBbox_DeepCopyInto = mret" "deep L BetaBbox_ty = mret"
  "flat BetaBbox_ty" "wf_ty BetaBbox_ty" "libs_of BetaBbox_ty = {}"
  by (simp_all add: BetaBbox_ty_def BetaBbox_DeepCopyInto_def deepcopy)

interpretation BetaBbox_copier: struct_copier L F "BetaBbox_ty" "BetaBbox_DeepCopyInto" for L F
  by unfold_locales (simp_all add: deepcopy)

definition BetaLink_ty :: ty where
  "BetaLink_ty = TStruct
     [(''BlobKey'', TPtr TScalar), (''Updated'', TPtr TScalar), (''Version'', TPtr TScalar),
      (''Bbox'', TPtr BetaBbox_ty), (''Rel'', TPtr TScalar)]"

definition BetaLink_DeepCopyInto :: copier where
  "BetaLink_DeepCopyInto = copy_struct
     [copy_field ''BlobKey'' (copy_ptr mret),
      copy_field ''Updated'' (copy_ptr mret),
      copy_field ''Version'' (copy_ptr mret),
      copy_field ''Bbox'' (copy_ptr mret),
      copy_field ''Rel'' (copy_ptr mret)]"

definition BetaLink_DeepCopy :: copier where
  "BetaLink_DeepCopy = DeepCopy BetaLink_DeepCopyInto"

lemma BetaLink_copy [deepcopy]:
  "deep L BetaLink_ty = BetaLink_DeepCopyInto"
  "\<not> flat BetaLink_ty" "wf_ty BetaLink_ty" "libs_of BetaLink_ty \<subseteq> range (\<lambda>n. (n, F n))"
  by (simp_all add: BetaLink_ty_def BetaLink_DeepCopyInto_def deepcopy)

interpretation BetaLink_copier: struct_copier L F "BetaLink_ty" "BetaLink_DeepCopyInto" for L F
  by unfold_locales (simp_all add: deepcopy)

definition Srs_ty :: ty where
  "Srs_ty = TStruct
     [(''URI'', TScalar), (''Code'', TScalar)]"

definition Srs_DeepCopyInto :: copier where
  "Srs_DeepCopyInto = copy_struct []"

definition Srs_DeepCopy :: copier where
  "Srs_DeepCopy = DeepCopy Srs_DeepCopyInto"

lemma Srs_copy [deepcopy]:
  "Srs_DeepCopyInto = mret" "deep L Srs_ty = mret"
  "flat Srs_ty" "wf_ty Srs_ty" "libs_of Srs_ty = {}"
  by (simp_all add: Srs_ty_def Srs_DeepCopyInto_def deepcopy)

interpretation Srs_copier: struct_copier L F "Srs_ty" "Srs_DeepCopyInto" for L F
  by unfold_locales (simp_all add: deepcopy)

definition Download_ty :: ty where
  "Download_ty = TStruct
     [(''Name'', TScalar), (''Title'', TPtr TScalar), (''Updated'', TPtr TScalar),
      (''Content'', TPtr TScalar), (''Links'', TSlice BetaLink_ty), (''Srs'', Srs_ty)]"

definition Download_DeepCopyInto :: copier where
  "Download_DeepCopyInto = copy_struct
     [copy_field ''Title'' (copy_ptr mret),
      copy_field ''Updated'' (copy_ptr mret),
      copy_field ''Content'' (copy_ptr mret),
      copy_field ''Links'' (copy_slice BetaLink_DeepCopyInto),
      assign_field ''Srs'']"

definition Download_DeepCopy :: copier where
  "Download_DeepCopy = DeepCopy Download_DeepCopyInto"

lemma Download_copy [deepcopy]:
  "deep L Download_ty = Download_DeepCopyInto"
  "\<not> flat Download_ty" "wf_ty Download_ty" "libs_of Download_ty \<subseteq> range (\<lambda>n. (n, F n))"
  by (simp_all add: Download_ty_def Download_DeepCopyInto_def deepcopy)

interpretation Download_copier: struct_copier L F "Download_ty" "Download_DeepCopyInto" for L F
  by unfold_locales (simp_all add: deepcopy)

definition Dataset_ty :: ty where
  "Dataset_ty = TStruct
     [(''Name'', TScalar), (''Title'', TScalar), (''Subtitle'', TScalar),
      (''MetadataIdentifier'', TScalar), (''SourceIdentifier'', TScalar),
      (''Links'', TSlice OtherLink_ty), (''Downloads'', TSlice Download_ty), (''Bbox'', BetaBbox_ty)]"

definition Dataset_DeepCopyInto :: copier where
  "Dataset_DeepCopyInto = copy_struct
     [copy_field ''Links'' (copy_slice OtherLink_DeepCopyInto),
      copy_field ''Downloads'' (copy_slice Download_DeepCopyInto),
      assign_field ''Bbox'']"

definition Dataset_DeepCopy :: copier where
  "Dataset_DeepCopy = DeepCopy Dataset_DeepCopyInto"

lemma Dataset_copy [deepcopy]:
  "deep L Dataset_ty = Dataset_DeepCopyInto"
  "\<not> flat Dataset_ty" "wf_ty Dataset_ty" "libs_of Dataset_ty \<subseteq> range (\<lambda>n. (n, F n))"
  by (simp_all add: Dataset_ty_def Dataset_DeepCopyInto_def deepcopy)

interpretation Dataset_copier: struct_copier L F "Dataset_ty" "Dataset_DeepCopyInto" for L F
  by unfold_locales (simp_all add: deepcopy)

definition AtomService_ty :: ty where
  "AtomService_ty = TStruct
     [(''Title'', TScalar), (''Subtitle'', TScalar), (''MetadataIdentifier'', TScalar),
      (''Rights'', TScalar), (''Updated'', TPtr TScalar), (''Author'', BetaAuthor_ty),
      (''Datasets'', TSlice Dataset_ty)]"

definition AtomService_DeepCopyInto :: copier where
  "AtomService_DeepCopyInto = copy_struct
     [copy_field ''Updated'' (copy_ptr mret),
      assign_field ''Author'',
      copy_field ''Datasets'' (copy_slice Dataset_DeepCopyInto)]"

definition AtomService_DeepCopy :: copier where
  "AtomService_DeepCopy = DeepCopy AtomService_DeepCopyInto"

lemma AtomService_copy [deepcopy]:
  "deep L AtomService_ty = AtomService_DeepCopyInto"
  "\<not> flat AtomService_ty" "wf_ty AtomService_ty" "libs_of AtomService_ty \<subseteq> range (\<lambda>n. (n, F n))"
  by (simp_all add: AtomService_ty_def AtomService_DeepCopyInto_def deepcopy)

interpretation AtomService_copier: struct_copier L F "AtomService_ty" "AtomService_DeepCopyInto" for L F
  by unfold_locales (simp_all add: deepcopy)

definition Autoscaling_ty :: ty where
  "Autoscaling_ty = TStruct
     [(''AverageCPUUtilization'', TPtr TScalar), (''MinReplicas'', TPtr TScalar),
      (''MaxReplicas'', TPtr TScalar)]"

definition Autoscaling_DeepCopyInto :: copier where
  "Autoscaling_DeepCopyInto = copy_struct
     [copy_field ''AverageCPUUtilization'' (copy_ptr mret),
      copy_field ''MinReplicas'' (copy_ptr mret),
      copy_field ''MaxReplicas'' (copy_ptr mret)]"

definition Autoscaling_DeepCopy :: copier where
  "Autoscaling_DeepCopy = DeepCopy Autoscaling_DeepCopyInto"

lemma Autoscaling_copy [deepcopy]:
  "deep L Autoscaling_ty = Autoscaling_DeepCopyInto"
  "\<not> flat Autoscaling_ty" "wf_ty Autoscaling_ty" "libs_of Autoscaling_ty \<subseteq> range (\<lambda>n. (n, F n))"
  by (simp_all add: Autoscaling_ty_def Autoscaling_DeepCopyInto_def deepcopy)

interpretation Autoscaling_copier: struct_copier L F "Autoscaling_ty" "Autoscaling_DeepCopyInto" for L F
  by unfold_locales (simp_all add: deepcopy)

definition HealthCheck_ty :: ty where
  "HealthCheck_ty = TStruct
     [(''Querystring'', TPtr TScalar), (''Mimetype'', TPtr TScalar), (''Boundingbox'', TPtr TScalar)]"

definition HealthCheck_DeepCopyInto :: copier where
  "HealthCheck_DeepCopyInto = copy_struct
     [copy_field ''Querystring'' (copy_ptr mret),
      copy_field ''Mimetype'' (copy_ptr mret),
      copy_field ''Boundingbox'' (copy_ptr mret)]"

definition HealthCheck_DeepCopy :: copier where
  "HealthCheck_DeepCopy = DeepCopy HealthCheck_DeepCopyInto"

lemma HealthCheck_copy [deepcopy]:
  "deep L HealthCheck_ty = HealthCheck_DeepCopyInto"
  "\<not> flat HealthCheck_ty" "wf_ty HealthCheck_ty" "libs_of HealthCheck_ty \<subseteq> range (\<lambda>n. (n, F n))"
  by (simp_all add: HealthCheck_ty_def HealthCheck_DeepCopyInto_def deepcopy)

interpretation HealthCheck_copier: struct_copier L F "HealthCheck_ty" "HealthCheck_DeepCopyInto" for L F
  by unfold_locales (simp_all add: deepcopy)

definition BetaLifecycle_ty :: ty where
  "BetaLifecycle_ty = TStruct
     [(''TTLInDays'', TPtr TScalar)]"

definition BetaLifecycle_DeepCopyInto :: copier where
  "BetaLifecycle_DeepCopyInto = copy_struct
     [copy_field ''TTLInDays'' (copy_ptr mret)]"

definition BetaLifecycle_DeepCopy :: copier where
  "BetaLifecycle_DeepCopy = DeepCopy BetaLifecycle_DeepCopyInto"

lemma BetaLifecycle_copy [deepcopy]:
  "deep L BetaLifecycle_ty = BetaLifecycle_DeepCopyInto"
  "\<not> flat BetaLifecycle_ty" "wf_ty BetaLifecycle_ty" "libs_of BetaLifecycle_ty \<subseteq> range (\<lambda>n. (n, F n))"
  by (simp_all add: BetaLifecycle_ty_def BetaLifecycle_DeepCopyInto_def deepcopy)

interpretation BetaLifecycle_copier: struct_copier L F "BetaLifecycle_ty" "BetaLifecycle_DeepCopyInto" for L F
  by unfold_locales (simp_all add: deepcopy)

definition Kubernetes_ty :: "(string \<Rightarrow> ty) \<Rightarrow> ty" where
  "Kubernetes_ty F = TStruct
     [(''Autoscaling'', TPtr Autoscaling_ty), (''HealthCheck'', TPtr HealthCheck_ty),
      (''Resources'', TPtr (lib F ''v1.ResourceRequirements'')),
      (''Lifecycle'', TPtr BetaLifecycle_ty)]"

definition Kubernetes_DeepCopyInto :: "(string \<Rightarrow> copier) \<Rightarrow> copier" where
  "Kubernetes_DeepCopyInto L = copy_struct
     [copy_field ''Autoscaling'' (copy_ptr Autoscaling_DeepCopyInto),
      copy_field ''HealthCheck'' (copy_ptr HealthCheck_DeepCopyInto),
      copy_field ''Resources'' (copy_ptr (L ''v1.ResourceRequirements'')),
      copy_field ''Lifecycle'' (copy_ptr BetaLifecycle_DeepCopyInto)]"

definition Kubernetes_DeepCopy :: "(string \<Rightarrow> copier) \<Rightarrow> copier" where
  "Kubernetes_DeepCopy L = DeepCopy (Kubernetes_DeepCopyInto L)"

lemma Kubernetes_copy [deepcopy]:
  "deep L (Kubernetes_ty F) = Kubernetes_DeepCopyInto L"
  "\<not> flat (Kubernetes_ty F)" "wf_ty (Kubernetes_ty F)" "libs_of (Kubernetes_ty F) \<subseteq> range (\<lambda>n. (n, F n))"
  by (simp_all add: Kubernetes_ty_def Kubernetes_DeepCopyInto_def deepcopy)

interpretation Kubernetes_copier: struct_copier L F "Kubernetes_ty F" "Kubernetes_DeepCopyInto L" for L F
  by unfold_locales (simp_all add: deepcopy)

definition BetaAtomSpec_ty :: "(string \<Rightarrow> ty) \<Rightarrow> ty" where
  "BetaAtomSpec_ty F = TStruct
     [(''General'', General_ty), (''Service'', AtomService_ty),
      (''Kubernetes'', TPtr (Kubernetes_ty F))]"

definition BetaAtomSpec_DeepCopyInto :: "(string \<Rightarrow> copier) \<Rightarrow> copier" where
  "BetaAtomSpec_DeepCopyInto L = copy_struct
     [copy_field ''General'' General_DeepCopyInto,
      copy_field ''Service'' AtomService_DeepCopyInto,
      copy_field ''Kubernetes'' (copy_ptr (Kubernetes_DeepCopyInto L))]"

definition BetaAtomSpec_DeepCopy :: "(string \<Rightarrow> copier) \<Rightarrow> copier" where
  "BetaAtomSpec_DeepCopy L = DeepCopy (BetaAtomSpec_DeepCopyInto L)"

lemma BetaAtomSpec_copy [deepcopy]:
  "deep L (BetaAtomSpec_ty F) = BetaAtomSpec_DeepCopyInto L"
  "\<not> flat (BetaAtomSpec_ty F)" "wf_ty (BetaAtomSpec_ty F)" "libs_of (BetaAtomSpec_ty F) \<subseteq> range (\<lambda>n. (n, F n))"
  by (simp_all add: BetaAtomSpec_ty_def BetaAtomSpec_DeepCopyInto_def deepcopy)

interpretation BetaAtomSpec_copier: struct_copier L F "BetaAtomSpec_ty F" "BetaAtomSpec_DeepCopyInto L" for L F
  by unfold_locales (simp_all add: deepcopy)

definition BetaAtomStatus_ty :: ty where
  "BetaAtomStatus_ty = TStruct
     []"

definition BetaAtomStatus_DeepCopyInto :: copier where
  "BetaAtomStatus_DeepCopyInto = copy_struct []"

definition BetaAtomStatus_DeepCopy :: copier where
  "BetaAtomStatus_DeepCopy = DeepCopy BetaAtomStatus_DeepCopyInto"

lemma BetaAtomStatus_copy [deepcopy]:
  "BetaAtomStatus_DeepCopyInto = mret" "deep L BetaAtomStatus_ty = mret"
  "flat BetaAtomStatus_ty" "wf_ty BetaAtomStatus_ty" "libs_of BetaAtomStatus_ty = {}"
  by (simp_all add: BetaAtomStatus_ty_def BetaAtomStatus_DeepCopyInto_def deepcopy)

interpretation BetaAtomStatus_copier: struct_copier L F "BetaAtomStatus_ty" "BetaAtomStatus_DeepCopyInto" for L F
  by unfold_locales (simp_all add: deepcopy)

definition BetaAtom_ty :: "(string \<Rightarrow> ty) \<Rightarrow> ty" where
  "BetaAtom_ty F = TStruct
     [(''TypeMeta'', TypeMeta_ty), (''ObjectMeta'', lib F ''metav1.ObjectMeta''),
      (''Spec'', BetaAtomSpec_ty F), (''Status'', BetaAtomStatus_ty)]"

definition BetaAtom_DeepCopyInto :: "(string \<Rightarrow> copier) \<Rightarrow> copier" where
  "BetaAtom_DeepCopyInto L = copy_struct
     [assign_field ''TypeMeta'',
      copy_field ''ObjectMeta'' (L ''metav1.ObjectMeta''),
      copy_field ''Spec'' (BetaAtomSpec_DeepCopyInto L),
      assign_field ''Status'']"

definition BetaAtom_DeepCopy :: "(string \<Rightarrow> copier) \<Rightarrow> copier" where
  "BetaAtom_DeepCopy L = DeepCopy (BetaAtom_DeepCopyInto L)"

definition BetaAtom_DeepCopyObject :: "(string \<Rightarrow> copier) \<Rightarrow> gval \<Rightarrow> (string \<times> gval) option mop" where
  "BetaAtom_DeepCopyObject L = DeepCopyObject ''Atom'' (BetaAtom_DeepCopy L)"

lemma BetaAtom_copy [deepcopy]:
  "deep L (BetaAtom_ty F) = BetaAtom_DeepCopyInto L"
  "\<not> flat (BetaAtom_ty F)" "wf_ty (BetaAtom_ty F)" "libs_of (BetaAtom_ty F) \<subseteq> range (\<lambda>n. (n, F n))"
  by (simp_all add: BetaAtom_ty_def BetaAtom_DeepCopyInto_def deepcopy)

interpretation BetaAtom_copier: struct_copier L F "BetaAtom_ty F" "BetaAtom_DeepCopyInto L" for L F
  by unfold_locales (simp_all add: deepcopy)

definition BetaAtomList_ty :: "(string \<Rightarrow> ty) \<Rightarrow> ty" where
  "BetaAtomList_ty F = TStruct
     [(''TypeMeta'', TypeMeta_ty), (''ListMeta'', lib F ''metav1.ListMeta''),
      (''Items'', TSlice (BetaAtom_ty F))]"

definition BetaAtomList_DeepCopyInto :: "(string \<Rightarrow> copier) \<Rightarrow> copier" where
  "BetaAtomList_DeepCopyInto L = copy_struct
     [assign_field ''TypeMeta'',
      copy_field ''ListMeta'' (L ''metav1.ListMeta''),
      copy_field ''Items'' (copy_slice (BetaAtom_DeepCopyInto L))]"

definition BetaAtomList_DeepCopy :: "(string \<Rightarrow> copier) \<Rightarrow> copier" where
  "BetaAtomList_DeepCopy L = DeepCopy (BetaAtomList_DeepCopyInto L)"

definition BetaAtomList_DeepCopyObject :: "(string \<Rightarrow> copier) \<Rightarrow> gval \<Rightarrow> (string \<times> gval) option mop" where
  "BetaAtomList_DeepCopyObject L = DeepCopyObject ''AtomList'' (BetaAtomList_DeepCopy L)"

lemma BetaAtomList_copy [deepcopy]:
  "deep L (BetaAtomList_ty F) = BetaAtomList_DeepCopyInto L"
  "\<not> flat (BetaAtomList_ty F)" "wf_ty (BetaAtomList_ty F)" "libs_of (BetaAtomList_ty F) \<subseteq> range (\<lambda>n. (n, F n))"
  by (simp_all add: BetaAtomList_ty_def BetaAtomList_DeepCopyInto_def deepcopy)

interpretation BetaAtomList_copier: struct_copier L F "BetaAtomList_ty F" "BetaAtomList_DeepCopyInto L" for L F
  by unfold_locales (simp_all add: deepcopy)

definition ResultAnsible_ty :: ty where
  "ResultAnsible_ty = TStruct
     [(''Ok'', TScalar), (''Changed'', TScalar), (''Skipped'', TScalar), (''Failures'', TScalar),
      (''TimeOfCompletion'', TScalar)]"

definition ResultAnsible_DeepCopyInto :: copier where
  "ResultAnsible_DeepCopyInto = copy_struct []"

definition ResultAnsible_DeepCopy :: copier where
  "ResultAnsible_DeepCopy = DeepCopy ResultAnsible_DeepCopyInto"

lemma ResultAnsible_copy [deepcopy]:
  "ResultAnsible_DeepCopyInto = mret" "deep L ResultAnsible_ty = mret"
  "flat ResultAnsible_ty" "wf_ty ResultAnsible_ty" "libs_of ResultAnsible_ty = {}"
  by (simp_all add: ResultAnsible_ty_def ResultAnsible_DeepCopyInto_def deepcopy)

interpretation ResultAnsible_copier: struct_copier L F "ResultAnsible_ty" "ResultAnsible_DeepCopyInto" for L F
  by unfold_locales (simp_all add: deepcopy)

definition Condition_ty :: "(string \<Rightarrow> ty) \<Rightarrow> ty" where
  "Condition_ty F = TStruct
     [(''Type'', TScalar), (''Status'', TScalar), (''LastTransitionTime'', lib F ''metav1.Time''),
      (''AnsibleResult'', TPtr ResultAnsible_ty), (''Reason'', TScalar), (''Message'', TScalar)]"

definition Condition_DeepCopyInto :: "(string \<Rightarrow> copier) \<Rightarrow> copier" where
  "Condition_DeepCopyInto L = copy_struct
     [copy_field ''LastTransitionTime'' (L ''metav1.Time''),
      copy_field ''AnsibleResult'' (copy_ptr mret)]"

definition Condition_DeepCopy :: "(string \<Rightarrow> copier) \<Rightarrow> copier" where
  "Condition_DeepCopy L = DeepCopy (Condition_DeepCopyInto L)"

lemma Condition_copy [deepcopy]:
  "deep L (Condition_ty F) = Condition_DeepCopyInto L"
  "\<not> flat (Condition_ty F)" "wf_ty (Condition_ty F)" "libs_of (Condition_ty F) \<subseteq> range (\<lambda>n. (n, F n))"
  by (simp_all add: Condition_ty_def Condition_DeepCopyInto_def deepcopy)

interpretation Condition_copier: struct_copier L F "Condition_ty F" "Condition_DeepCopyInto L" for L F
  by unfold_locales (simp_all add: deepcopy)

definition Resources_ty :: ty where
  "Resources_ty = TStruct
     [(''APIVersion'', TPtr TScalar), (''Kind'', TPtr TScalar), (''Name'', TPtr TScalar)]"

definition Resources_DeepCopyInto :: copier where
  "Resources_DeepCopyInto = copy_struct
     [copy_field ''APIVersion'' (copy_ptr mret),
      copy_field ''Kind'' (copy_ptr mret),
      copy_field ''Name'' (copy_ptr mret)]"

definition Resources_DeepCopy :: copier where
  "Resources_DeepCopy = DeepCopy Resources_DeepCopyInto"

lemma Resources_copy [deepcopy]:
  "deep L Resources_ty = Resources_DeepCopyInto"
  "\<not> flat Resources_ty" "wf_ty Resources_ty" "libs_of Resources_ty \<subseteq> range (\<lambda>n. (n, F n))"
  by (simp_all add: Resources_ty_def Resources_DeepCopyInto_def deepcopy)

interpretation Resources_copier: struct_copier L F "Resources_ty" "Resources_DeepCopyInto" for L F
  by unfold_locales (simp_all add: deepcopy)

definition BetaStatus_ty :: "(string \<Rightarrow> ty) \<Rightarrow> ty" where
  "BetaStatus_ty F = TStruct
     [(''Conditions'', TSlice (Condition_ty F)), (''Deployment'', TPtr TScalar),
      (''Resources'', TSlice Resources_ty)]"

definition BetaStatus_DeepCopyInto :: "(string \<Rightarrow> copier) \<Rightarrow> copier" where
  "BetaStatus_DeepCopyInto L = copy_struct
     [copy_field ''Conditions'' (copy_slice (Condition_DeepCopyInto L)),
      copy_field ''Deployment'' (copy_ptr mret),
      copy_field ''Resources'' (copy_slice Resources_DeepCopyInto)]"

definition BetaStatus_DeepCopy :: "(string \<Rightarrow> copier) \<Rightarrow> copier" where
  "BetaStatus_DeepCopy L = DeepCopy (BetaStatus_DeepCopyInto L)"

lemma BetaStatus_copy [deepcopy]:
  "deep L (BetaStatus_ty F) = BetaStatus_DeepCopyInto L"
  "\<not> flat (BetaStatus_ty F)" "wf_ty (BetaStatus_ty F)" "libs_of (BetaStatus_ty F) \<subseteq> range (\<lambda>n. (n, F n))"
  by (simp_all add: BetaStatus_ty_def BetaStatus_DeepCopyInto_def deepcopy)

interpretation BetaStatus_copier: struct_copier L F "BetaStatus_ty F" "BetaStatus_DeepCopyInto L" for L F
  by unfold_locales (simp_all add: deepcopy)

section \<open>All copies\<close>

text \<open>The types of the package with their generated copies.\<close>

definition beta_copiers :: "(string \<Rightarrow> copier) \<Rightarrow> (string \<Rightarrow> ty) \<Rightarrow> (ty \<times> copier) list" where
  "beta_copiers L F =
     [(General_ty, General_DeepCopyInto),
      (BetaAuthor_ty, BetaAuthor_DeepCopyInto),
      (OtherLink_ty, OtherLink_DeepCopyInto),
      (BetaBbox_ty, BetaBbox_DeepCopyInto),
      (BetaLink_ty, BetaLink_DeepCopyInto),
      (Srs_ty, Srs_DeepCopyInto),
      (Download_ty, Download_DeepCopyInto),
      (Dataset_ty, Dataset_DeepCopyInto),
      (AtomService_ty, AtomService_DeepCopyInto),
      (Autoscaling_ty, Autoscaling_DeepCopyInto),
      (HealthCheck_ty, HealthCheck_DeepCopyInto),
      (BetaLifecycle_ty, BetaLifecycle_DeepCopyInto),
      (Kubernetes_ty F, Kubernetes_DeepCopyInto L),
      (BetaAtomSpec_ty F, BetaAtomSpec_DeepCopyInto L),
      (BetaAtomStatus_ty, BetaAtomStatus_DeepCopyInto),
      (BetaAtom_ty F, BetaAtom_DeepCopyInto L),
      (BetaAtomList_ty F, BetaAtomList_DeepCopyInto L),
      (ResultAnsible_ty, ResultAnsible_DeepCopyInto),
      (Condition_ty F, Condition_DeepCopyInto L),
      (Resources_ty, Resources_DeepCopyInto),
      (BetaStatus_ty F, BetaStatus_DeepCopyInto L)]"

lemma beta_copiers_ok: "list_all (\<lambda>(t, into). struct_copier L F t into) (beta_copiers L F)"
  by (simp add: beta_copiers_def struct_copier_def deepcopy)

end
