(* ===== verification/Examples.thy ===== *)
theory Examples
  imports Success Webhook Conversion_Props Downloads Startup Fleet Migration DeepCopyBeta
begin

text \<open>
  Concrete instances of the parameters, and a concrete Atom: an in-memory cluster, label and ownership
  functions, a renderer that returns its template. They show that the contracts the properties assume
  can be met together, and give the properties inputs to be applied to.
\<close>

section \<open>Libraries\<close>

definition ex_libs :: libs where
  "ex_libs =
     \<lparr>CombineLabels = foldl (++) Map.empty, CloneOrEmptyMap = (\<lambda>m. m),
      Pointer_int32 = Some, Pointer_bool = Some,
      EnsureSetGVK = (\<lambda>k t. (\<lparr>tm_Kind = ''Kind'', tm_APIVersion = ''v1''\<rparr>, None)),
      SetControllerReference = (\<lambda>a m.
        if may_control a m
        then (m\<lparr>om_OwnerReferences :=
          [\<lparr>or_Kind = ''Atom'', or_Name = at_Name a, or_UID = om_UID (at_ObjectMeta a), or_Controller = Some True\<rparr>]\<rparr>, None)
        else (m, Some (ErrNew ''already owned by another controller''))),
      AddHashSuffix = (\<lambda>c. (if str_HasSuffix (ob_Name c) ''-hash'' then c
        else c\<lparr>ob_ObjectMeta := (ob_ObjectMeta c)\<lparr>om_Name := ob_Name c @ ''-hash''\<rparr>\<rparr>, None)),
      GetUptimeAnnotations = (\<lambda>annotations id name url labels. annotations(''uptime'' \<mapsto> url))\<rparr>"

definition ex_gen :: gen_libs where
  "ex_gen =
     \<lparr>Render = (\<lambda>template vars.
        if str_Contains template ''{{'' then Inl (ErrNew ''unmatched open tag'') else Inr template),
      ToPolygon = (\<lambda>b. bb_MinX b), ToExtent = (\<lambda>b. bb_MaxX b),
      Pointer_string = Some, Marshal = (\<lambda>fs. Inr ''feeds'')\<rparr>"

definition ex_validation :: validation_libs where
  "ex_validation =
     \<lparr>PathString = (\<lambda>p. []), AddWarning = (\<lambda>ws p s t n. ws @ [s]), ValidateLabelsOnCreate = (\<lambda>ls. None),
      ValidateLabelsOnUpdate = (\<lambda>old new errs. errs), CheckURLImmutability = (\<lambda>old new errs p. errs),
      ValidateIngressRouteURLsContainsBaseURL = (\<lambda>urls base. None),
      ValidateIngressRouteURLsNotRemoved = (\<lambda>old new errs. errs)\<rparr>"

lemma ex_libs_contracts:
  "labels_contract ex_libs" "ownership_contract ex_libs" "hash_contract ex_libs" "libs_ready ex_libs"
proof -
  show "labels_contract ex_libs" by (simp add: labels_contract_def ex_libs_def)
  show "ownership_contract ex_libs"
    by (auto simp: ownership_contract_def ex_libs_def may_control_def split: if_splits)
  show hash: "hash_contract ex_libs" by (simp add: hash_contract_def ex_libs_def str_HasSuffix_append)
  show "libs_ready ex_libs"
    using hash by (simp add: libs_ready_def scheme_contract_def controller_contract_def hashes_def ex_libs_def may_control_def)
qed

text \<open>The library refuses an object that has another controller.\<close>

lemma ex_already_owned:
  "snd (SetControllerReference ex_libs a (zero_ObjectMeta\<lparr>om_Namespace := at_Namespace a, om_OwnerReferences :=
     [\<lparr>or_Kind = ''WMS'', or_Name = at_Name a, or_UID = u, or_Controller = Some True\<rparr>]\<rparr>)) \<noteq> None"
  by (simp add: ex_libs_def may_control_def)

lemma ex_gen_contracts:
  "renders ex_gen oi \<longleftrightarrow> list_all (\<lambda>t. \<not> str_Contains t ''{{'') (owner_templates oi)" "marshals ex_gen"
  by (simp_all add: renders_def marshals_def ex_gen_def)

section \<open>A cluster in memory\<close>

record world =
  wd_objects :: "key \<rightharpoonup> kobj"
  wd_atoms :: "string \<times> string \<rightharpoonup> Atom"
  wd_owners :: "string \<times> string \<rightharpoonup> OwnerInfo"
  wd_log :: "string list"

definition ex_view :: "world view" where
  "ex_view w k = (case wd_objects w k of None \<Rightarrow> None | Some s \<Rightarrow> if kobj_key s = k then Some s else None)"

definition ex_lookup :: "('k \<rightharpoonup> 'v) \<Rightarrow> 'k \<Rightarrow> go_error + 'v" where
  "ex_lookup m k = (case m k of None \<Rightarrow> Inl (ErrLib ''not found'') | Some v \<Rightarrow> Inr v)"

definition ex_CreateOrUpdate ::
  "kobj \<Rightarrow> mutator \<Rightarrow> world \<Rightarrow> (string \<times> go_error option \<times> kobj) go \<times> world" where
  "ex_CreateOrUpdate obj mut w =
     (case mut (at_hand ex_view w obj) of
        Panic p \<Rightarrow> (Panic p, w)
      | Ret (o1, Some err) \<Rightarrow> (Ret (''none'', Some err, o1), w)
      | Ret (o1, None) \<Rightarrow>
          if kobj_key o1 = kobj_key obj
          then (Ret (''updated'', None, o1), w\<lparr>wd_objects := (wd_objects w)(kobj_key obj \<mapsto> o1)\<rparr>)
          else (Ret (''none'', Some (ErrNew ''MutateFn cannot mutate object name and/or object namespace''), o1), w))"

definition ex_client :: "world client" where
  "ex_client =
     \<lparr>GetAtom = (\<lambda>w. ex_lookup (wd_atoms w)), GetOwnerInfo = (\<lambda>w. ex_lookup (wd_owners w)),
      DeleteAtom = (\<lambda>a w. (None, w\<lparr>wd_atoms := (wd_atoms w)((at_Namespace a, at_Name a) := None)\<rparr>)),
      CreateOrUpdate = ex_CreateOrUpdate,
      LogAndUpdateStatusError = (\<lambda>a e w. w\<lparr>wd_log := ''error'' # wd_log w\<rparr>),
      LogAndUpdateStatusFinished = (\<lambda>a rs w. w\<lparr>wd_log := ''finished'' # wd_log w\<rparr>),
      GetObjectFullName = (\<lambda>o1. kobj_Name o1),
      IgnoreNotFound = (\<lambda>err. if err = Some (ErrLib ''not found'') then None else err),
      ErrorText = (\<lambda>e. [])\<rparr>"

lemma ex_view_update:
  "kobj_key o1 = k \<Longrightarrow>
     ex_view (w\<lparr>wd_objects := (wd_objects w)(k \<mapsto> o1)\<rparr>) = (ex_view w)(k \<mapsto> o1)"
  by (simp add: ex_view_def fun_eq_iff)

lemma ex_view_same [simp]:
  "ex_view (w\<lparr>wd_log := l\<rparr>) = ex_view w" "ex_view (w\<lparr>wd_atoms := m\<rparr>) = ex_view w"
  by (simp_all add: ex_view_def fun_eq_iff)

lemma ex_consistent: "consistent ex_view w"
  unfolding consistent_def ex_view_def by (auto split: option.splits if_splits)

lemma ex_at_hand: "kobj_key (at_hand ex_view w obj) = kobj_key obj"
  by (rule at_hand_key [OF ex_consistent])

lemma ex_CreateOrUpdate_cases:
  assumes "ex_CreateOrUpdate obj mut w = (r, w')"
  obtains (ok) o1 where "mut (at_hand ex_view w obj) = Ret (o1, None)" and "kobj_key o1 = kobj_key obj"
      and "r = Ret (''updated'', None, o1)" and "ex_view w' = (ex_view w)(kobj_key obj \<mapsto> o1)"
  | (fail) opr e o1 where "r = Ret (opr, Some e, o1)" and "w' = w"
  | (panic) p where "r = Panic p" and "w' = w"
  using assms ex_view_update [of _ "kobj_key obj" w]
  by (auto simp: ex_CreateOrUpdate_def split: go.splits prod.splits option.splits if_splits)

lemma ex_written:
  assumes "ex_CreateOrUpdate obj mut w = (r, w')"
  shows "ex_view w' = ex_view w \<or> written ex_view obj mut w w'"
    and "r = Ret (opr, None, obj') \<Longrightarrow>
      mut (at_hand ex_view w obj) = Ret (obj', None) \<and> kobj_key obj' = kobj_key obj \<and>
      ex_view w' = (ex_view w)(kobj_key obj \<mapsto> obj')"
proof -
  have "written ex_view obj mut w w'" if "mut (at_hand ex_view w obj) = Ret (o1, None)"
    "kobj_key o1 = kobj_key obj" "ex_view w' = (ex_view w)(kobj_key obj \<mapsto> o1)" for o1
    using that ex_at_hand [of w obj] unfolding written_def by blast
  with assms show "ex_view w' = ex_view w \<or> written ex_view obj mut w w'"
    by (cases rule: ex_CreateOrUpdate_cases) auto
  show "mut (at_hand ex_view w obj) = Ret (obj', None) \<and> kobj_key obj' = kobj_key obj \<and>
      ex_view w' = (ex_view w)(kobj_key obj \<mapsto> obj')" if "r = Ret (opr, None, obj')"
    using assms that by (cases rule: ex_CreateOrUpdate_cases) auto
qed

lemma ex_client_simps [simp]:
  "CreateOrUpdate ex_client = ex_CreateOrUpdate"
  "LogAndUpdateStatusError ex_client a e w = w\<lparr>wd_log := ''error'' # wd_log w\<rparr>"
  "LogAndUpdateStatusFinished ex_client a rs w = w\<lparr>wd_log := ''finished'' # wd_log w\<rparr>"
  "DeleteAtom ex_client a w = (None, w\<lparr>wd_atoms := (wd_atoms w)((at_Namespace a, at_Name a) := None)\<rparr>)"
  "GetAtom ex_client w k = ex_lookup (wd_atoms w) k"
  "GetOwnerInfo ex_client w k = ex_lookup (wd_owners w) k"
  by (simp_all add: ex_client_def)

lemma ex_cluster_contract: "cluster_contract ex_client ex_view"
proof -
  have "written ex_view obj mut w w' \<and> kobj_key obj' = kobj_key obj"
    if "ex_CreateOrUpdate obj mut w = (Ret (opr, None, obj'), w')" for obj mut w opr obj' w'
    using ex_written(2) [OF that] ex_at_hand [of w obj] unfolding written_def by blast
  then show ?thesis
    unfolding cluster_contract_def ex_client_simps using ex_written(1) by fastforce
qed

lemma ex_obliging: "obliging ex_client ex_view"
  unfolding obliging_def
proof (intro allI impI disjI1)
  fix obj w o1 and mut :: mutator
  assume "mut (at_hand ex_view w obj) = Ret (o1, None)" "kobj_key o1 = kobj_key obj"
  then show "\<exists>opr obj' w'. CreateOrUpdate ex_client obj mut w = (Ret (opr, None, obj'), w') \<and>
      kobj_key obj' = kobj_key obj \<and> om_OwnerReferences (kobj_meta obj') = om_OwnerReferences (kobj_meta o1) \<and>
      ex_view w' = (ex_view w)(kobj_key obj \<mapsto> obj')"
    using ex_view_update [of o1 "kobj_key obj" w] by (simp add: ex_CreateOrUpdate_def)
qed

lemma ex_exact: "exact_contract ex_client ex_view"
proof -
  have "stores_result ex_client ex_view"
    unfolding stores_result_def using ex_written(2) ex_at_hand by (metis ex_client_simps(1))
  moreover have "leaves_unchanged ex_client ex_view"
    unfolding leaves_unchanged_def
  proof (intro allI impI)
    fix obj s w and mut :: mutator
    assume s: "ex_view w (kobj_key obj) = Some s" "mut s = Ret (s, None)"
    then have "at_hand ex_view w obj = s" "kobj_key s = kobj_key obj"
      using ex_at_hand [of w obj] by (simp_all add: at_hand_def)
    moreover have "(ex_view w)(kobj_key obj \<mapsto> s) = ex_view w" using s(1) by auto
    ultimately show "\<exists>opr w'. CreateOrUpdate ex_client obj mut w = (Ret (opr, None, s), w') \<and> ex_view w' = ex_view w"
      using s(2) ex_view_update [of s "kobj_key obj" w] by (simp add: ex_CreateOrUpdate_def)
  qed
  ultimately show ?thesis by (simp add: exact_contract_def)
qed

section \<open>An Atom and its OwnerInfo\<close>

definition ex_url :: url where
  "ex_url = \<lparr>url_Scheme = ''https'', url_Opaque = [], url_User = None, url_Host = ''host'',
     url_Path = ''/a'', url_RawPath = [], url_OmitHost = False, url_ForceQuery = False,
     url_RawQuery = [], url_Fragment = [], url_RawFragment = []\<rparr>"

definition ex_link :: DownloadLink where
  "ex_link = \<lparr>dl_Data = ''blobs/f.zip'', dl_Rel = None, dl_Time = None, dl_BBox = None\<rparr>"

definition ex_bbox :: BBox where
  "ex_bbox = \<lparr>bb_MinX = ''0'', bb_MinY = ''0'', bb_MaxX = ''1'', bb_MaxY = ''1''\<rparr>"

definition ex_entry :: Entry where
  "ex_entry = \<lparr>en_TechnicalName = ''e'', en_Title = None, en_Content = Some ''c'',
     en_DownloadLinks = [ex_link, ex_link\<lparr>dl_Data := ''blobs/g.zip''\<rparr>],
     en_Updated = \<lparr>time_UnixNano = 1136214245000000000, time_Offset = 0\<rparr>,
     en_Polygon = \<lparr>pg_BBox = ex_bbox\<rparr>, en_SRS = \<lparr>srs_URI = Some ex_url, srs_Name = ''RD''\<rparr>\<rparr>"

definition ex_author :: Author where
  "ex_author = \<lparr>au_Name = ''a'', au_Email = ''b''\<rparr>"

definition ex_feed :: DatasetFeed where
  "ex_feed = \<lparr>df_TechnicalName = ''d'', df_Title = ''t'', df_Subtitle = ''s'',
     df_DatasetMetadataLinks = Some \<lparr>ml_MetadataIdentifier = ''m1'', ml_Templates = [''opensearch'', ''csw'', ''html'']\<rparr>,
     df_Links = [], df_Author = ex_author, df_SpatialDatasetIdentifierCode = Some ''code'',
     df_SpatialDatasetIdentifierNamespace = Some ''space'', df_Entries = [ex_entry]\<rparr>"

definition ex_service :: Service where
  "ex_service = \<lparr>sv_BaseURL = Some ex_url, sv_Lang = ''nl'', sv_Stylesheet = None, sv_Title = ''t'',
     sv_Subtitle = ''s'', sv_OwnerInfoRef = ''owner'',
     sv_ServiceMetadataLinks = Some \<lparr>ml_MetadataIdentifier = ''m0'', ml_Templates = [''csw'']\<rparr>,
     sv_Links = [], sv_Rights = ''r'', sv_DatasetFeeds = [ex_feed]\<rparr>"

definition ex_atom_with :: "Lifecycle option \<Rightarrow> Atom" where
  "ex_atom_with lifecycle =
     \<lparr>at_TypeMeta = zero_TypeMeta,
      at_ObjectMeta = zero_ObjectMeta\<lparr>om_Name := ''top'', om_Namespace := ''ns'', om_UID := ''uid''\<rparr>,
      at_Spec = \<lparr>as_Lifecycle = lifecycle, as_IngressRouteURLs = None, as_Service = ex_service\<rparr>\<rparr>"

definition ex_atom :: Atom where
  "ex_atom = ex_atom_with None"

definition ex_metadata_urls :: MetadataURLs where
  "ex_metadata_urls = \<lparr>mus_CSW = Some \<lparr>mu_HrefTemplate = ''csw''\<rparr>,
     mus_OpenSearch = Some \<lparr>mu_HrefTemplate = ''os''\<rparr>, mus_HTML = Some \<lparr>mu_HrefTemplate = ''html''\<rparr>\<rparr>"

definition ex_owner :: OwnerInfo where
  "ex_owner = \<lparr>oi_Name = ''owner'', oi_Atom = Some \<lparr>oa_Author = ex_author, oa_DefaultStylesheet = None\<rparr>,
     oi_MetadataUrls = Some ex_metadata_urls\<rparr>"

definition ex_vars :: api_vars where
  "ex_vars = \<lparr>av_baseURL = ''https://host'', av_blobEndpoint = ''http://blob''\<rparr>"

definition ex_env :: "world env" where
  "ex_env = \<lparr>ev_reconciler = \<lparr>rc_AtomGeneratorImage = ''gen'', rc_LighttpdImage = ''httpd'', rc_CSP = ''csp''\<rparr>,
     ev_vars = ex_vars, ev_libs = ex_libs, ev_gen = ex_gen, ev_client = ex_client,
     ev_ord = (\<lambda>G. G), ev_ord_ingress = rev\<rparr>"

definition ex_world_with :: "Atom \<Rightarrow> world" where
  "ex_world_with atom = \<lparr>wd_objects = Map.empty, wd_atoms = [(''ns'', ''top'') \<mapsto> atom],
     wd_owners = [(''ns'', ''owner'') \<mapsto> ex_owner], wd_log = []\<rparr>"

definition ex_world :: world where
  "ex_world = ex_world_with ex_atom"

lemmas ex_defs = ex_atom_with_def ex_service_def ex_feed_def ex_entry_def ex_link_def ex_url_def
  ex_author_def ex_bbox_def zero_ObjectMeta_def zero_TypeMeta_def

lemma ex_env_simps [simp]:
  "ev_vars ex_env = ex_vars" "ev_libs ex_env = ex_libs" "ev_gen ex_env = ex_gen"
  "ev_client ex_env = ex_client" "ev_ord ex_env = (\<lambda>G. G)" "ev_ord_ingress ex_env = rev"
  by (simp_all add: ex_env_def)

lemma ex_no_conflicts: "\<not> conflicts ex_client obj mut w"
proof -
  have "\<not> conflict_tolerated ex_client e" for e
    by (simp add: conflict_tolerated_def ex_client_def str_Contains_iff)
  then show ?thesis by (simp add: conflicts_def split: go.splits prod.splits option.splits)
qed

lemma ex_no_conflict: "\<not> deployment_conflict ex_env atom oi w"
proof -
  obtain r rs w1 where "apply_configMap ex_env atom oi (Map.empty, w) = (r, (rs, w1))"
    by (metis surj_pair)
  then show ?thesis by (simp add: deployment_conflict_def ex_no_conflicts split: go.split sum.split)
qed

lemma ex_links: "GetDownloadLinks ex_atom = [ex_link, ex_link\<lparr>dl_Data := ''blobs/g.zip''\<rparr>]"
  by (simp add: GetDownloadLinks_def ex_atom_def ex_atom_with_def ex_service_def ex_feed_def ex_entry_def)

lemma ex_atom_complete: "atom_complete ex_atom"
  unfolding atom_complete_def atom_keys_valid_def ex_links
  by (simp add: urls_set_def ex_atom_def ex_defs has_blob_key_def)

lemma ex_owner_supports: "owner_complete ex_owner" "owner_supports ex_atom ex_owner"
  by (simp_all add: owner_complete_def owner_supports_def ex_owner_def lacks_url_def ex_metadata_urls_def)

lemma ex_sound_env: "sound_env ex_env ex_view"
  by (simp add: sound_env_def ex_cluster_contract ex_libs_contracts iteration_order_def)

lemma ex_owner_renders: "renders ex_gen ex_owner"
  by (simp add: ex_gen_contracts owner_templates_def ex_owner_def ex_metadata_urls_def str_Contains_iff sublist_code)

lemma ex_ready: "ready ex_env ex_view ex_atom ex_owner"
  by (simp add: ready_def ex_sound_env ex_libs_contracts ex_obliging ex_owner_renders ex_gen_contracts(2) ex_atom_complete
      ex_owner_supports)

lemma ex_bare_runs:
  assumes "atom_complete a"
  shows "\<exists>d. mutateDeployment r ex_libs a (getBareDeployment a) n = Ret (d, None)"
    and "\<exists>s. mutateService ex_libs a (getBareService a) = Ret (s, None)"
    and "\<exists>p. mutatePodDisruptionBudget ex_libs a (getBarePodDisruptionBudget a) = Ret (p, None)"
proof -
  have complete: "urls_set a" "atom_keys_valid a" using assms by (simp_all add: atom_complete_def)
  have order: "iteration_order (\<lambda>G. G)" by (simp add: iteration_order_def)
  note runs = mutators_run [OF ex_libs_contracts(4) complete order]
  have free: "may_control a (ob_ObjectMeta (getBareDeployment a))" "may_control a (ob_ObjectMeta (getBareService a))"
    "may_control a (ob_ObjectMeta (getBarePodDisruptionBudget a))"
    by (simp_all add: getBareDeployment_def getBareService_def getBarePodDisruptionBudget_def)
  show "\<exists>d. mutateDeployment r ex_libs a (getBareDeployment a) n = Ret (d, None)"
    using runs(1) [OF free(1)] by blast
  show "\<exists>s. mutateService ex_libs a (getBareService a) = Ret (s, None)"
    using runs(2) [OF free(2)] by blast
  show "\<exists>p. mutatePodDisruptionBudget ex_libs a (getBarePodDisruptionBudget a) = Ret (p, None)"
    using runs(7) [OF free(3)] by blast
qed

lemma ex_found:
  "GetAtom ex_client (ex_world_with atom) (''ns'', ''top'') = Inr atom"
  "GetOwnerInfo ex_client (ex_world_with atom) (''ns'', ''owner'') = Inr ex_owner"
  by (simp_all add: ex_lookup_def ex_world_with_def)

lemma ex_keys: "at_Namespace ex_atom = ''ns''" "sv_OwnerInfoRef (at_Service ex_atom) = ''owner''"
  by (simp_all add: ex_atom_def ex_atom_with_def ex_service_def zero_ObjectMeta_def)

lemma ex_not_expired: "\<not> ttlExpired ex_atom now"
  by (simp add: ttlExpired_def ex_atom_def ex_atom_with_def)

lemma ex_view_empty: "ex_view (ex_world_with atom) = Map.empty"
  by (simp add: ex_view_def ex_world_with_def fun_eq_iff)

lemma ex_intact: "configMap_intact ex_env ex_view atom oi (ex_world_with a)"
  by (simp add: configMap_intact_def ex_view_empty)

lemma ex_claimable: "claimable ex_view atom K (ex_world_with a)"
  by (simp add: claimable_def ex_view_empty)

lemma ex_plain: "plain_url ex_url [''a'']"
  by (simp add: plain_url_def ex_url_def abs_path_def plain_segment_def shouldEscape_def alphanum_def
      less_eq_char_def)

lemma ex_url_String: "url_String ex_url = ''https://host/a''"
  using url_String_plain [OF ex_plain]
  by (simp add: ex_url_def abs_path_def escape_def escapeByte_def shouldEscape_def alphanum_def less_eq_char_def)

section \<open>Variations\<close>

text \<open>An Atom with a time to live, and one whose base URL is nil: its run panics in the first step.\<close>

definition ex_mortal :: "32 word \<Rightarrow> Atom" where
  "ex_mortal days = ex_atom_with (Some \<lparr>lc_TTLInDays = Some days\<rparr>)"

definition ex_atom_no_url :: Atom where
  "ex_atom_no_url = (ex_atom_with None)
     \<lparr>at_Spec := \<lparr>as_Lifecycle = None, as_IngressRouteURLs = None,
        as_Service = ex_service\<lparr>sv_BaseURL := None\<rparr>\<rparr>\<rparr>"

lemma ex_no_url_translation: "MapAtomV3ToAtomGeneratorConfig G v ex_atom_no_url ex_owner = Panic nil_deref"
  by (simp add: MapAtomV3ToAtomGeneratorConfig_def ex_owner_def getSelfLink_def joined_def ex_atom_no_url_def
      go_simps)

lemma ex_no_url_panics:
  "createOrUpdateAllForAtom ex_env ex_atom_no_url ex_owner (rs, w) = (Panic nil_deref, (rs, w))"
proof -
  have "configMap_mutator ex_env ex_atom_no_url ex_owner (getBareConfigMap ex_atom_no_url) = Panic nil_deref"
    by (simp add: mutateAtomGeneratorConfigMap_def configMapData_def getGeneratorConfig_def getBareConfigMap_def
        ex_no_url_translation Let_def)
  then show ?thesis
    by (simp add: createOrUpdateAllForAtom_def apply_configMap_def step_bind_def step_lift_def Let_def)
qed

section \<open>A server for the cluster\<close>

definition ex_server :: "world server" where
  "ex_server =
     \<lparr>PutAtom = (\<lambda>a w. w\<lparr>wd_atoms := (wd_atoms w)((at_Namespace a, at_Name a) \<mapsto> a)\<rparr>),
      PutOwnerInfo = (\<lambda>oi w. w\<lparr>wd_owners := (wd_owners w)((''ns'', oi_Name oi) \<mapsto> oi)\<rparr>),
      RemoveAtom = (\<lambda>k w. w\<lparr>wd_atoms := (wd_atoms w)(k := None)\<rparr>)\<rparr>"

lemma ex_view_owners [simp]: "ex_view (w\<lparr>wd_owners := m\<rparr>) = ex_view w"
  by (simp add: ex_view_def fun_eq_iff)

lemma ex_specs_kept:
  "(\<And>k a. wd_atoms w' k = Some a \<Longrightarrow> wd_atoms w k = Some a) \<Longrightarrow> specs_kept ex_client w w'"
  by (fastforce simp: specs_kept_def ex_lookup_def split: option.splits)

lemma ex_server_contract: "server_contract ex_client ex_server ex_view"
  unfolding server_contract_def
  by (intro conjI allI ex_specs_kept)
    (auto simp: ex_server_def ex_lookup_def split: if_splits option.splits)

lemma ex_CreateOrUpdate_atoms: "wd_atoms (snd (ex_CreateOrUpdate obj mut w)) = wd_atoms w"
  by (auto simp: ex_CreateOrUpdate_def split: go.split prod.split option.split)

lemma ex_keeps_specs: "client_keeps_specs ex_client"
  unfolding client_keeps_specs_def
  by (intro conjI allI ex_specs_kept) (auto simp: ex_CreateOrUpdate_atoms split: if_splits)

lemma ex_atom_feeds_ok: "feeds_ok ex_atom"
  by (simp add: feeds_ok_def ex_atom_def ex_atom_with_def ex_service_def ex_feed_def feed_ok_def
      entry_ok_def ex_entry_def)

lemma ex_atoms_checked: "atoms_checked ex_validation ex_client ex_world"
  by (auto simp: atoms_checked_def spec_checked_def ex_lookup_def ex_world_def ex_world_with_def
      ex_validation_def ex_atom_feeds_ok split: if_splits option.splits)

section \<open>The conversion\<close>

definition ex_conv :: conv_libs where
  "ex_conv =
     \<lparr>ParseURL = (\<lambda>s. if s = ''https://host/a'' then Inr ex_url else Inl (ErrLib s)),
      IPLiteral = (\<lambda>host. None),
      Pointer_of = Some, PointerVal = (\<lambda>p d. case p of None \<Rightarrow> d | Some s \<Rightarrow> s),
      FormatFloat32 = (\<lambda>x. replicate (unat x) CHR ''I''), ParseFloat32 = (\<lambda>s. of_nat (length s))\<rparr>"

definition ex_beta_vars :: api_vars where
  "ex_beta_vars = \<lparr>av_baseURL = ''https://host/a'', av_blobEndpoint = ''http://blob''\<rparr>"

definition ex_bbox2 :: BetaBbox where
  "ex_bbox2 = \<lparr>bx_Minx = 0, bx_Maxx = 1, bx_Miny = 0, bx_Maxy = 1\<rparr>"

definition ex_download :: Download where
  "ex_download = \<lparr>do_Name = ''e'', do_Title = None, do_Updated = None, do_Content = Some ''c'',
     do_Links = [\<lparr>li_BlobKey = Some ''blobs/f.zip'', li_Updated = None, li_Version = Some ''1'',
       li_Bbox = Some ex_bbox2, li_Rel = Some []\<rparr>],
     do_Srs = \<lparr>sr_URI = ''https://host/a'', sr_Code = ''RD''\<rparr>\<rparr>"

definition ex_dataset :: Dataset where
  "ex_dataset = \<lparr>ds_Name = ''d'', ds_Title = ''t'', ds_Subtitle = ''s'', ds_MetadataIdentifier = ''m1'',
     ds_SourceIdentifier = ''code'',
     ds_Links = [\<lparr>ol_Type = ''doc'', ol_URI = ''https://host/a'', ol_ContentType = None, ol_Language = None\<rparr>],
     ds_Downloads = [ex_download], ds_Bbox = ex_bbox2\<rparr>"

definition ex_beta_with :: "Dataset list \<Rightarrow> BetaAtom" where
  "ex_beta_with datasets =
     \<lparr>bt_TypeMeta = zero_TypeMeta,
      bt_ObjectMeta = zero_ObjectMeta\<lparr>om_Name := ''top'', om_Labels := [''dataset'' \<mapsto> ''set'']\<rparr>,
      bt_Spec =
        \<lparr>bs_General = \<lparr>ge_Dataset = ''set'', ge_Theme = Some ''theme'', ge_DatasetOwner = ''owner'',
           ge_ServiceVersion = Some ''v1'', ge_DataVersion = None\<rparr>,
         bs_Service = \<lparr>be_Title = ''t'', be_Subtitle = ''s'', be_MetadataIdentifier = ''m0'', be_Rights = ''r'',
           be_Updated = None, be_Author = \<lparr>ba_Name = ''a'', ba_Email = ''b''\<rparr>, be_Datasets = datasets\<rparr>,
         bs_Kubernetes = Some \<lparr>bk_Autoscaling = None, bk_HealthCheck = None, bk_Resources = None,
           bk_Lifecycle = Some \<lparr>bl_TTLInDays = Some 7\<rparr>\<rparr>\<rparr>\<rparr>"

definition ex_beta :: BetaAtom where
  "ex_beta = ex_beta_with [ex_dataset]"

text \<open>A dataset with a link that does not parse, behind one that converts.\<close>

definition ex_beta_broken :: BetaAtom where
  "ex_beta_broken = ex_beta_with
     [ex_dataset, ex_dataset\<lparr>ds_Links := [\<lparr>ol_Type = ''doc'', ol_URI = ''::'', ol_ContentType = None, ol_Language = None\<rparr>]\<rparr>]"

definition ex_now :: "nat \<Rightarrow> nat \<Rightarrow> Time" where
  "ex_now i j = \<lparr>time_UnixNano = 0, time_Offset = 0\<rparr>"

lemma ex_pointer_contract: "pointer_contract ex_conv"
  by (simp add: pointer_contract_def ex_conv_def)

lemma ex_stable_float: "stable_float ex_conv x"
  by (simp add: stable_float_def ex_conv_def)

lemma ex_stable_bbox: "stable_bbox ex_conv b"
  by (simp add: stable_bbox_def ex_stable_float)

lemma ex_stable_url: "stable_url ex_conv ''https://host/a''"
  by (simp add: stable_url_def ex_conv_def ex_url_String)

lemma ex_stable: "stable_dataset ex_conv ex_dataset"
  by (simp add: stable_dataset_def ex_stable_bbox ex_stable_url ex_dataset_def ex_download_def)

lemma ex_origin: "plain_origin ''https'' ''host'' []" "origin_text ''https'' ''host'' [] [''a''] = ''https://host/a''"
    "list_all plain_segment [''a'']"
  by (simp_all add: plain_origin_def host_char_def alphanum_def less_eq_char_def validOptionalPort_def
      origin_text_def abs_path_def plain_segment_def shouldEscape_def)

lemma ex_beta_segments: "list_all plain_segment (general_segments (bs_General (bt_Spec (ex_beta_with ds))))"
  by (simp add: ex_beta_with_def general_segments_def plain_segment_def shouldEscape_def alphanum_def
      less_eq_char_def)

lemma ex_base: "\<exists>b. createBaseURL ex_conv (GetBaseURL ex_beta_vars) (bs_General (bt_Spec (ex_beta_with ds))) = Inr b"
  using createBaseURL_plain [OF ex_origin(1,3) ex_beta_segments, of ex_conv]
  unfolding ex_origin(2) GetBaseURL_def ex_beta_vars_def by auto

lemma ex_ToV3: "\<exists>dst'. ToV3 ex_conv ex_beta_vars ex_now ex_beta ex_atom = (None, dst')"
  using ex_base [of "[ex_dataset]"]
  by (auto simp: ToV3_def Let_def ex_beta_def dataset_toV3_def link_toV3_def entry_toV3_def ex_dataset_def
      ex_download_def ex_conv_def ex_beta_with_def)

lemma ex_ToV3_broken:
  "\<exists>e dst' b. ToV3 ex_conv ex_beta_vars ex_now ex_beta_broken ex_atom = (Some e, dst') \<and>
     createBaseURL ex_conv (GetBaseURL ex_beta_vars) (bs_General (bt_Spec ex_beta_broken)) = Inr b"
  using ex_base
  by (auto simp: ToV3_def Let_def ex_beta_broken_def dataset_toV3_def link_toV3_def entry_toV3_def ex_dataset_def
      ex_download_def ex_conv_def ex_beta_with_def)

section \<open>A proxy for the downloads\<close>

text \<open>An interpreter of the regular expressions of the download middlewares, by taking them apart.\<close>

definition ex_rewrite :: "string \<Rightarrow> string \<Rightarrow> string \<Rightarrow> string" where
  "ex_rewrite regex replacement path =
     (let a = drop 2 regex;
          paths = takeWhile (\<lambda>c. c \<noteq> CHR '')'') a;
          files = takeWhile (\<lambda>c. c \<noteq> CHR '')'') (drop (length paths + 13) a);
          pfx = drop 1 (take (length replacement - 3) replacement)
      in case pattern_match (split_on (CHR ''|'') paths) (split_on (CHR ''|'') files) path of
           None \<Rightarrow> path | Some rest \<Rightarrow> slash # pfx @ slash # rest)"

lemma plain_text_set: "plain_text s \<Longrightarrow> CHR '')'' \<notin> set s \<and> CHR ''|'' \<notin> set s"
proof -
  have "\<not> plain_char (CHR '')'')" "\<not> plain_char (CHR ''|'')"
    by (simp_all add: plain_char_def shouldEscape_def alphanum_def less_eq_char_def)
  moreover assume "plain_text s"
  ultimately show ?thesis unfolding plain_text_def list_all_iff by metis
qed

lemma set_str_Join: "set (str_Join xs sep) \<subseteq> \<Union> (set ` set xs) \<union> set sep"
  by (induction xs sep rule: str_Join.induct) auto

lemma split_on_Join: "xs \<noteq> [] \<Longrightarrow> \<forall>x\<in>set xs. c \<notin> set x \<Longrightarrow> split_on c (str_Join xs [c]) = xs"
  by (induction xs "[c]" rule: str_Join.induct) (simp_all add: split_on_append_sep split_on_no_sep)

lemma ex_rewrite_contract: "rewrite_contract ex_rewrite"
  unfolding rewrite_contract_def
proof (intro allI impI)
  fix ps fs pfx path
  assume ps: "ps \<noteq> []" "list_all plain_text ps" and fs: "fs \<noteq> []" "list_all plain_text fs"
  have join: "CHR '')'' \<notin> set (str_Join xs ''|'')" "xs \<noteq> [] \<Longrightarrow> split_on (CHR ''|'') (str_Join xs ''|'') = xs"
    if "list_all plain_text xs" for xs
  proof -
    have "\<forall>x\<in>set xs. CHR '')'' \<notin> set x \<and> CHR ''|'' \<notin> set x"
      using that plain_text_set by (simp add: list_all_iff)
    then show "CHR '')'' \<notin> set (str_Join xs ''|'')" "xs \<noteq> [] \<Longrightarrow> split_on (CHR ''|'') (str_Join xs ''|'') = xs"
      using set_str_Join [of xs "''|''"] split_on_Join [of xs "CHR ''|''"] by auto
  qed
  have tw: "takeWhile (\<lambda>c. c \<noteq> CHR '')'') (str_Join xs ''|'' @ CHR '')'' # t) = str_Join xs ''|''"
    if "list_all plain_text xs" for xs t
    using join(1) [OF that] by (subst takeWhile_append2) auto
  have "take (length (second_group_behind pfx) - 3) (second_group_behind pfx) = slash # pfx"
    by (simp add: second_group_behind_def)
  then show "ex_rewrite (download_regex ps fs) (second_group_behind pfx) path =
      (case pattern_match ps fs path of None \<Rightarrow> path | Some rest \<Rightarrow> slash # pfx @ slash # rest)"
    using tw [OF ps(2)] tw [OF fs(2)] join(2) [OF ps(2,1)] join(2) [OF fs(2,1)]
    by (simp add: ex_rewrite_def download_regex_def Let_def)
qed

text \<open>An Atom with a link whose name begins with the name of a file of another prefix.\<close>

definition ex_shadowed :: Atom where
  "ex_shadowed = ex_atom\<lparr>at_Spec := \<lparr>as_Lifecycle = None, as_IngressRouteURLs = None,
     as_Service = ex_service\<lparr>sv_DatasetFeeds := [ex_feed\<lparr>df_Entries := [ex_entry\<lparr>en_DownloadLinks :=
       [ex_link\<lparr>dl_Data := ''p/f''\<rparr>, ex_link\<lparr>dl_Data := ''q/f2''\<rparr>]\<rparr>]\<rparr>]\<rparr>\<rparr>\<rparr>"

lemma ex_shadowed_links: "GetDownloadLinks ex_shadowed = [ex_link\<lparr>dl_Data := ''p/f''\<rparr>, ex_link\<lparr>dl_Data := ''q/f2''\<rparr>]"
  by (simp add: GetDownloadLinks_def ex_shadowed_def)

lemma ex_shadowed_complete: "atom_complete ex_shadowed"
  unfolding atom_complete_def atom_keys_valid_def ex_shadowed_links
  by (simp add: urls_set_def ex_shadowed_def ex_atom_def ex_defs has_blob_key_def)

lemma ex_shadowed_ready: "ready ex_env ex_view ex_shadowed ex_owner" "owner_supports ex_shadowed ex_owner"
  by (simp_all add: ready_def ex_sound_env ex_libs_contracts ex_obliging ex_owner_renders ex_gen_contracts(2) ex_shadowed_complete
      ex_owner_supports(1))
    (simp_all add: owner_supports_def ex_owner_def lacks_url_def ex_metadata_urls_def)

lemma ex_plain_downloads: "plain_downloads ex_atom" "plain_downloads ex_shadowed"
  unfolding plain_downloads_def ex_links ex_shadowed_links
  by (simp_all add: route_paths_def route_urls_def ex_shadowed_def ex_atom_def ex_defs plain_char_def
      shouldEscape_def alphanum_def less_eq_char_def)

lemma ex_reconciles: "\<exists>w'. Reconcile ex_env (''ns'', ''top'') 0 ex_world = (None, w')"
proof -
  obtain rs w where "createOrUpdateAllForAtom ex_env ex_atom ex_owner (Map.empty, ex_world) = (ok (), (rs, w))"
    using reconcile_found_completes [OF ex_ready ex_owner_supports(2) ex_not_expired ex_consistent ex_intact ex_claimable]
    unfolding ex_world_def by blast
  then show ?thesis
    using ex_found [of ex_atom] ex_not_expired
    by (simp add: Reconcile_def Let_def reconcile_found_def recovering_def ex_keys ex_world_def)
qed

lemma ex_shadowed_runs:
  "\<exists>rs w. createOrUpdateAllForAtom ex_env ex_shadowed ex_owner (Map.empty, ex_world) = (ok (), (rs, w))"
proof -
  have "\<not> ttlExpired ex_shadowed 0" by (simp add: ttlExpired_def ex_shadowed_def)
  from reconcile_found_completes [OF ex_shadowed_ready this ex_consistent ex_intact ex_claimable]
  show ?thesis unfolding ex_world_def by blast
qed

lemma ex_shadowed_groups:
  "getDownloadLinkGroups (GetDownloadLinks ex_shadowed) =
     Ret [(''p'', \<lparr>lg_index = Some 0, lg_files = [''f'']\<rparr>), (''q'', \<lparr>lg_index = Some 1, lg_files = [''f2'']\<rparr>)]"
proof -
  have "GetBlobPrefix (ex_link\<lparr>dl_Data := ''p/f''\<rparr>) = Ret ''p''" "GetBlobName (ex_link\<lparr>dl_Data := ''p/f''\<rparr>) = Ret ''f''"
    "GetBlobPrefix (ex_link\<lparr>dl_Data := ''q/f2''\<rparr>) = Ret ''q''" "GetBlobName (ex_link\<lparr>dl_Data := ''q/f2''\<rparr>) = Ret ''f2''"
    using blob_parts_append [of "ex_link\<lparr>dl_Data := ''p/f''\<rparr>" "''p''" "''f''"]
      blob_parts_append [of "ex_link\<lparr>dl_Data := ''q/f2''\<rparr>" "''q''" "''f2''"] by simp_all
  then show ?thesis
    by (simp add: ex_shadowed_links getDownloadLinkGroups_def)
qed

lemma ex_itoa: "itoa 0 = ''0''" "itoa (Suc 0) = ''1''"
  by code_simp+

section \<open>A start of the operator\<close>

definition ex_values :: "string \<Rightarrow> string \<Rightarrow> flag_value" where
  "ex_values img n =
     (if n = ''atom-baseurl'' then StringFlag ''https://host/''
      else if n = ''blob-endpoint'' then StringFlag ''http://blob''
      else if n = ''atom-generator-image'' then StringFlag ''gen''
      else if n = ''lighttpd-image'' then StringFlag img
      else case map_of registered_flags n of Some v \<Rightarrow> v | None \<Rightarrow> StringFlag [])"

definition ex_boot :: "string \<Rightarrow> boot_libs" where
  "ex_boot img =
     \<lparr>ff_Parse = (\<lambda>fs. Inr (ex_values img)), NewManager = (\<lambda>o1. None), ctrl_Complete = (\<lambda>b r. None),
      Getenv = (\<lambda>n. []), wh_Complete = (\<lambda>b. None), AddHealthzCheck = (\<lambda>n. None),
      AddReadyzCheck = (\<lambda>n. None), mgr_Start = None\<rparr>"

lemma ex_flags:
  "fg_baseURL (bind_flags (ex_values img)) = ''https://host/''"
  "fg_blobEndpoint (bind_flags (ex_values img)) = ''http://blob''"
  "fg_atomGeneratorImage (bind_flags (ex_values img)) = ''gen''"
  "fg_lighttpdImage (bind_flags (ex_values img)) = img"
  by (simp_all add: bind_flags_def ex_values_def)

lemma ex_started: "\<exists>s. main (ex_boot ''httpd'') rev fresh_boot = (Returned, s) \<and> bo_started s"
  by (simp add: main_def start_manager_def start_webhook_def exit_if_def ex_boot_def SetupWithManager_def
      SetupAtomWebhookWithManager_def reqFlags_def ex_flags Let_def)

section \<open>Deep copies\<close>

text \<open>Layouts of the libraries: a URL is a struct with a pointer, everything else a scalar.\<close>

definition ex_layout :: "string \<Rightarrow> ty" where
  "ex_layout n = (if n = ''model.URL'' then TStruct [(''URL'', TPtr TScalar)] else TScalar)"

definition ex_lib_copy :: "string \<Rightarrow> copier" where
  "ex_lib_copy n = (if n = ''model.URL'' then copy_struct [copy_field ''URL'' (copy_ptr mret)] else mret)"

lemma ex_lib_copies: "lib_copies ex_lib_copy ex_layout"
  unfolding lib_copies_def
proof
  fix n
  have "wf_ty (ex_layout n)" "libs_of (ex_layout n) = {}" by (simp_all add: ex_layout_def)
  then have "copies (ex_layout n) (deep ex_lib_copy (ex_layout n))"
    by (intro deep_copies(1)) (simp_all add: libs_copy_def)
  moreover have "deep ex_lib_copy (ex_layout n) = ex_lib_copy n"
    by (simp add: ex_layout_def ex_lib_copy_def)
  ultimately show "copies (ex_layout n) (ex_lib_copy n)" by simp
qed

text \<open>A memory with an Atom that shares one string and one URL between two of its fields.\<close>

definition ex_text :: "string \<Rightarrow> gval" where
  "ex_text s = Scalar (Str s)"

definition ex_heap_link :: gval where
  "ex_heap_link = Struct
     [(''Href'', Struct [(''URL'', Ptr (Some 1))]), (''Rel'', ex_text ''describedby''), (''Type'', ex_text []),
      (''Hreflang'', Ptr (Some 2)), (''Title'', Ptr (Some 2))]"

definition ex_heap_atom :: gval where
  "ex_heap_atom = Struct
     [(''TypeMeta'', Struct [(''Kind'', ex_text ''Atom''), (''APIVersion'', ex_text ''pdok.nl/v3'')]),
      (''ObjectMeta'', ex_text ''top''),
      (''Spec'', Struct
         [(''Lifecycle'', Ptr None), (''IngressRouteURLs'', Slice None),
          (''Service'', Struct
             [(''BaseURL'', Struct [(''URL'', Ptr (Some 1))]), (''Lang'', ex_text ''nl''), (''Stylesheet'', Ptr None),
              (''Title'', ex_text ''t''), (''Subtitle'', ex_text ''s''), (''OwnerInfoRef'', ex_text ''pdok''),
              (''ServiceMetadataLinks'', Ptr None), (''Links'', Slice (Some (3, 0, 1))), (''Rights'', ex_text ''r''),
              (''DatasetFeeds'', Slice None)])]),
      (''Status'', ex_text [])]"

definition ex_memory :: memory where
  "ex_memory = \<lparr>cells = [0 \<mapsto> [ex_heap_atom], 1 \<mapsto> [ex_text ''https://host/a''], 2 \<mapsto> [ex_text ''nl''],
       3 \<mapsto> [ex_heap_link]], next_addr = 4\<rparr>"

lemma ex_wf_memory: "wf_mem ex_memory"
  by (simp add: wf_mem_def ex_memory_def)

lemma ex_memory_typed: "\<exists>x. val ex_memory (TPtr (Atom_ty ex_layout)) (Ptr (Some 0)) = Some x"
  by (simp add: ex_memory_def load_def array_at_def ex_heap_atom_def ex_heap_link_def ex_text_def Atom_ty_def AtomSpec_ty_def
      Service_ty_def Link_ty_def TypeMeta_ty_def ex_layout_def)

lemma ex_link_typed: "\<exists>x. val ex_memory (Link_ty ex_layout) ex_heap_link = Some x"
  by (simp add: ex_memory_def load_def array_at_def ex_heap_link_def ex_text_def Link_ty_def ex_layout_def)

section \<open>What the manager leaves alone\<close>

abbreviation ex_kept :: "world \<Rightarrow> bool" where
  "ex_kept w \<equiv> wd_atoms w = wd_atoms ex_world \<and> wd_owners w = wd_owners ex_world"

lemma ex_creates_keep: "kept_by_creates ex_client (\<lambda>w. wd_atoms w = atoms \<and> wd_owners w = owners)"
  by (auto simp: kept_by_creates_def ex_client_def ex_CreateOrUpdate_def split: go.split option.split prod.split)

lemma ex_kept_found:
  assumes "ex_kept w"
  shows "GetAtom (ev_client ex_env) w (''ns'', ''top'') = Inr ex_atom"
    and "GetOwnerInfo (ev_client ex_env) w (at_Namespace ex_atom, sv_OwnerInfoRef (at_Service ex_atom)) = Inr ex_owner"
  using assms by (simp_all add: ex_world_def ex_world_with_def ex_lookup_def ex_keys)

section \<open>Two Atoms\<close>

text \<open>An Atom of another name, with the same labels, and a cluster with its Service.\<close>

definition ex_neighbour :: Atom where
  "ex_neighbour = ex_atom\<lparr>at_ObjectMeta := (at_ObjectMeta ex_atom)\<lparr>om_Name := ''other''\<rparr>\<rparr>"

definition ex_shared_world :: world where
  "ex_shared_world = ex_world\<lparr>wd_objects :=
     [kobj_key (KService (getBareService ex_neighbour)) \<mapsto> KService (getBareService ex_neighbour)]\<rparr>"

lemma ex_neighbour_keys:
  "at_Namespace ex_neighbour = ''ns''" "at_Name ex_neighbour = ''other''" "at_Name ex_atom = ''top''"
  by (simp_all add: ex_neighbour_def ex_atom_def ex_atom_with_def zero_ObjectMeta_def)

lemma ex_neighbour_complete: "atom_complete ex_neighbour"
proof -
  have "at_Spec ex_neighbour = at_Spec ex_atom" by (simp add: ex_neighbour_def)
  then show ?thesis
    using ex_atom_complete by (simp add: atom_complete_def atom_keys_valid_def urls_set_def GetDownloadLinks_def)
qed

lemma ex_shared_service:
  "ex_view ex_shared_world (kobj_key (KService (getBareService ex_neighbour))) =
     Some (KService (getBareService ex_neighbour))"
  by (simp add: ex_view_def ex_shared_world_def)

lemma ex_shared_kept: "ex_kept ex_shared_world"
  by (simp add: ex_shared_world_def)

text \<open>A manager that reconciles the two Atoms by turns, for ever.\<close>

definition ex_pick :: "nat \<Rightarrow> Atom" where
  "ex_pick n = (if even n then ex_atom else ex_neighbour)"

definition ex_fleet_world :: world where
  "ex_fleet_world = ex_world\<lparr>wd_atoms := (wd_atoms ex_world)((''ns'', ''other'') \<mapsto> ex_neighbour)\<rparr>"

primrec ex_run :: "nat \<Rightarrow> world" where
  "ex_run 0 = ex_fleet_world"
| "ex_run (Suc n) = snd (Reconcile ex_env (name_of (ex_pick n)) 0 (ex_run n))"

abbreviation ex_fleet_kept :: "world \<Rightarrow> bool" where
  "ex_fleet_kept w \<equiv> wd_atoms w = wd_atoms ex_fleet_world \<and> wd_owners w = wd_owners ex_world"

lemma ex_fleet_found:
  assumes "ex_fleet_kept w" and "a \<in> {ex_atom, ex_neighbour}"
  shows "GetAtom (ev_client ex_env) w (name_of a) = Inr a"
    and "GetOwnerInfo (ev_client ex_env) w (at_Namespace a, sv_OwnerInfoRef (at_Service a)) = Inr ex_owner"
    and "\<not> ttlExpired a now"
proof -
  have spec: "at_Spec ex_neighbour = at_Spec ex_atom" by (simp add: ex_neighbour_def)
  have alive: "\<not> ttlExpired ex_neighbour now" by (simp add: ttlExpired_def ex_neighbour_def ex_atom_def ex_atom_with_def)
  consider "a = ex_atom" | "a = ex_neighbour" using assms(2) by blast
  then show "GetAtom (ev_client ex_env) w (name_of a) = Inr a"
    "GetOwnerInfo (ev_client ex_env) w (at_Namespace a, sv_OwnerInfoRef (at_Service a)) = Inr ex_owner"
    "\<not> ttlExpired a now"
    using assms(1) alive ex_not_expired [of now]
    by (cases; simp add: ex_fleet_world_def ex_world_def ex_world_with_def ex_lookup_def ex_keys ex_neighbour_keys spec)+
qed

lemma ex_run_kept: "ex_fleet_kept (ex_run n)"
proof (induction n)
  case 0
  then show ?case by (simp add: ex_fleet_world_def)
next
  case (Suc n)
  have "ex_pick n \<in> {ex_atom, ex_neighbour}" by (simp add: ex_pick_def)
  note found = ex_fleet_found [OF Suc this]
  show ?case
    unfolding ex_run.simps
    by (rule Reconcile_alive_preserves [where I = ex_fleet_kept, OF _ Suc found])
      (use ex_creates_keep [of "wd_atoms ex_fleet_world" "wd_owners ex_world"] in simp)
qed

lemma ex_fleet_run:
  "fleet_run ex_env ex_view {ex_atom, ex_neighbour} (\<lambda>a. ex_owner) (\<lambda>n. 0) (\<lambda>n. Some (ex_pick n)) ex_run"
  unfolding fleet_run_def
  using ex_fleet_found [OF ex_run_kept] by (simp add: ex_pick_def)

lemma ex_configMap_name:
  assumes "configMap_mutator ex_env a oi (getBareConfigMap a) = Ret (c, None)"
  shows "\<exists>t. ob_Name c = at_Name a @ generatorSuffix @ t"
proof -
  have "ownership_contract (ev_libs ex_env)" by (simp add: ex_libs_contracts)
  then obtain c2 where "AddHashSuffix ex_libs c2 = (c, None)" "ob_Name c2 = at_Name a @ generatorSuffix"
    using mutateConfigMap_hashed [OF _ assms] by (auto simp: getBareConfigMap_def)
  then show ?thesis by (auto simp: ex_libs_def split: if_splits)
qed

lemma ex_fleet_ready: "fleet_ready ex_env ex_view {ex_atom, ex_neighbour} (\<lambda>a. ex_owner) ex_fleet_world"
proof -
  have "at_Spec ex_neighbour = at_Spec ex_atom" by (simp add: ex_neighbour_def)
  then have neighbour: "ready ex_env ex_view ex_neighbour ex_owner" "owner_supports ex_neighbour ex_owner"
    using ex_neighbour_complete ex_ready ex_owner_supports(2) \<open>at_Spec ex_neighbour = at_Spec ex_atom\<close>
    by (simp_all add: ready_def owner_supports_def metadataTemplates_def)
  have empty: "ex_view ex_fleet_world = Map.empty"
    by (simp add: ex_view_def ex_fleet_world_def ex_world_def ex_world_with_def fun_eq_iff)
  have apart: "ob_Name c \<noteq> ob_Name d"
    if "configMap_mutator ex_env ex_atom oi (getBareConfigMap ex_atom) = Ret (c, None)"
      "configMap_mutator ex_env ex_neighbour oi' (getBareConfigMap ex_neighbour) = Ret (d, None)" for c d oi oi'
    using ex_configMap_name [OF that(1)] ex_configMap_name [OF that(2)] by (auto simp: ex_neighbour_keys)
  then have "configMaps_apart ex_env {ex_atom, ex_neighbour} (\<lambda>a. ex_owner)"
    unfolding configMaps_apart_def by simp metis
  then show ?thesis
    unfolding fleet_ready_def
    using neighbour ex_ready ex_owner_supports(2) ex_consistent
    by (simp add: ex_exact configMap_intact_def claimable_def empty)
qed

section \<open>A converted Atom in its cluster\<close>

definition ex_pdok :: OwnerInfo where
  "ex_pdok = ex_owner\<lparr>oi_Name := ''pdok''\<rparr>"

definition ex_migrated_world :: "Atom \<Rightarrow> world" where
  "ex_migrated_world atom = \<lparr>wd_objects = Map.empty, wd_atoms = [([], ''top'') \<mapsto> atom],
     wd_owners = [([], ''pdok'') \<mapsto> ex_pdok], wd_log = []\<rparr>"

lemma ex_migrated_found:
  "GetAtom (ev_client ex_env) (ex_migrated_world atom) ([], ''top'') = Inr atom"
  "GetOwnerInfo (ev_client ex_env) (ex_migrated_world atom) ([], ''pdok'') = Inr ex_pdok"
  by (simp_all add: ex_lookup_def ex_migrated_world_def)

lemma ex_pdok_templates: "owner_has_templates ex_pdok"
  by (simp add: owner_has_templates_def ex_pdok_def ex_owner_def lacks_url_def ex_metadata_urls_def)

lemma ex_operational: "operational ex_env ex_view ex_pdok"
proof -
  have "renders ex_gen ex_pdok"
    using ex_owner_renders by (simp add: ex_gen_contracts owner_templates_def ex_pdok_def)
  then show ?thesis
    by (simp add: operational_def ex_sound_env ex_libs_contracts ex_obliging ex_gen_contracts(2) owner_complete_def
        ex_pdok_def ex_owner_def)
qed

lemma ex_migrated_intact: "configMap_intact ex_env ex_view atom oi (ex_migrated_world a)"
  by (simp add: configMap_intact_def ex_view_def ex_migrated_world_def)

lemma ex_migrated_claimable: "claimable ex_view atom K (ex_migrated_world a)"
  by (simp add: claimable_def ex_view_def ex_migrated_world_def)

lemma ex_beta_keys: "beta_keys_valid ex_beta"
  by (simp add: beta_keys_valid_def beta_key_valid_def ex_beta_def ex_beta_with_def ex_dataset_def ex_download_def)

lemma ex_migrated_alive:
  assumes "ToV3 V vars now ex_beta dst = (None, atom)"
  shows "\<not> ttlExpired atom 0"
proof -
  have "as_Lifecycle (at_Spec atom) = Some \<lparr>lc_TTLInDays = Some 7\<rparr>" and "at_ObjectMeta atom = bt_ObjectMeta ex_beta"
    using ToV3_ok [OF assms] by (simp_all add: beta_ttl_def ex_beta_def ex_beta_with_def)
  then show ?thesis
    by (simp add: ttlExpired_def ex_beta_def ex_beta_with_def zero_ObjectMeta_def ttl_duration_exact)
qed

end
