(* ===== verification/Spec2Isabelle.thy ===== *)
theory Spec2Isabelle
  imports Examples
begin

text \<open>
  A verification development for the atom-operator, a Kubernetes operator that serves INSPIRE Atom feeds.
  A custom resource (an Atom) describes a download service: its base URL, its dataset feeds, their entries
  and the download links of those, which point into a blob store. The operator admits Atoms through a
  webhook, converts them from an older version of the resource, and keeps for every Atom a ConfigMap with
  the configuration of a feed generator, a Deployment that runs it, a Service, Traefik middlewares, an
  IngressRoute and a PodDisruptionBudget.

  \<^bold>\<open>The program and its model.\<close> The model is a shallow embedding, theory by theory in the order of the calls:

    \<^item> \<open>Prelude\<close>: Go's panics and errors (\<open>go\<close>, \<open>go_error\<close>, \<open>res\<close>), and the functions of package
      \<open>strings\<close> and \<open>strconv\<close> that the source uses. A nil dereference or a slice out of range is the value
      \<open>Panic\<close>; a returned error is an \<open>Inl\<close>.
    \<^item> \<open>NetURL\<close>: Go's \<open>net/url\<close> as far as the source uses it: escaping, \<open>JoinPath\<close> with the cleaning
      of paths, \<open>String\<close>, \<open>Hostname\<close>. \<open>URLParse\<close>: \<open>url.Parse\<close>. \<open>GoTime\<close>: dates, \<open>Time.Format\<close> and
      \<open>time.Parse\<close> with RFC 3339.
    \<^item> \<open>ApiV3\<close>: \<open>api/v3/atom_types.go\<close>, one record per struct, the package variables \<open>baseURL\<close> and
      \<open>blobEndpoint\<close> (\<open>api_vars\<close>), and the methods on download links.
    \<^item> \<open>Kube\<close>: the objects of the cluster, reduced to the fields the code sets; the constants and label
      functions of \<open>internal/controller/atom_controller.go\<close>; the statements that all mutate functions
      share. The locale \<open>object_mutation\<close> is the contract of a mutate function; it is interpreted once per
      kind of object.
    \<^item> \<open>DownloadGroups\<close>, \<open>Middleware\<close>: \<open>internal/controller/middleware.go\<close>. The locale \<open>link_grouping\<close>
      is what the reconciler and the IngressRoute rely on of the groups of download links.
    \<^item> \<open>Workloads\<close>: \<open>deployment.go\<close>, \<open>service.go\<close>, \<open>poddisruptionbudget.go\<close>. \<open>Ingress\<close>: \<open>ingressroute.go\<close>.
    \<^item> \<open>Generator\<close>, \<open>Generator_Props\<close>: \<open>internal/controller/generator/mapper.go\<close>. The locale
      \<open>linked_feeds\<close> is the way feeds and entries refer to each other.
    \<^item> \<open>ConfigMaps\<close>: \<open>atom_generator_configmap.go\<close>.
    \<^item> \<open>Reconcile\<close>: \<open>Reconcile\<close>, \<open>createOrUpdateAllForAtom\<close>, \<open>ttlExpired\<close> and
      \<open>recoveredPanicToError\<close> of \<open>atom_controller.go\<close>, as steps on an abstract state of the cluster.
    \<^item> \<open>Validation\<close>, \<open>Webhook\<close>: \<open>api/v3/atom_validation.go\<close> and \<open>internal/webhook/v3/atom_webhook.go\<close>.
    \<^item> \<open>BetaTypes\<close>, \<open>Conversion\<close>, \<open>Conversion_Props\<close>: \<open>api/v2beta1\<close>, its types and the conversion.
    \<^item> \<open>Memory\<close>, \<open>DeepCopyV3\<close>, \<open>DeepCopyBeta\<close>: the generated deep copies of both versions,
      \<open>zz_generated.deepcopy.go\<close>, statement by statement on a memory with cells, next to the field types of
      the structs. The locale \<open>struct_copier\<close>, interpreted once per type, is what a generated copy promises:
      the same contents in new cells. The other theories treat structs as values, without cells.
    \<^item> \<open>Cluster\<close>, \<open>Referential\<close>, \<open>Success\<close>, \<open>Convergence\<close>: what the reconciler assumes of the cluster,
      and its main properties. \<open>Ownership\<close>: which objects lead the API machinery back to their Atom.
      \<open>System\<close>: users, webhook and manager as one step relation. \<open>Isolation\<close>: a reconcile leaves other Atoms
      alone. \<open>Fleet\<close>: runs in which the manager takes care of several Atoms. \<open>Migration\<close>: a v2beta1 Atom
      from its conversion to its reconcile.
    \<^item> \<open>Downloads\<close>: what the stored IngressRoute and middlewares do to a request for a download.
    \<^item> \<open>Registration\<close>: the versions of the resource with their types (\<open>groupversion_info.go\<close>), what the
      controller watches (\<open>SetupWithManager\<close>), and the webhook (\<open>SetupAtomWebhookWithManager\<close>).
    \<^item> \<open>Startup\<close>: \<open>cmd/main.go\<close> and \<open>config/crd/embeds.go\<close>, with every way in which start-up may end.
    \<^item> \<open>Examples\<close>: a cluster in memory, concrete libraries and Atoms, which the witnesses of the properties
      use. They show that the contracts below can be met together.

  \<^bold>\<open>Parameters.\<close> Code that is not in the repository is a parameter: the Kubernetes client and the status
  functions (\<open>client\<close>), smooth-operator and controller-runtime (\<open>libs\<close>, \<open>validation_libs\<close>,
  \<open>conv_libs\<close>), Mustache, YAML and the texts of bounding boxes (\<open>gen_libs\<close>), the API server's own writes
  (\<open>server\<close>), Traefik's rewriting of paths, the flag parser and the manager (\<open>boot_libs\<close>), the order in
  which Go ranges over a map (\<open>ev_ord\<close>, \<open>ev_ord_ingress\<close>), and the layouts and copies of the structs of
  libraries (\<open>F\<close>, \<open>L\<close>). What is assumed of them has a name each.

    \<^item> Libraries: \<open>labels_contract\<close>; \<open>ownership_contract\<close> (what a call without an error leaves alone, and that it
      is idempotent); \<open>scheme_contract\<close> (the scheme knows the kinds that the code manages);
      \<open>controller_contract\<close> (\<open>SetControllerReference\<close> accepts an object in the namespace of the Atom without another
      controller, \<open>may_control\<close>; it may refuse every other one); \<open>hash_contract\<close>, \<open>hashes\<close>;
      \<open>pointer_contract\<close>; \<open>marshals\<close>; \<open>lib_copies\<close> (a library copies its structs into new cells). \<open>libs_ready\<close>
      collects those that a run needs to complete.
    \<^item> The cluster: \<open>cluster_contract\<close> (a write changes at most the object it is for, to what the mutate function
      returned), \<open>exact_contract\<close> (a write without an error stores just that, and one that changes nothing
      is no error), \<open>obliging\<close> (the server accepts a request, or answers the one for the Deployment
      with the conflict that the code tolerates), \<open>server_contract\<close>. Conflicts are not excluded anywhere:
      \<open>deployment_conflict\<close> says that the request for the Deployment ends in one, and the properties say
      what holds then.
    \<^item> Data: \<open>renders\<close> (the templates of one OwnerInfo are well formed), \<open>configMap_intact\<close>, \<open>consistent\<close>,
      \<open>claimable\<close> (no object that a run may write has another controller).
    \<^item> Traefik: \<open>rewrite_contract\<close> (what the expressions of the download middlewares mean).

  \<^bold>\<open>What is shown.\<close> Below, in sections: reconciling succeeds for admitted Atoms, keeps references between
  objects closed on every path, converges, and stores everything under the control of the Atom, both with the
  exception of a Deployment whose request ended in the tolerated conflict, and reports
  panics as errors; expiry and its overflow; what the webhook admits; the generator configuration; download
  links and routes; the mutate functions; the conversion there and back, and what the
  operator does with a converted Atom; the invariants of all reachable
  states; Atoms side by side, which leave each other alone and come to rest together; the
  generated copies; and the start-up.

  \<^bold>\<open>Bounds.\<close> There is no fuel: every loop of the source runs over a list and is a structural recursion.
  Machine integers are words where they may overflow (the time to live); indices and counts of slices are
  natural numbers.

  \<^bold>\<open>Not modelled.\<close> Logging; the contents of the Status subresource, which only the status library fills (its type
  is there for the copies); what the API machinery does with the descriptions of \<open>Registration\<close>; \<open>Hub\<close>, an
  empty method; and the sample and the helpers of the tests.
\<close>

section \<open>Reconciling an Atom\<close>

text \<open>
  C1. An Atom that the webhook admits on creation, that is complete in the sense of its schema and not
  expired, is reconciled without an error: the checks of the webhook on the OwnerInfo and its templates are
  enough for the translation to the generator configuration and for every mutate function. What the
  operator cannot know is assumed, by name: the templates of this OwnerInfo are well formed
  (\<open>renders\<close>, in \<open>ready\<close>), the server accepts what it is sent, or answers the request for the Deployment with the
  conflict that the code tolerates (\<open>obliging\<close>, in \<open>ready\<close>), objects are stored under their own keys
  (\<open>consistent\<close>), a stored ConfigMap with the hashed name has the contents of that hash
  (\<open>configMap_intact\<close>), and no stored object that the run may write has another controller (\<open>claimable\<close>;
  \<open>SetControllerReference\<close> refuses such an object).
\<close>

theorem admitted_atom_reconciles:
  assumes "admitted (webhook_ValidateCreate V (GetOwnerInfo (ev_client E) w) (AtomObj atom))"
    and "GetAtom (ev_client E) w req = Inr atom"
    and "GetOwnerInfo (ev_client E) w (at_Namespace atom, sv_OwnerInfoRef (at_Service atom)) = Inr oi"
    and "ready E view atom oi" and "consistent view w" and "configMap_intact E view atom oi w"
    and "claimable view atom (run_keys E atom oi) w" and "\<not> ttlExpired atom now"
  shows "fst (Reconcile E req now w) = None"
proof -
  have "owner_supports atom oi"
    using assms(1,3) by (auto simp: admitted_create_iff ValidateCreate_accepts_iff)
  then show ?thesis using Reconcile_succeeds [OF assms(2,3,4) _ assms(8,5,6,7)] by blast
qed

theorem admitted_atom_reconciles_witness:
  "fst (Reconcile ex_env (''ns'', ''top'') 0 ex_world) = None"
proof -
  have found: "GetAtom (ev_client ex_env) ex_world (''ns'', ''top'') = Inr ex_atom"
    "GetOwnerInfo (ev_client ex_env) ex_world (''ns'', ''owner'') = Inr ex_owner"
    using ex_found by (simp_all add: ex_world_def)
  have "feeds_ok ex_atom"
    by (simp add: feeds_ok_def ex_atom_def ex_atom_with_def ex_service_def ex_feed_def feed_ok_def
        entry_ok_def ex_entry_def)
  then have "admitted (webhook_ValidateCreate ex_validation (GetOwnerInfo (ev_client ex_env) ex_world) (AtomObj ex_atom))"
    using found ex_owner_supports
    by (simp add: admitted_create_iff ValidateCreate_accepts_iff ex_keys ex_validation_def)
  from admitted_atom_reconciles [OF this found(1) _ ex_ready ex_consistent] show ?thesis
    using found(2) ex_intact ex_claimable ex_not_expired by (simp add: ex_keys ex_world_def)
qed

text \<open>
  C5. A reconcile keeps references closed: when no stored object refers to one that is not stored, the same
  holds at its end, whether the reconcile succeeded, failed on any of its requests, or panicked on the way: a config map
  is stored before the Deployment that mounts it, and every middleware and the Service before the
  IngressRoute that names them.
\<close>

theorem reconcile_keeps_references_closed:
  assumes "sound_env E view" and "refs_closed view w"
  shows "refs_closed view (snd (Reconcile E req now w))"
  using assms recovering_closed [OF sound_env_parts(1) [OF assms(1)] reconcile_found_closed [OF assms]]
  by (auto simp: Reconcile_def Let_def split: sum.split)

theorem reconcile_keeps_references_closed_witness:
  "refs_closed ex_view (snd (Reconcile ex_env (''ns'', ''top'') 0 ex_world))"
  by (rule reconcile_keeps_references_closed [OF ex_sound_env])
    (simp add: refs_closed_def ex_world_def ex_view_empty)

text \<open>
  C3. Reconciling converges: after a reconcile without an error, when the server stores what it is sent and accepts
  a request that changes nothing (\<open>exact_contract\<close>), the next one on the same Atom and OwnerInfo changes no object but possibly the Deployment, and when the request
  for the Deployment did not end in a conflict, it changes no object at all and returns no error. The
  conflict has to be told apart: the code tolerates it, so that a reconcile may return no error and yet
  leave the Deployment for the next one to write.
\<close>

theorem reconcile_converges:
  assumes "exact_contract (ev_client E) view" and "sound_env E view"
    and "GetAtom (ev_client E) w req = Inr atom"
    and "GetOwnerInfo (ev_client E) w (at_Namespace atom, sv_OwnerInfoRef (at_Service atom)) = Inr oi"
    and "\<not> ttlExpired atom now" and "Reconcile E req now w = (None, w')"
    and "GetAtom (ev_client E) w2 req = Inr atom"
    and "GetOwnerInfo (ev_client E) w2 (at_Namespace atom, sv_OwnerInfoRef (at_Service atom)) = Inr oi"
    and "\<not> ttlExpired atom now2" and "view w2 = view w'"
  shows "(\<forall>k. k \<noteq> kobj_key (KDeployment (getBareDeployment atom)) \<longrightarrow>
      view (snd (Reconcile E req now2 w2)) k = view w2 k) \<and>
    (\<not> deployment_conflict E atom oi w \<longrightarrow> (\<exists>w3. Reconcile E req now2 w2 = (None, w3) \<and> view w3 = view w2))"
proof -
  obtain c G where cG: "configMap_mutator E atom oi (getBareConfigMap atom) = Ret (c, None)"
      "getDownloadLinkGroups (GetDownloadLinks atom) = Ret G" and others: "all_settled view (plan_others E atom oi c G) w'"
      and deployment: "\<not> deployment_conflict E atom oi w \<Longrightarrow> settled view (plan_deployment E atom c) w'"
    by (rule Reconcile_settles [OF assms(1-6)]) blast
  have others2: "all_settled view (plan_others E atom oi c G) w2"
    using others by (simp add: all_settled_same [OF assms(10)])
  have "\<exists>w3. Reconcile E req now2 w2 = (None, w3) \<and> view w3 = view w2" if "\<not> deployment_conflict E atom oi w"
  proof (rule Reconcile_calm [OF assms(1,2) cG _ assms(7-9)])
    show "all_settled view (plan E atom oi c G) w2"
      using deployment [OF that] others2 by (simp add: all_settled_plan settled_def assms(10))
  qed
  then show ?thesis
    using Reconcile_quiet [OF assms(1,2) cG others2 assms(7,8)] by blast
qed

theorem reconcile_converges_witness:
  "\<exists>w' w3. Reconcile ex_env (''ns'', ''top'') 0 ex_world = (None, w') \<and>
     Reconcile ex_env (''ns'', ''top'') 5 (ex_world\<lparr>wd_objects := wd_objects w'\<rparr>) = (None, w3) \<and>
     ex_view w3 = ex_view w'"
proof -
  have found: "GetAtom (ev_client ex_env) (ex_world\<lparr>wd_objects := m\<rparr>) (''ns'', ''top'') = Inr ex_atom"
    "GetOwnerInfo (ev_client ex_env) (ex_world\<lparr>wd_objects := m\<rparr>)
      (at_Namespace ex_atom, sv_OwnerInfoRef (at_Service ex_atom)) = Inr ex_owner" for m
    by (simp_all add: ex_world_def ex_world_with_def ex_lookup_def ex_keys)
  have same: "ex_world\<lparr>wd_objects := wd_objects ex_world\<rparr> = ex_world" by simp
  obtain rs w0 where "createOrUpdateAllForAtom ex_env ex_atom ex_owner (Map.empty, ex_world) = (ok (), (rs, w0))"
    using reconcile_found_completes [OF ex_ready ex_owner_supports(2) ex_not_expired ex_consistent ex_intact ex_claimable]
    unfolding ex_world_def by blast
  then obtain w' where run: "Reconcile ex_env (''ns'', ''top'') 0 ex_world = (None, w')"
    using found [of "wd_objects ex_world", unfolded same] ex_not_expired
    by (simp add: Reconcile_def Let_def reconcile_found_def recovering_def)
  have view: "ex_view (ex_world\<lparr>wd_objects := wd_objects w'\<rparr>) = ex_view w'"
    by (simp add: ex_view_def fun_eq_iff)
  have "exact_contract (ev_client ex_env) ex_view" by (simp add: ex_exact)
  from reconcile_converges [OF this ex_sound_env found [of "wd_objects ex_world", unfolded same]
      ex_not_expired run found ex_not_expired view, of 5, THEN conjunct2, THEN mp, OF ex_no_conflict]
  show ?thesis using run view by metis
qed

text \<open>
  C6. After a reconcile without an error every object of the Atom, with its ConfigMap, and with its Deployment
  unless the request for it ended in the conflict that the code tolerates, is
  stored with the Atom as its controller, and is of a type that the controller owns: a change of the object
  leads the API machinery back to the Atom, and its deletion, which is all that \<open>Reconcile\<close> does with an
  expired Atom, takes the object along.
\<close>

theorem stored_objects_lead_back:
  assumes "exact_contract (ev_client E) view" and "sound_env E view"
    and "GetAtom (ev_client E) w req = Inr atom"
    and "GetOwnerInfo (ev_client E) w (at_Namespace atom, sv_OwnerInfoRef (at_Service atom)) = Inr oi"
    and "\<not> ttlExpired atom now" and "Reconcile E req now w = (None, w')"
  shows "\<exists>c. mutateAtomGeneratorConfigMap (ev_libs E) (ev_gen E) (ev_vars E) atom oi (getBareConfigMap atom) = Ret (c, None) \<and>
    (\<forall>k \<in> insert (kobj_key (KConfigMap c)) (object_keys atom) \<union>
          (if deployment_conflict E atom oi w then {} else {kobj_key (KDeployment (getBareDeployment atom))}).
       \<exists>s. view w' k = Some s \<and>
         SetControllerReference (ev_libs E) atom (kobj_meta s) = (kobj_meta s, None) \<and>
         go_type s \<in> fst ` set (cb_Owns atom_controller))"
proof -
  obtain c where c: "mutateAtomGeneratorConfigMap (ev_libs E) (ev_gen E) (ev_vars E) atom oi (getBareConfigMap atom) = Ret (c, None)"
    and own: "\<And>k. k \<in> insert (kobj_key (KConfigMap c)) (object_keys atom) \<Longrightarrow>
      \<exists>s. view w' k = Some s \<and> leads_back (ev_libs E) atom s"
    and deployment: "\<not> deployment_conflict E atom oi w \<Longrightarrow>
      \<exists>s. view w' (kobj_key (KDeployment (getBareDeployment atom))) = Some s \<and> leads_back (ev_libs E) atom s"
    by (rule Reconcile_leads_back [OF assms]) blast
  have "\<exists>s. view w' k = Some s \<and> leads_back (ev_libs E) atom s"
    if "k \<in> insert (kobj_key (KConfigMap c)) (object_keys atom) \<union>
      (if deployment_conflict E atom oi w then {} else {kobj_key (KDeployment (getBareDeployment atom))})" for k
  proof (cases "k \<in> insert (kobj_key (KConfigMap c)) (object_keys atom)")
    case False
    then have "\<not> deployment_conflict E atom oi w" "k = kobj_key (KDeployment (getBareDeployment atom))"
      using that by (auto split: if_splits)
    then show ?thesis using deployment by blast
  qed (rule own)
  then show ?thesis using c unfolding leads_back_def controlled_by_def watched_type_def by blast
qed

theorem stored_objects_lead_back_witness:
  "\<exists>w' s. Reconcile ex_env (''ns'', ''top'') 0 ex_world = (None, w') \<and>
     ex_view w' (kobj_key (KDeployment (getBareDeployment ex_atom))) = Some s \<and>
     map or_Name (om_OwnerReferences (kobj_meta s)) = [''top'']"
proof -
  obtain w' where run: "Reconcile ex_env (''ns'', ''top'') 0 ex_world = (None, w')"
    using ex_reconciles by blast
  have "exact_contract (ev_client ex_env) ex_view" by (simp add: ex_exact)
  from stored_objects_lead_back [OF this ex_sound_env ex_kept_found [of ex_world] ex_not_expired run]
  have "\<exists>s. ex_view w' (kobj_key (KDeployment (getBareDeployment ex_atom))) = Some s \<and>
      SetControllerReference ex_libs ex_atom (kobj_meta s) = (kobj_meta s, None)"
    by (simp add: ex_no_conflict del: kobj_key.simps) blast
  then obtain s where s: "ex_view w' (kobj_key (KDeployment (getBareDeployment ex_atom))) = Some s"
    "SetControllerReference ex_libs ex_atom (kobj_meta s) = (kobj_meta s, None)"
    by blast
  have "may_control ex_atom (kobj_meta s)" and
    "om_OwnerReferences (kobj_meta s) =
      om_OwnerReferences (fst (SetControllerReference ex_libs ex_atom (kobj_meta s)))"
    using s(2) by (simp_all add: ex_libs_def split: if_splits)
  then have owner: "map or_Name (om_OwnerReferences (kobj_meta s)) = [''top'']"
    by (simp add: ex_libs_def ex_neighbour_keys(3))
  show ?thesis by (intro exI conjI) (rule run, rule s(1), rule owner)
qed

text \<open>
  C12. A panic anywhere below the \<open>defer\<close> does not leave \<open>Reconcile\<close>: it comes back as an error with the
  text of the panic (its error value, or its string, or \<open>unknown panic\<close>), and the status of the Atom
  reports it, in the cluster as the panic left it.
\<close>

theorem panic_becomes_error:
  assumes "GetAtom (ev_client E) w req = Inr atom"
    and "GetOwnerInfo (ev_client E) w (at_Namespace atom, sv_OwnerInfoRef (at_Service atom)) = Inr oi"
    and "\<not> ttlExpired atom now"
    and "createOrUpdateAllForAtom E atom oi (Map.empty, w) = (Panic p, (rs, w'))"
  shows "Reconcile E req now w =
    (let err = ErrStack (case p of PanicString x \<Rightarrow> ErrNew x | PanicError e \<Rightarrow> e
                         | PanicOther \<Rightarrow> ErrNew ''unknown panic'')
     in (Some err, LogAndUpdateStatusError (ev_client E) atom err w'))"
  using assms by (simp add: Reconcile_def reconcile_found_def recovering_def recoveredPanicToError_def Let_def)

theorem panic_becomes_error_witness:
  "Reconcile ex_env (''ns'', ''top'') 0 (ex_world_with ex_atom_no_url) =
     (Some (ErrStack (ErrRuntime ''invalid memory address or nil pointer dereference'')),
      (ex_world_with ex_atom_no_url)\<lparr>wd_log := [''error'']\<rparr>)"
proof -
  let ?w = "ex_world_with ex_atom_no_url"
  have found: "GetAtom (ev_client ex_env) ?w (''ns'', ''top'') = Inr ex_atom_no_url"
    "GetOwnerInfo (ev_client ex_env) ?w (at_Namespace ex_atom_no_url, sv_OwnerInfoRef (at_Service ex_atom_no_url))
      = Inr ex_owner"
    by (simp_all add: ex_lookup_def ex_world_with_def ex_atom_no_url_def ex_atom_with_def zero_ObjectMeta_def
        ex_service_def)
  have live: "\<not> ttlExpired ex_atom_no_url 0"
    by (simp add: ttlExpired_def ex_atom_no_url_def ex_atom_with_def)
  show ?thesis
    using panic_becomes_error [OF found live ex_no_url_panics [of _ ?w]]
    by (simp add: ex_world_with_def)
qed

text \<open>
  C21. An unexpired Atom without a translation to a generator configuration is left alone: the error or the panic of
  the translation is returned and reported in the status of the Atom, and no object is created, updated
  or deleted before that.
\<close>

theorem untranslatable_changes_no_object:
  assumes "GetAtom (ev_client E) w req = Inr atom"
    and "GetOwnerInfo (ev_client E) w (at_Namespace atom, sv_OwnerInfoRef (at_Service atom)) = Inr oi"
    and "\<not> ttlExpired atom now"
    and "\<And>feeds. MapAtomV3ToAtomGeneratorConfig (ev_gen E) (ev_vars E) atom oi \<noteq> ok feeds"
  shows "\<exists>err. Reconcile E req now w = (Some err, LogAndUpdateStatusError (ev_client E) atom err w)"
  using mutateConfigMap_untranslatable [OF assms(4), of "ev_libs E"] assms(1-3)
  by (auto simp: Reconcile_def reconcile_found_def recovering_def createOrUpdateAllForAtom_def apply_configMap_def
      step_bind_def step_lift_def Let_def)

theorem untranslatable_changes_no_object_witness:
  "\<exists>err. Reconcile ex_env (''ns'', ''top'') 0 (ex_world_with ex_atom_no_url) =
     (Some err, (ex_world_with ex_atom_no_url)\<lparr>wd_log := [''error'']\<rparr>)"
proof -
  let ?w = "ex_world_with ex_atom_no_url"
  have found: "GetAtom (ev_client ex_env) ?w (''ns'', ''top'') = Inr ex_atom_no_url"
    "GetOwnerInfo (ev_client ex_env) ?w (at_Namespace ex_atom_no_url, sv_OwnerInfoRef (at_Service ex_atom_no_url))
      = Inr ex_owner"
    by (simp_all add: ex_lookup_def ex_world_with_def ex_atom_no_url_def ex_atom_with_def zero_ObjectMeta_def
        ex_service_def)
  have live: "\<not> ttlExpired ex_atom_no_url 0"
    by (simp add: ttlExpired_def ex_atom_no_url_def ex_atom_with_def)
  show ?thesis
    using untranslatable_changes_no_object [OF found live] by (simp add: ex_no_url_translation ex_world_with_def)
qed

section \<open>Expiry\<close>

text \<open>
  C19. An expired Atom whose OwnerInfo is there is deleted, and nothing else is done: no object is created or
  updated, and no status is written. When the OwnerInfo is not found, or cannot be fetched, \<open>Reconcile\<close>
  returns before it looks at the time to live: the Atom and all of the cluster stay as they are, however
  long it is expired.
\<close>

theorem expired_atom_only_deleted:
  assumes "GetAtom (ev_client E) w req = Inr atom" and "ttlExpired atom now"
  shows "Reconcile E req now w =
    (case GetOwnerInfo (ev_client E) w (at_Namespace atom, sv_OwnerInfoRef (at_Service atom)) of
       Inl err \<Rightarrow> (IgnoreNotFound (ev_client E) (Some err), w)
     | Inr oi \<Rightarrow> DeleteAtom (ev_client E) atom w)"
  using assms by (simp add: Reconcile_def reconcile_found_def recovering_def Let_def split: prod.split sum.split)

theorem expired_atom_only_deleted_witness:
  "wd_atoms (snd (Reconcile ex_env (''ns'', ''top'') 86400000000001 (ex_world_with (ex_mortal 1))))
     (''ns'', ''top'') = None"
proof -
  let ?w = "ex_world_with (ex_mortal 1)"
  have found: "GetAtom (ev_client ex_env) ?w (''ns'', ''top'') = Inr (ex_mortal 1)"
    "GetOwnerInfo (ev_client ex_env) ?w (at_Namespace (ex_mortal 1), sv_OwnerInfoRef (at_Service (ex_mortal 1)))
      = Inr ex_owner"
    by (simp_all add: ex_lookup_def ex_world_with_def ex_mortal_def ex_atom_with_def zero_ObjectMeta_def ex_service_def)
  have "ttlExpired (ex_mortal 1) 86400000000001"
    by (simp add: ttlExpired_def ex_mortal_def ex_atom_with_def zero_ObjectMeta_def ttl_duration_exact)
  from expired_atom_only_deleted [OF found(1) this, unfolded found(2)] show ?thesis
    by (simp add: ex_mortal_def ex_atom_with_def zero_ObjectMeta_def)
qed

text \<open>
  C20. A time to live of at most 106751 days (some 292 years, and as much below zero) is counted
  exactly: the Atom is expired when the present is later than its creation plus that many days of 86400
  seconds. The next count of days overflows the 64-bit duration: an Atom that asks for 106752 days is
  expired from the moment it is created.
\<close>

theorem ttl_counts_days:
  assumes "as_Lifecycle (at_Spec atom) = Some lc" and "lc_TTLInDays lc = Some days"
  shows "(\<bar>sint days\<bar> \<le> 106751 \<longrightarrow> (ttlExpired atom now \<longleftrightarrow>
      om_CreationTimestamp (at_ObjectMeta atom) + sint days * (86400 * 1000000000) < now)) \<and>
    (days = 106752 \<longrightarrow> om_CreationTimestamp (at_ObjectMeta atom) \<le> now \<longrightarrow> ttlExpired atom now)"
  using assms by (simp add: ttlExpired_def ttl_duration_exact ttl_duration_wraps)

theorem ttl_counts_days_witness:
  "ttlExpired (ex_mortal 7) 604800000000001 \<and> \<not> ttlExpired (ex_mortal 7) 604800000000000 \<and>
     ttlExpired (ex_mortal 106752) 0"
  using ttl_counts_days [of "ex_mortal 7" "\<lparr>lc_TTLInDays = Some 7\<rparr>" 7]
    ttl_counts_days [of "ex_mortal 106752" "\<lparr>lc_TTLInDays = Some 106752\<rparr>" 106752]
  by (simp add: ex_mortal_def ex_atom_with_def zero_ObjectMeta_def)

section \<open>Admission\<close>

text \<open>
  C13. The webhook admits the creation of an Atom exactly when the object is an Atom, its labels pass,
  its dataset feeds and entries have distinct names, identifiers and the fields that others require,
  the ingress URLs contain the base URL, and the OwnerInfo exists and has what the templates need.
\<close>

theorem create_admitted_iff:
  "admitted (webhook_ValidateCreate V c obj) \<longleftrightarrow>
     (\<exists>atom oi. obj = AtomObj atom \<and> ValidateLabelsOnCreate V (at_Labels atom) = None \<and> feeds_ok atom \<and>
        ValidateIngressRouteURLsContainsBaseURL V (as_IngressRouteURLs (at_Spec atom))
          (sv_BaseURL (at_Service atom)) = None \<and>
        c (at_Namespace atom, sv_OwnerInfoRef (at_Service atom)) = Inr oi \<and> owner_supports atom oi)"
  unfolding admitted_create_iff ValidateCreate_accepts_iff by blast

text \<open>
  C14. An admitted update leaves an Atom that passes the same checks of feeds, URLs and OwnerInfo as
  an admitted creation: no sequence of admitted requests leads out of them.
\<close>

theorem update_keeps_checks:
  assumes "webhook_ValidateUpdate V c (AtomObj old) (AtomObj atom) = Ret r" and "admitted r"
  shows "feeds_ok atom \<and>
    ValidateIngressRouteURLsContainsBaseURL V (as_IngressRouteURLs (at_Spec atom)) (sv_BaseURL (at_Service atom)) = None \<and>
    (\<exists>oi. c (at_Namespace atom, sv_OwnerInfoRef (at_Service atom)) = Inr oi \<and> owner_supports atom oi)"
proof -
  obtain ws where "ValidateUpdate V c atom old = Ret (ws, None)"
    using assms by (auto simp: webhook_ValidateUpdate_def go_bind_eq_Ret admitted_def answer_def)
  from ValidateUpdate_accepts [OF this] show ?thesis by blast
qed

theorem update_keeps_checks_witness: "feeds_ok ex_atom"
proof -
  let ?c = "GetOwnerInfo (ev_client ex_env) ex_world"
  have "ValidateOwnerInfo ?c ex_atom [] = []"
    using ex_found(2) [of ex_atom] ex_owner_supports by (simp add: ValidateOwnerInfo_nil_iff ex_keys ex_world_def)
  moreover have "validateDatasetFeeds ex_validation ex_atom [] = []"
    by (simp add: validateDatasetFeeds_nil_iff feeds_ok_def ex_atom_def ex_atom_with_def ex_service_def
        ex_feed_def feed_ok_def entry_ok_def ex_entry_def)
  ultimately have "webhook_ValidateUpdate ex_validation ?c (AtomObj ex_atom) (AtomObj ex_atom) = Ret ([], None)"
    by (simp add: webhook_ValidateUpdate_def ValidateUpdate_def validateUpdate_def check_base_url_def
        ValidateAtom_def validate_owner_opt_def invalid_unless_empty_def answer_def ex_validation_def
        ex_atom_def ex_atom_with_def zero_ObjectMeta_def str_Contains_iff sublist_code)
  from update_keeps_checks [OF this] show ?thesis by (simp add: admitted_def)
qed

text \<open>
  C39. The errors of the loop over the entries of a feed are those of the single entries, each checked
  against the names before it; but the field path of an entry is not its own: it runs through all the
  entries before it, since the loop assigns to the path it extends.
\<close>

theorem entry_errors_by_entry:
  "entry_loop V p 0 [] es errs = errs @ concat (map (\<lambda>j.
     entry_checks V (foldl (\<lambda>q k. Index (Child q ''entries'') k) p [0..<Suc j])
       (map en_TechnicalName (take j es)) (es ! j)) [0..<length es])"
  using entry_loop_reference [of V p 0 "[]" es errs] by (simp add: entry_path_def)

section \<open>The generator configuration\<close>

text \<open>
  C10. The feeds lead to each other: the configuration has one feed for the service and one per dataset
  feed of the Atom, and the i-th entry of the service feed has an alternate link to the identifier of
  the i-th dataset feed, which has an up link back to the identifier of the service feed.
\<close>

theorem feeds_lead_to_each_other:
  assumes "MapAtomV3ToAtomGeneratorConfig G v atom oi = ok fs"
  shows "length (fs_Feeds fs) = Suc (length (at_DatasetFeeds atom)) \<and>
    (\<forall>i < length (at_DatasetFeeds atom).
       \<exists>down\<in>set (fe_Link (fd_Entry (hd (fs_Feeds fs)) ! i)).
         fl_Rel down = ''alternate'' \<and> fl_Href down = fd_ID (fs_Feeds fs ! Suc i) \<and>
         (\<exists>up\<in>set (fd_Link (fs_Feeds fs ! Suc i)).
            fl_Rel up = ''up'' \<and> fl_Href up = fd_ID (hd (fs_Feeds fs))))"
  using feeds.number [OF assms] feeds.there_and_back [OF assms] by blast

theorem feeds_lead_to_each_other_witness:
  "\<exists>fs. MapAtomV3ToAtomGeneratorConfig ex_gen ex_vars ex_atom ex_owner = ok fs \<and> length (fs_Feeds fs) = 2"
proof -
  obtain fs where fs: "MapAtomV3ToAtomGeneratorConfig ex_gen ex_vars ex_atom ex_owner = ok fs"
    using MapAtom_succeeds [OF ex_atom_complete ex_owner_supports ex_owner_renders]
    unfolding succeeds_def by blast
  from feeds_lead_to_each_other [OF this] have "length (fs_Feeds fs) = 2"
    by (simp add: ex_atom_def ex_atom_with_def ex_service_def)
  with fs show ?thesis by blast
qed

text \<open>
  C11. The translation fails only for reasons outside of the operator: with a complete Atom, and an
  OwnerInfo that has what the templates of the Atom need and whose own templates, at most three, Mustache
  renders for every identifier, it neither returns an error nor panics.
\<close>

theorem translation_total:
  assumes "atom_complete atom" and "owner_complete oi" and "owner_supports atom oi" and "renders G oi"
  shows "\<exists>fs. MapAtomV3ToAtomGeneratorConfig G v atom oi = ok fs"
  using MapAtom_succeeds [OF assms] by (simp add: succeeds_def)

theorem translation_total_witness:
  "\<exists>fs. MapAtomV3ToAtomGeneratorConfig ex_gen ex_vars ex_atom ex_owner = ok fs"
  by (rule translation_total [OF ex_atom_complete ex_owner_supports ex_owner_renders])

text \<open>
  C30. The loop that adds metadata links equals its reference: one link for every template it knows,
  in the order of the templates, behind the links that were there; with \<open>onlyCSW\<close> the templates after
  the first \<open>csw\<close> are not looked at. The first link that cannot be made ends the loop.
\<close>

theorem metadata_links_reference:
  "metadata_loop G ident oi htmlTitle onlyCSW templates links =
     res_bind (res_map (metadata_link G ident oi htmlTitle)
       (filter known_template (until_csw onlyCSW templates))) (\<lambda>ls. ok (links @ ls))"
  by (rule metadata_loop_reference)

text \<open>
  C29. Every download link of an entry becomes one link of the feed entry, in order: its own relation,
  or \<open>section\<close> when several links of the entry have none and \<open>alternate\<close> when it is the only one; the
  public address under \<open>downloads\<close> of the base URL; and the address at the blob store with the whole key.
\<close>

theorem download_links_of_entry:
  assumes "datasetEntry G v atom f e = ok fe" and "sv_BaseURL (at_Service atom) = Some u"
    and "list_all has_blob_key (en_DownloadLinks e)"
  shows "map (\<lambda>l. (fl_Rel l, fl_Href l, fl_Data l)) (fe_Link fe) =
    map (\<lambda>dl. (if \<not> empty_rel dl then the (dl_Rel dl)
                else if length (filter empty_rel (en_DownloadLinks e)) > 1 then ''section'' else ''alternate'',
                url_String (JoinPath u [''downloads'', blob_name dl]),
                Some (GetBlobEndpoint v @ ''/'' @ dl_Data dl))) (en_DownloadLinks e)"
proof -
  note entry = datasetEntry_ok [OF assms]
  have len: "length (fe_Link fe) = length (en_DownloadLinks e)"
    using arg_cong [OF entry(2), of length] by simp
  have "fl_Rel (fe_Link fe ! i) = chosen_rel e (en_DownloadLinks e ! i)"
    "fl_Href (fe_Link fe ! i) = url_String (JoinPath u [''downloads'', blob_name (en_DownloadLinks e ! i)])"
    "fl_Data (fe_Link fe ! i) = Some (GetBlobEndpoint v @ ''/'' @ dl_Data (en_DownloadLinks e ! i))"
    if "i < length (en_DownloadLinks e)" for i
    using that len arg_cong [OF entry(2), of "\<lambda>xs. xs ! i"] arg_cong [OF entry(3), of "\<lambda>xs. xs ! i"]
      arg_cong [OF entry(4), of "\<lambda>xs. xs ! i"] by simp_all
  then show ?thesis
    by (intro nth_equalityI) (simp_all add: len chosen_rel_def)
qed

theorem download_links_of_entry_witness:
  "\<exists>fe. datasetEntry ex_gen ex_vars ex_atom ex_feed ex_entry = ok fe \<and>
     map fl_Rel (fe_Link fe) = [''section'', ''section'']"
proof -
  have "succeeds (getDatasetEntries ex_gen ex_vars ex_atom ex_feed)"
    by (rule getDatasetEntries_succeeds [OF ex_atom_complete]) (simp add: ex_atom_def ex_atom_with_def ex_service_def)
  then obtain fe where fe: "datasetEntry ex_gen ex_vars ex_atom ex_feed ex_entry = ok fe"
    by (auto simp: succeeds_def getDatasetEntries_def ex_feed_def res_bind_eq_ok)
  have u: "sv_BaseURL (at_Service ex_atom) = Some ex_url"
    and keys: "list_all has_blob_key (en_DownloadLinks ex_entry)"
    by (simp_all add: ex_atom_def ex_atom_with_def ex_service_def ex_entry_def ex_link_def has_blob_key_def)
  have rels: "map fst (map (\<lambda>dl. (if \<not> empty_rel dl then the (dl_Rel dl)
      else if length (filter empty_rel (en_DownloadLinks ex_entry)) > 1 then ''section'' else ''alternate'',
      h dl, k dl)) (en_DownloadLinks ex_entry)) = [''section'', ''section'']"
    for h :: "DownloadLink \<Rightarrow> string" and k :: "DownloadLink \<Rightarrow> string option"
    by (simp add: ex_entry_def ex_link_def empty_rel_def comp_def)
  have "map fl_Rel (fe_Link fe) = map fst (map (\<lambda>l. (fl_Rel l, fl_Href l, fl_Data l)) (fe_Link fe))"
    by simp
  also have "\<dots> = [''section'', ''section'']"
    unfolding download_links_of_entry [OF fe u keys] by (rule rels)
  finally show ?thesis using fe by (intro exI [of _ fe] conjI)
qed

text \<open>
  C40. Escaping quotes loses nothing, as there is a function that gets the text back, and no quote of an
  escaped text stands without a backslash before it.
\<close>

theorem escapeQuotes_guards_quotes:
  "unescapeQuotes (escapeQuotes s) = s \<and>
   (i < length (escapeQuotes s) \<and> escapeQuotes s ! i = CHR 0x22 \<longrightarrow> i > 0 \<and> escapeQuotes s ! (i - 1) = CHR 0x5C)"
  using unescapeQuotes_escapeQuotes escapeQuotes_quotes by blast

theorem escapeQuotes_guards_quotes_witness:
  "(1::nat) > 0 \<and> escapeQuotes [CHR 0x22] ! (1 - 1) = CHR 0x5C"
proof -
  have "escapeQuotes [CHR 0x22] = [CHR 0x5C, CHR 0x22]"
    by (simp add: escapeQuotes_def str_ReplaceByte_simps)
  with escapeQuotes_guards_quotes [of "[CHR 0x22]" 1] show ?thesis by simp
qed

section \<open>Download links and routes\<close>

text \<open>
  C17. The grouping of download links equals its reference: one group per distinct blob prefix, in the
  order of first appearance, numbered from 0, with the blob names of that prefix in order. A key without
  a slash makes it panic with a slice out of range.
\<close>

theorem grouping_reference:
  "getDownloadLinkGroups links =
     (if list_all has_blob_key links then Ret (groups_of links) else Panic out_of_range)"
  by (rule getDownloadLinkGroups_cases)

text \<open>
  C16. The IngressRoute does not depend on the order in which Go happens to range over the groups: two
  runs of the mutate function on the same input give the same object.
\<close>

theorem ingress_independent_of_order:
  assumes "iteration_order ord1" and "iteration_order ord2"
  shows "mutateIngressRoute ord1 L atom i = mutateIngressRoute ord2 L atom i"
  using ingress_routes_order [OF assms] by (simp add: mutateIngressRoute_def)

theorem ingress_independent_of_order_witness:
  "mutateIngressRoute rev ex_libs ex_atom (getBareIngressRoute ex_atom) =
     mutateIngressRoute (\<lambda>G. G) ex_libs ex_atom (getBareIngressRoute ex_atom)"
  by (rule ingress_independent_of_order) (simp_all add: iteration_order_def)

text \<open>
  C27. The download middlewares that a route names are exactly the ones the reconciler creates, one per
  group, sorted by name.
\<close>

theorem route_names_created_middlewares:
  assumes "iteration_order ord" and "list_all has_blob_key (GetDownloadLinks atom)"
  shows "downloadMiddlewareRefs ord atom =
    Ret (sort (map (\<lambda>i. ob_Name (getBareDownloadLinkMiddleware atom i))
      [0..<length (groups_of (GetDownloadLinks atom))]))"
proof -
  have valid: "atom_keys_valid atom" using assms(2) by (simp add: atom_keys_valid_def)
  note G = getDownloadLinkGroups_eq [OF assms(2)]
  show ?thesis
    unfolding downloadMiddlewareRefs_eq [OF assms(1) valid G] group_names_indices [OF valid G] ..
qed

theorem route_names_created_middlewares_witness:
  "downloadMiddlewareRefs rev ex_atom =
     Ret (sort (map (\<lambda>i. ob_Name (getBareDownloadLinkMiddleware ex_atom i))
       [0..<length (groups_of (GetDownloadLinks ex_atom))]))"
  by (rule route_names_created_middlewares)
    (use ex_atom_complete in \<open>simp_all add: iteration_order_def atom_complete_def atom_keys_valid_def\<close>)

text \<open>
  C28. No request path is claimed by two feed routes of one URL, when the path of the URL consists of plain
  segments and the names of the feeds are plain, distinct (the webhook checks that) and not \<open>index\<close>, the name the service feed is served under
  (nothing checks that).
\<close>

theorem feed_routes_disjoint:
  assumes "plain_url u segs" and "list_all (\<lambda>f. plain_name (df_TechnicalName f)) (at_DatasetFeeds atom)"
    and "distinct (map df_TechnicalName (at_DatasetFeeds atom))"
    and "''index'' \<notin> set (map df_TechnicalName (at_DatasetFeeds atom))"
    and "getRoutesForURL L atom (Some u) ms = Ret rs"
  shows "distinct (map rt_Match (butlast rs)) \<and> length rs = length (at_DatasetFeeds atom) + 2"
proof
  show "distinct (map rt_Match (butlast rs))" by (rule feed_routes_distinct [OF assms])
  show "length rs = length (at_DatasetFeeds atom) + 2"
    using assms(5) by (auto simp: getRoutesForURL_def go_simps)
qed

theorem feed_routes_disjoint_witness:
  "\<exists>rs. getRoutesForURL ex_libs ex_atom (Some ex_url) [] = Ret rs \<and> distinct (map rt_Match (butlast rs)) \<and>
     length rs = 3"
proof -
  have feeds: "map df_TechnicalName (at_DatasetFeeds ex_atom) = [''d'']"
    "list_all (\<lambda>f. plain_name (df_TechnicalName f)) (at_DatasetFeeds ex_atom)"
    by (simp_all add: ex_atom_def ex_atom_with_def ex_service_def ex_feed_def plain_name_def shouldEscape_def
        alphanum_def less_eq_char_def)
  obtain rs where rs: "getRoutesForURL ex_libs ex_atom (Some ex_url) [] = Ret rs"
    by (simp add: getRoutesForURL_def go_simps)
  show ?thesis
    using feed_routes_disjoint [OF ex_plain feeds(2) _ _ rs] rs feeds(1) arg_cong [OF feeds(1), of length] by auto
qed

text \<open>
  C8. A request for the public address of a download link gets to the blob of the link. Let the address be
  \<open>downloads/\<close> and the name of the blob behind a URL of the Atom; behind the base URL it is what the feed
  publishes. After a reconcile without an error, the stored IngressRoute has a route whose rule asks for
  the host of the address and for a prefix of its path, and the stored middlewares that the route names, each
  rewriting the path by its regular expression, turn the path of the address into
  the key of the link in the blob store. The URL must have a path of one or more plain segments (without a path, the rule
  lacks the leading slash that the address has), the names must be plain, the directory \<open>downloads\<close> must
  occur in the address only once and not in the key, and no file of another group may shadow the name.
\<close>

theorem download_request_reaches_blob:
  assumes "rewrite_contract T" and "exact_contract (ev_client E) view" and "sound_env E view"
    and "GetAtom (ev_client E) w req = Inr atom"
    and "GetOwnerInfo (ev_client E) w (at_Namespace atom, sv_OwnerInfoRef (at_Service atom)) = Inr oi"
    and "\<not> ttlExpired atom now" and "Reconcile E req now w = (None, w')"
    and "plain_downloads atom" and "l \<in> set (GetDownloadLinks atom)" and "unshadowed atom l"
    and "i \<in> set (route_urls atom)" and "iru_URL i = Some u"
    and "plain_url u segs" and "plain_segment (blob_name l)"
    and "\<not> sublist ''/downloads/'' (url_Path u @ ''/'')" and "\<not> sublist ''/downloads/'' (''/'' @ dl_Data l)"
  shows "\<exists>ingress route rule address.
    view w' (IngressRouteKind, at_Namespace atom, at_Name atom @ nameSuffix) = Some (KIngressRoute ingress) \<and>
    route \<in> set (ir_Routes (ob_Spec ingress)) \<and>
    rt_Match route = getMatchRule rule True \<and> address = JoinPath u [''downloads'', blob_name l] \<and>
    (iru_URL i = sv_BaseURL (at_Service atom) \<longrightarrow> getDownloadLinkHref l atom = ok (url_String address)) \<and>
    Hostname rule = Hostname address \<and> prefix (url_Path rule) (url_Path address) \<and>
    EscapedPath address = url_Path address \<and>
    foldl (through T view w' (at_Namespace atom)) (url_Path address) (rt_Middlewares route) = ''/'' @ dl_Data l"
proof -
  obtain c G where G: "getDownloadLinkGroups (GetDownloadLinks atom) = Ret G"
    and settled: "all_settled view (plan_others E atom oi c G) w'"
    by (rule Reconcile_settles [OF assms(2-7)]) blast
  obtain ingress route where
    stored: "view w' (IngressRouteKind, at_Namespace atom, at_Name atom @ nameSuffix) = Some (KIngressRoute ingress)"
      "route \<in> set (ir_Routes (ob_Spec ingress))" "rt_Match route = getMatchRule (JoinPath u [''downloads/'']) True"
      "foldl (through T view w' (at_Namespace atom)) (url_Path (download_address u l)) (rt_Middlewares route) = ''/'' @ dl_Data l"
    unfolding download_address_plain(1) [OF assms(13,14)]
    by (rule download_served [OF assms(1,3) G settled assms(8-12), unfolded downloads_dir_def, simplified])
      (use assms(15,16) in \<open>auto simp: downloads_dir_def\<close>)
  have "getDownloadLinkHref l atom = ok (url_String (download_address u l))"
    if "iru_URL i = sv_BaseURL (at_Service atom)"
    using that published_address [OF G assms(9)] assms(12) by simp
  then show ?thesis
    using stored download_address_plain(2-4) [OF assms(13,14)] by blast
qed

theorem download_request_reaches_blob_witness:
  "\<exists>w'. \<exists>route :: Route. Reconcile ex_env (''ns'', ''top'') 0 ex_world = (None, w') \<and>
     foldl (through ex_rewrite ex_view w' ''ns'') ''/a/downloads/f.zip'' (rt_Middlewares route) = ''/blobs/f.zip''"
proof -
  obtain w' where run: "Reconcile ex_env (''ns'', ''top'') 0 ex_world = (None, w')"
    using ex_reconciles by blast
  have found: "GetAtom (ev_client ex_env) ex_world (''ns'', ''top'') = Inr ex_atom"
    "GetOwnerInfo (ev_client ex_env) ex_world (at_Namespace ex_atom, sv_OwnerInfoRef (at_Service ex_atom)) = Inr ex_owner"
    using ex_found by (simp_all add: ex_world_def ex_keys)
  have exact: "exact_contract (ev_client ex_env) ex_view" by (simp add: ex_exact)
  have parts: "blob_prefix ex_link = ''blobs''" "blob_name ex_link = ''f.zip''"
    "blob_prefix (ex_link\<lparr>dl_Data := ''blobs/g.zip''\<rparr>) = ''blobs''"
    using blob_parts_append [of ex_link "''blobs''" "''f.zip''"]
      blob_parts_append [of "ex_link\<lparr>dl_Data := ''blobs/g.zip''\<rparr>" "''blobs''" "''g.zip''"]
    by (simp_all add: ex_link_def)
  have link: "unshadowed ex_atom ex_link" "ex_link \<in> set (GetDownloadLinks ex_atom)"
    by (simp_all add: unshadowed_def ex_links parts)
  have url: "\<lparr>iru_URL = Some ex_url\<rparr> \<in> set (route_urls ex_atom)" "iru_URL \<lparr>iru_URL = Some ex_url\<rparr> = Some ex_url"
    by (simp_all add: route_urls_def ex_atom_def ex_atom_with_def ex_service_def)
  have once: "\<not> sublist ''/downloads/'' (url_Path ex_url @ ''/'')" "\<not> sublist ''/downloads/'' (''/'' @ dl_Data ex_link)"
    by (simp_all add: ex_url_def ex_link_def sublist_code)
  have segment: "plain_segment (blob_name ex_link)"
    by (simp add: parts plain_segment_def shouldEscape_def alphanum_def less_eq_char_def)
  obtain route :: Route where
    "foldl (through ex_rewrite ex_view w' (at_Namespace ex_atom)) (url_Path (download_address ex_url ex_link))
      (rt_Middlewares route) = ''/'' @ dl_Data ex_link"
    using download_request_reaches_blob [OF ex_rewrite_contract exact ex_sound_env found ex_not_expired run
        ex_plain_downloads(1) link(2,1) url ex_plain segment once]
    by blast
  then have "foldl (through ex_rewrite ex_view w' ''ns'') ''/a/downloads/f.zip'' (rt_Middlewares route) = ''/blobs/f.zip''"
    unfolding download_address_plain(1) [OF ex_plain segment]
    by (simp add: ex_keys parts) (simp add: ex_url_def ex_link_def downloads_dir_def)
  with run show ?thesis by (intro exI [of _ w'] exI [of _ route] conjI)
qed

text \<open>
  C24. The first middleware on the route with a file whose expression matches the beginning of the requested
  name decides, also when the link is in another group: the file \<open>f\<close> of one prefix takes the requests for the
  file \<open>f2\<close> of another one, since the expressions are not anchored at their end.
\<close>

theorem first_matching_group_decides:
  assumes "rewrite_contract T" and "ownership_contract (ev_libs E)"
    and "list_all has_blob_key (GetDownloadLinks atom)" and "getDownloadLinkGroups (GetDownloadLinks atom) = Ret G"
    and "\<forall>x\<in>set G. settled view (plan_download E atom x) w" and "plain_downloads atom"
    and "plain_text n" and "slash \<notin> set n" and "U \<in> set (route_paths atom)"
    and "\<not> sublist ''/downloads/'' (U @ ''/'')" and "\<not> sublist ''/downloads/'' (''/'' @ fst x @ ''/'' @ n)"
    and "x \<in> set G" and "set pre \<subseteq> set G" and "set post \<subseteq> set G"
    and "list_ex (\<lambda>f. pat_prefix f n) (lg_files (snd x))"
    and "\<forall>y\<in>set pre. \<not> list_ex (\<lambda>f. pat_prefix f n) (lg_files (snd y))"
  shows "foldl (through T view w (at_Namespace atom)) (U @ ''/downloads/'' @ n)
    (map (\<lambda>x. ob_Name (getBareDownloadLinkMiddleware atom (the (lg_index (snd x))))) (pre @ x # post)) =
      ''/'' @ fst x @ ''/'' @ n"
  using first_match_decides [OF assms(1-9) _ _ assms(12-16)] assms(10,11)
  by (simp add: downloads_dir_def download_key_def)

theorem first_matching_group_decides_witness:
  "\<exists>w. fst (reconcile_found ex_env 0 ex_shadowed ex_owner ex_world) = Ret None \<and>
     foldl (through ex_rewrite ex_view w ''ns'') ''/a/downloads/f2''
       [''top-atom-downloads-0'', ''top-atom-downloads-1''] = ''/p/f2''"
proof -
  have exact: "exact_contract (ev_client ex_env) ex_view" by (simp add: ex_exact)
  obtain rs w where run: "createOrUpdateAllForAtom ex_env ex_shadowed ex_owner (Map.empty, ex_world) = (ok (), (rs, w))"
    using ex_shadowed_runs by blast
  obtain c G where G: "getDownloadLinkGroups (GetDownloadLinks ex_shadowed) = Ret G"
    and settled: "all_settled ex_view (plan_others ex_env ex_shadowed ex_owner c G) w"
    by (rule createOrUpdateAll_settles [OF exact ex_sound_env run]) blast
  have keys: "list_all has_blob_key (GetDownloadLinks ex_shadowed)"
    by (simp add: ex_shadowed_links has_blob_key_def)
  have Geq: "G = [(''p'', \<lparr>lg_index = Some 0, lg_files = [''f'']\<rparr>), (''q'', \<lparr>lg_index = Some 1, lg_files = [''f2'']\<rparr>)]"
    using G by (simp add: ex_shadowed_groups)
  have downloads: "\<forall>x\<in>set G. settled ex_view (plan_download ex_env ex_shadowed x) w"
    using settled by (auto simp: plan_others_def all_settled_def list_all_iff)
  have "\<not> ttlExpired ex_shadowed 0" by (simp add: ttlExpired_def ex_shadowed_def)
  then have "fst (reconcile_found ex_env 0 ex_shadowed ex_owner ex_world) = Ret None"
    by (simp add: reconcile_found_def run)
  moreover have "plain_text ''f2''" "''/a'' \<in> set (route_paths ex_shadowed)"
    "pat_prefix ''f'' ''f2''" "at_Namespace ex_shadowed = ''ns''" "at_Name ex_shadowed = ''top''"
    "\<not> sublist ''/downloads/'' (''/a'' @ ''/'')" "\<not> sublist ''/downloads/'' (''/'' @ ''p'' @ ''/'' @ ''f2'')"
    by (simp_all add: plain_char_def shouldEscape_def alphanum_def less_eq_char_def route_paths_def route_urls_def
        ex_shadowed_def ex_atom_def ex_defs pat_prefix_def char_matches_def sublist_code)
  moreover have "downloadsSuffix @ itoa 0 = ''-atom-downloads-0''" "downloadsSuffix @ itoa 1 = ''-atom-downloads-1''"
    by (simp_all add: downloadsSuffix_def ex_itoa)
  ultimately show ?thesis
    using first_matching_group_decides [OF ex_rewrite_contract _ keys G downloads ex_plain_downloads(2),
        of "''f2''" "''/a''" "G ! 0" "[]" "[G ! 1]"] ex_libs_contracts(2)
    by (intro exI [of _ w]) (auto simp: Geq getBareDownloadLinkMiddleware_def)
qed

section \<open>The objects\<close>

text \<open>
  C22. The Service and the PodDisruptionBudget select the pods of the Deployment: the three selectors
  are the same, and the labels of the pod template satisfy it, whatever labels were there. The name of
  the Atom is not part of it: they also select the pods of another Atom exactly when the labels of the
  one are among those of the other.
\<close>

theorem selectors_match_pods:
  assumes "labels_contract L" and "ownership_contract L"
    and "mutateDeployment r L atom d c = Ret (d', None)"
    and "mutateService L atom s = Ret (s', None)"
    and "mutatePodDisruptionBudget L atom p = Ret (p', None)"
    and "mutateDeployment r L other (getBareDeployment other) c2 = Ret (d2, None)"
  shows "\<exists>sel. dp_Selector (ob_Spec d') = Some sel \<and> ks_Selector (ob_Spec s') = ls_MatchLabels sel \<and>
    pdb_Selector (ob_Spec p') = Some sel \<and> ls_MatchLabels sel \<subseteq>\<^sub>m pt_Labels (dp_Template (ob_Spec d')) \<and>
    (ls_MatchLabels sel \<subseteq>\<^sub>m pt_Labels (dp_Template (ob_Spec d2)) \<longleftrightarrow>
      at_Labels atom ++ defaultLabels \<subseteq>\<^sub>m at_Labels other ++ defaultLabels)"
proof -
  have "pt_Labels (dp_Template (ob_Spec d2)) = at_Labels other ++ defaultLabels"
    using deployment_template_labels [OF assms(1,2,6)]
    by (simp add: getBareDeployment_def zero_DeploymentBody_def zero_PodTemplateSpec_def)
  then show ?thesis
    using selectors(1) [OF assms(2,3)] selectors(2) [OF assms(2,4)] selectors(3) [OF assms(2,5)]
      deployment_selector_template [OF assms(1-3)] getLabelSelector_lookup [OF assms(1), of atom] by simp
qed

theorem selectors_match_pods_witness:
  "\<exists>s' d2. mutateService ex_libs ex_atom (getBareService ex_atom) = Ret (s', None) \<and>
     mutateDeployment (ev_reconciler ex_env) ex_libs ex_neighbour (getBareDeployment ex_neighbour) ''c'' = Ret (d2, None) \<and>
     ks_Selector (ob_Spec s') \<subseteq>\<^sub>m pt_Labels (dp_Template (ob_Spec d2))"
proof -
  obtain d' s' p' d2 where run:
    "mutateDeployment (ev_reconciler ex_env) ex_libs ex_atom (getBareDeployment ex_atom) ''c'' = Ret (d', None)"
    "mutateService ex_libs ex_atom (getBareService ex_atom) = Ret (s', None)"
    "mutatePodDisruptionBudget ex_libs ex_atom (getBarePodDisruptionBudget ex_atom) = Ret (p', None)"
    "mutateDeployment (ev_reconciler ex_env) ex_libs ex_neighbour (getBareDeployment ex_neighbour) ''c'' = Ret (d2, None)"
    using ex_bare_runs [OF ex_atom_complete] ex_bare_runs(1) [OF ex_neighbour_complete] by metis
  have "at_Labels ex_neighbour = at_Labels ex_atom" by (simp add: ex_neighbour_def)
  with selectors_match_pods [OF ex_libs_contracts(1,2) run]
  have "ks_Selector (ob_Spec s') \<subseteq>\<^sub>m pt_Labels (dp_Template (ob_Spec d2))" by auto
  with run(2,4) show ?thesis by (intro exI conjI)
qed

text \<open>
  C18. Every mutate function is idempotent: on the object that a run without an error left behind, it
  succeeds and changes nothing.
\<close>

theorem mutate_functions_idempotent:
  assumes "labels_contract L" and "ownership_contract L" and "hash_contract L"
  shows "(mutateAtomGeneratorConfigMap L G v atom oi c = Ret (c', None) \<longrightarrow>
      mutateAtomGeneratorConfigMap L G v atom oi c' = Ret (c', None)) \<and>
    (mutateDeployment r L atom d name = Ret (d', None) \<longrightarrow> mutateDeployment r L atom d' name = Ret (d', None)) \<and>
    (mutateService L atom s = Ret (s', None) \<longrightarrow> mutateService L atom s' = Ret (s', None)) \<and>
    (mutateStripPrefixMiddleware L atom m1 = Ret (m1', None) \<longrightarrow>
      mutateStripPrefixMiddleware L atom m1' = Ret (m1', None)) \<and>
    (mutateHeadersMiddleware L atom m2 csp = Ret (m2', None) \<longrightarrow>
      mutateHeadersMiddleware L atom m2' csp = Ret (m2', None)) \<and>
    (mutateDownloadLinkMiddleware L atom pfx files m3 = Ret (m3', None) \<longrightarrow>
      mutateDownloadLinkMiddleware L atom pfx files m3' = Ret (m3', None)) \<and>
    (mutateIngressRoute ord L atom i = Ret (i', None) \<longrightarrow> mutateIngressRoute ord L atom i' = Ret (i', None)) \<and>
    (mutatePodDisruptionBudget L atom p = Ret (p', None) \<longrightarrow>
      mutatePodDisruptionBudget L atom p' = Ret (p', None))"
  by (intro conjI impI deploymentm.idempotent servicem.idempotent stripm.idempotent headersm.idempotent
      downloadm.idempotent ingressm.idempotent pdbm.idempotent mutateConfigMap_idem [OF assms] assms(1,2))

theorem mutate_functions_idempotent_witness:
  "\<exists>d'. mutateDeployment (ev_reconciler ex_env) ex_libs ex_atom (getBareDeployment ex_atom) ''c'' = Ret (d', None) \<and>
     mutateDeployment (ev_reconciler ex_env) ex_libs ex_atom d' ''c'' = Ret (d', None)"
proof -
  obtain d' where run:
    "mutateDeployment (ev_reconciler ex_env) ex_libs ex_atom (getBareDeployment ex_atom) ''c'' = Ret (d', None)"
    using ex_bare_runs(1) [OF ex_atom_complete] by blast
  from mutate_functions_idempotent [OF ex_libs_contracts(1-3), THEN conjunct2, THEN conjunct1, THEN mp, OF run] run
  show ?thesis by blast
qed

text \<open>
  C23. Every mutate function keeps the labels that others put on its object,
  except for those of the Atom, which win over them, and the label of the application, which wins over
  both; and it keeps the name and the namespace, so that the object stays the one that was asked for. Only
  the ConfigMap changes its name, by the hash of its contents, which leaves alone the name that has it.
\<close>

theorem mutate_functions_labels:
  assumes "labels_contract L" and "ownership_contract L" and "hash_contract L"
  shows "(mutateAtomGeneratorConfigMap L G v atom oi c = Ret (c', None) \<longrightarrow>
      ob_Labels c' = ob_Labels c ++ at_Labels atom ++ defaultLabels \<and>
      ob_Namespace c' = ob_Namespace c \<and> AddHashSuffix L c' = (c', None)) \<and>
    (mutateDeployment r L atom d name = Ret (d', None) \<longrightarrow>
      ob_Labels d' = ob_Labels d ++ at_Labels atom ++ defaultLabels \<and>
      ob_Name d' = ob_Name d \<and> ob_Namespace d' = ob_Namespace d) \<and>
    (mutateService L atom s = Ret (s', None) \<longrightarrow>
      ob_Labels s' = ob_Labels s ++ at_Labels atom ++ defaultLabels \<and>
      ob_Name s' = ob_Name s \<and> ob_Namespace s' = ob_Namespace s) \<and>
    (mutateStripPrefixMiddleware L atom m1 = Ret (m1', None) \<longrightarrow>
      ob_Labels m1' = ob_Labels m1 ++ at_Labels atom ++ defaultLabels \<and>
      ob_Name m1' = ob_Name m1 \<and> ob_Namespace m1' = ob_Namespace m1) \<and>
    (mutateHeadersMiddleware L atom m2 csp = Ret (m2', None) \<longrightarrow>
      ob_Labels m2' = ob_Labels m2 ++ at_Labels atom ++ defaultLabels \<and>
      ob_Name m2' = ob_Name m2 \<and> ob_Namespace m2' = ob_Namespace m2) \<and>
    (mutateDownloadLinkMiddleware L atom pfx files m3 = Ret (m3', None) \<longrightarrow>
      ob_Labels m3' = ob_Labels m3 ++ at_Labels atom ++ defaultLabels \<and>
      ob_Name m3' = ob_Name m3 \<and> ob_Namespace m3' = ob_Namespace m3) \<and>
    (mutateIngressRoute ord L atom i = Ret (i', None) \<longrightarrow>
      ob_Labels i' = ob_Labels i ++ at_Labels atom ++ defaultLabels \<and>
      ob_Name i' = ob_Name i \<and> ob_Namespace i' = ob_Namespace i) \<and>
    (mutatePodDisruptionBudget L atom p = Ret (p', None) \<longrightarrow>
      ob_Labels p' = ob_Labels p ++ at_Labels atom ++ defaultLabels \<and>
      ob_Name p' = ob_Name p \<and> ob_Namespace p' = ob_Namespace p)"
  using mutateConfigMap_ok(3,4,6) [OF assms] getObjectLabels_lookup [OF assms(1), of atom "ob_Labels c"]
    deploymentm.sets_labels [OF assms(1,2)] deploymentm.keeps_key [OF assms(2)]
    servicem.sets_labels [OF assms(1,2)] servicem.keeps_key [OF assms(2)]
    stripm.sets_labels [OF assms(1,2)] stripm.keeps_key [OF assms(2)]
    headersm.sets_labels [OF assms(1,2)] headersm.keeps_key [OF assms(2)]
    downloadm.sets_labels [OF assms(1,2)] downloadm.keeps_key [OF assms(2)]
    ingressm.sets_labels [OF assms(1,2)] ingressm.keeps_key [OF assms(2)]
    pdbm.sets_labels [OF assms(1,2)] pdbm.keeps_key [OF assms(2)]
  by simp

theorem mutate_functions_labels_witness:
  "\<exists>d'. mutateService ex_libs ex_atom (getBareService ex_atom) = Ret (d', None) \<and>
     ob_Labels d' = ob_Labels (getBareService ex_atom) ++ at_Labels ex_atom ++ defaultLabels"
proof -
  obtain d' where run: "mutateService ex_libs ex_atom (getBareService ex_atom) = Ret (d', None)"
    using ex_bare_runs(2) [OF ex_atom_complete] by blast
  from mutate_functions_labels [OF ex_libs_contracts(1-3), THEN conjunct2, THEN conjunct2, THEN conjunct1, THEN mp, OF run]
    run
  show ?thesis by blast
qed

section \<open>The conversion\<close>

text \<open>
  C31. \<open>ConvertFrom\<close> never returns an error, but it panics exactly when the Atom lacks one of the fields
  it dereferences: the metadata links of the service or of a dataset feed, which the schema has as
  optional, the address of a link, or the URI of a reference system.
\<close>

theorem ConvertFrom_panics_iff:
  "panics (ConvertFrom V src a) \<longleftrightarrow>
     sv_ServiceMetadataLinks (at_Service src) = None \<or>
     (\<exists>f\<in>set (at_DatasetFeeds src). df_DatasetMetadataLinks f = None \<or>
        (\<exists>l\<in>set (df_Links f). ln_Href l = None) \<or> (\<exists>e\<in>set (df_Entries f). srs_URI (en_SRS e) = None))"
  by (simp add: panics_ConvertFrom convertible_def feed_convertible_def list_all_iff)

text \<open>
  C15. There and back: when \<open>ToV3\<close> converts an Atom without an error into a destination without a
  lifecycle, and the URLs and numbers of its datasets print as they were written (\<open>stable_dataset\<close>),
  \<open>ConvertFrom\<close> neither fails nor panics on the result, and gives back the Atom in the form \<open>back_atom\<close>.
  Not all that this form changes is without a place in v3. The author becomes the default one, although v3
  stores it with every dataset feed: \<open>ConvertFrom\<close> does not read it. The time to live is cut to 32 bits. The
  rest has no place there: the fields of \<open>General\<close> come from the labels; the autoscaling, health checks and resources, the time
  stamp of the service, the versions of the links and the bounding box of a dataset without downloads are
  lost; every download has a time stamp, in the printed form; and absent blob keys and content types
  are empty ones.
\<close>

theorem conversion_there_and_back:
  assumes "pointer_contract V" and "list_all (stable_dataset V) (be_Datasets (bt_Service a))"
    and "as_Lifecycle (at_Spec dst) = None" and "ToV3 V vars now a dst = (None, dst')"
  shows "ConvertFrom V dst' a0 = Ret (back_atom now a a0)"
  by (rule ConvertFrom_ToV3 [OF assms])

theorem conversion_there_and_back_witness:
  "\<exists>dst'. ToV3 ex_conv ex_beta_vars ex_now ex_beta ex_atom = (None, dst') \<and>
     ConvertFrom ex_conv dst' ex_beta = Ret (back_atom ex_now ex_beta ex_beta)"
proof -
  obtain dst' where run: "ToV3 ex_conv ex_beta_vars ex_now ex_beta ex_atom = (None, dst')"
    using ex_ToV3 by blast
  have "list_all (stable_dataset ex_conv) (be_Datasets (bt_Service ex_beta))"
    and "as_Lifecycle (at_Spec ex_atom) = None"
    by (simp_all add: ex_stable ex_beta_def ex_beta_with_def ex_atom_def ex_atom_with_def)
  from conversion_there_and_back [OF ex_pointer_contract this run] run show ?thesis by blast
qed

text \<open>
  C36. A time to live survives the way there and back exactly when it fits 32 bits: \<open>ToV3\<close> cuts off the
  upper half of a larger one without an error.
\<close>

theorem ttl_survives_iff_32_bits:
  assumes "pointer_contract V" and "list_all (stable_dataset V) (be_Datasets (bt_Service a))"
    and "as_Lifecycle (at_Spec dst) = None" and "ToV3 V vars now a dst = (None, dst')"
    and "ConvertFrom V dst' a0 = Ret a'" and "beta_ttl a = Some ttl"
  shows "beta_ttl a' = Some ttl \<longleftrightarrow> - (2 ^ 31) \<le> sint ttl \<and> sint ttl < 2 ^ 31"
proof -
  have "a' = back_atom now a a0"
    using ConvertFrom_ToV3 [OF assms(1-4), of a0] assms(5) by simp
  then have "beta_ttl a' = Some (scast (ucast ttl :: 32 word))"
    by (simp add: beta_ttl_back assms(6))
  then show ?thesis using ttl_roundtrip [of ttl] by simp
qed

theorem ttl_survives_iff_32_bits_witness:
  "\<exists>dst' a'. ToV3 ex_conv ex_beta_vars ex_now ex_beta ex_atom = (None, dst') \<and>
     ConvertFrom ex_conv dst' ex_beta = Ret a' \<and> beta_ttl a' = Some 7"
proof -
  obtain dst' where run: "ToV3 ex_conv ex_beta_vars ex_now ex_beta ex_atom = (None, dst')"
    using ex_ToV3 by blast
  have pre: "list_all (stable_dataset ex_conv) (be_Datasets (bt_Service ex_beta))"
    "as_Lifecycle (at_Spec ex_atom) = None" "beta_ttl ex_beta = Some 7"
    by (simp_all add: ex_stable ex_beta_def ex_beta_with_def ex_atom_def ex_atom_with_def beta_ttl_def)
  obtain a' where conv: "ConvertFrom ex_conv dst' ex_beta = Ret a'"
    using ConvertFrom_ToV3 [OF ex_pointer_contract pre(1,2) run] by blast
  show ?thesis
    using ttl_survives_iff_32_bits [OF ex_pointer_contract pre(1,2) run conv pre(3)] run conv by auto
qed

text \<open>
  C32. When a dataset does not convert, \<open>ToV3\<close> returns its error with the destination partly written:
  the feeds of the datasets before it are there, converted, and no more.
\<close>

theorem failed_ToV3_leaves_prefix:
  assumes "ToV3 V vars now a dst = (Some e, dst')"
    and "createBaseURL V (GetBaseURL vars) (bs_General (bt_Spec a)) = Inr b"
  shows "\<exists>n < length (be_Datasets (bt_Service a)).
    dataset_toV3 V now (bt_Service a) n (be_Datasets (bt_Service a) ! n) = Inl e \<and>
    length (at_DatasetFeeds dst') = n \<and>
    (\<forall>j<n. dataset_toV3 V now (bt_Service a) j (be_Datasets (bt_Service a) ! j) = Inr (at_DatasetFeeds dst' ! j))"
  by (rule ToV3_partial [OF assms])

theorem failed_ToV3_leaves_prefix_witness:
  "\<exists>e dst'. ToV3 ex_conv ex_beta_vars ex_now ex_beta_broken ex_atom = (Some e, dst') \<and>
     length (at_DatasetFeeds dst') < 2"
proof -
  obtain e dst' b where run: "ToV3 ex_conv ex_beta_vars ex_now ex_beta_broken ex_atom = (Some e, dst')"
    and b: "createBaseURL ex_conv (GetBaseURL ex_beta_vars) (bs_General (bt_Spec ex_beta_broken)) = Inr b"
    using ex_ToV3_broken by blast
  have "length (be_Datasets (bt_Service ex_beta_broken)) = 2"
    by (simp add: ex_beta_broken_def ex_beta_with_def)
  with failed_ToV3_leaves_prefix [OF run b] run show ?thesis by auto
qed

text \<open>
  C38. The base URL of a converted Atom is the configured URL, read with \<open>url.Parse\<close>, with the owner, the
  dataset, the theme, \<open>atom\<close> and the version as path segments behind its text, when they need no escaping;
  the optional ones are left out. The configured URL may have no path.
\<close>

theorem base_url_of_converted:
  assumes "plain_origin scheme name port" and "list_all plain_segment segs"
    and "list_all plain_segment (general_segments g)"
  shows "\<exists>u. createBaseURL V (origin_text scheme name port segs) g = Inr (Some u) \<and>
    url_String u = origin_text scheme name port (segs @ general_segments g)"
  by (rule createBaseURL_plain [OF assms])

theorem base_url_of_converted_witness:
  "\<exists>u. createBaseURL ex_conv ''https://host/a'' (bs_General (bt_Spec ex_beta)) = Inr (Some u) \<and>
     url_String u = ''https://host/a/owner/set/theme/atom/v1''"
proof -
  have "origin_text ''https'' ''host'' [] ([''a''] @ general_segments (bs_General (bt_Spec ex_beta))) =
      ''https://host/a/owner/set/theme/atom/v1''"
    by (simp add: ex_beta_def ex_beta_with_def general_segments_def abs_path_def origin_text_def)
  with base_url_of_converted [OF ex_origin(1,3) ex_beta_segments [of "[ex_dataset]"], of ex_conv] show ?thesis
    unfolding ex_origin(2) ex_beta_def by simp
qed

text \<open>
  C37. A download whose time stamp is in the form the operator prints keeps it on the way to v3 and back,
  whenever the conversion runs: parsing RFC 3339 inverts printing for years of four digits and zones of
  whole minutes below 25 hours. A fraction of a second is lost, as printing drops it.
\<close>

theorem stamp_there_and_back:
  assumes "do_Updated x = Some (FormatRFC3339 t)"
    and "0 \<le> time_Year t" and "time_Year t < 10000"
    and "time_Offset t mod 60 = 0" and "\<bar>time_Offset t\<bar> < 90000"
    and "entry_toV3 V now s d i x = Inr e" and "entry_fromV3 V e = Ret x'"
  shows "do_Updated x' = do_Updated x"
  using entry_stamp_back [OF assms(6,7)] stamp_back [OF assms(1-5)] assms(1) by simp

theorem stamp_there_and_back_witness:
  "\<exists>e x'. entry_toV3 ex_conv (\<lambda>i. ex_now 0 i) (bt_Service ex_beta) ex_dataset 0
       (ex_download\<lparr>do_Updated := Some ''2006-01-02T08:04:05-07:00''\<rparr>) = Inr e \<and>
     entry_fromV3 ex_conv e = Ret x' \<and> do_Updated x' = Some ''2006-01-02T08:04:05-07:00''"
proof -
  let ?t = "\<lparr>time_UnixNano = 1136214245000000000, time_Offset = -25200\<rparr>"
  let ?x = "ex_download\<lparr>do_Updated := Some (FormatRFC3339 ?t)\<rparr>"
  obtain e x' where run: "entry_toV3 ex_conv (\<lambda>i. ex_now 0 i) (bt_Service ex_beta) ex_dataset 0 ?x = Inr e"
    "entry_fromV3 ex_conv e = Ret x'"
    by (simp add: entry_toV3_def entry_fromV3_def ex_conv_def ex_download_def go_simps)
  have "time_Year ?t = 2006" by code_simp
  then have "do_Updated x' = do_Updated ?x"
    by (intro stamp_there_and_back [OF _ _ _ _ _ run, where t = ?t]) simp_all
  with run show ?thesis by (auto simp: FormatRFC3339_offset_example)
qed

text \<open>
  C9. What becomes of a stored v2beta1 Atom can be said of itself, when \<open>ToV3\<close> converts it without an error into a destination
  without URLs of its own, the label and ingress checks of smooth-operator pass, and the OwnerInfo \<open>pdok\<close> in its
  namespace has an author and all three templates. The converted Atom is admitted exactly when its datasets have
  distinct names and metadata identifiers other than the service's, the downloads of a dataset distinct
  names, and every download with several links a content. It is reconciled without an error, unexpired
  and in a cluster as in C1, exactly when
  every link has a blob key with a slash, which neither v2beta1 nor the conversion asks for.
\<close>

theorem converted_atom_reconciles:
  assumes "ToV3 C vars now a dst = (None, atom)" and "as_IngressRouteURLs (at_Spec dst) = None"
    and "pointer_contract C"
    and "ValidateLabelsOnCreate V (om_Labels (bt_ObjectMeta a)) = None"
    and "ValidateIngressRouteURLsContainsBaseURL V None (sv_BaseURL (at_Service atom)) = None"
    and "GetAtom (ev_client E) w req = Inr atom"
    and "GetOwnerInfo (ev_client E) w (om_Namespace (bt_ObjectMeta a), ''pdok'') = Inr oi"
    and "owner_has_templates oi" and "operational E view oi"
    and "consistent view w" and "configMap_intact E view atom oi w"
    and "claimable view atom (run_keys E atom oi) w" and "\<not> ttlExpired atom time"
  shows "(admitted (webhook_ValidateCreate V (GetOwnerInfo (ev_client E) w) (AtomObj atom)) \<longleftrightarrow>
      distinct (map ds_Name (be_Datasets (bt_Service a))) \<and>
      list_all (dataset_ok (be_MetadataIdentifier (bt_Service a))) (be_Datasets (bt_Service a))) \<and>
    (fst (Reconcile E req time w) = None \<longleftrightarrow> beta_keys_valid a)"
  using converted_admitted [where c = "GetOwnerInfo (ev_client E) w", OF assms(1-3,7,8,4,5)]
    converted_reconciles [OF assms(1,2,6-13)] by blast

theorem converted_atom_reconciles_witness:
  "\<exists>atom. ToV3 ex_conv ex_beta_vars ex_now ex_beta ex_atom = (None, atom) \<and>
     admitted (webhook_ValidateCreate ex_validation (GetOwnerInfo (ev_client ex_env) (ex_migrated_world atom))
       (AtomObj atom)) \<and>
     fst (Reconcile ex_env ([], ''top'') 0 (ex_migrated_world atom)) = None"
proof -
  obtain atom where run: "ToV3 ex_conv ex_beta_vars ex_now ex_beta ex_atom = (None, atom)"
    using ex_ToV3 by blast
  have urls: "as_IngressRouteURLs (at_Spec ex_atom) = None"
    by (simp add: ex_atom_def ex_atom_with_def)
  have labels: "ValidateLabelsOnCreate ex_validation ls = None"
    and base: "ValidateIngressRouteURLsContainsBaseURL ex_validation us b = None" for ls us b
    by (simp_all add: ex_validation_def)
  have owner: "GetOwnerInfo (ev_client ex_env) (ex_migrated_world atom)
      (om_Namespace (bt_ObjectMeta ex_beta), ''pdok'') = Inr ex_pdok"
    using ex_migrated_found(2) by (simp add: ex_beta_def ex_beta_with_def zero_ObjectMeta_def)
  note converted_atom_reconciles [OF run urls ex_pointer_contract labels base ex_migrated_found(1) owner
      ex_pdok_templates ex_operational ex_consistent ex_migrated_intact
      ex_migrated_claimable ex_migrated_alive [OF run]]
  moreover have "distinct (map ds_Name (be_Datasets (bt_Service ex_beta)))"
    "list_all (dataset_ok (be_MetadataIdentifier (bt_Service ex_beta))) (be_Datasets (bt_Service ex_beta))"
    by (simp_all add: ex_beta_def ex_beta_with_def ex_dataset_def ex_download_def dataset_ok_def)
  ultimately show ?thesis using run ex_beta_keys by blast
qed

section \<open>The operator in its cluster\<close>

text \<open>
  C2. In every state that can be reached by creating, updating and deleting Atoms through the webhook,
  changing OwnerInfos, and reconciling, in any order, no stored object refers to one that is missing,
  and every stored Atom passes the feed and base URL checks, if that holds at the start. (The garbage
  collection that follows the deletion of an Atom is not among the steps.)
\<close>

theorem reachable_states_invariant:
  assumes "cluster_reachable E V S w0 w" and "server_contract (ev_client E) S view"
    and "client_keeps_specs (ev_client E)" and "sound_env E view"
    and "refs_closed view w0" and "atoms_checked V (ev_client E) w0"
  shows "refs_closed view w \<and> atoms_checked V (ev_client E) w"
  by (rule cluster_reachable_invariants [OF assms])

theorem reachable_states_invariant_witness:
  "refs_closed ex_view (PutOwnerInfo ex_server ex_owner (snd (Reconcile ex_env (''ns'', ''top'') 0 ex_world)))"
proof -
  have reach: "cluster_reachable ex_env ex_validation ex_server ex_world
      (PutOwnerInfo ex_server ex_owner (snd (Reconcile ex_env (''ns'', ''top'') 0 ex_world)))"
    by (intro cluster_reachable.step [OF _ cluster_step.owner] cluster_reachable.step [OF _ cluster_step.reconcile]
        cluster_reachable.start)
  have "refs_closed ex_view ex_world"
    by (simp add: refs_closed_def ex_world_def ex_view_empty)
  from reachable_states_invariant [OF reach _ _ ex_sound_env this] show ?thesis
    by (simp add: ex_server_contract ex_keeps_specs ex_atoms_checked)
qed

text \<open>
  C7. Atoms do not interfere: a reconcile of one Atom, however it ends, leaves the objects of every other Atom
  as they are, since no two Atoms have an object of the same kind, namespace and name: the objects that
  the other Atom has now, the download middlewares it may have had with other links, and every ConfigMap but the
  one whose name ends in the hash of the reconciled Atom's configuration.
\<close>

theorem atoms_do_not_interfere:
  assumes "cluster_contract (ev_client E) view" and "GetAtom (ev_client E) w req = Inr b"
    and "(at_Namespace a, at_Name a) \<noteq> (at_Namespace b, at_Name b)"
    and "k \<in> own_keys a \<or> (\<exists>c. k = kobj_key (KConfigMap c) \<and>
      (\<forall>oi d. GetOwnerInfo (ev_client E) w (at_Namespace b, sv_OwnerInfoRef (at_Service b)) = Inr oi \<longrightarrow>
        configMap_mutator E b oi (getBareConfigMap b) = Ret (d, None) \<longrightarrow> kobj_key (KConfigMap d) \<noteq> k))"
  shows "view (snd (Reconcile E req now w)) k = view w k"
proof -
  have "k \<notin> own_keys b"
    using assms(4) own_keys_disjoint [OF assms(3)] configMap_not_own by blast
  moreover have "kobj_key (KConfigMap d) \<noteq> k"
    if "GetOwnerInfo (ev_client E) w (at_Namespace b, sv_OwnerInfoRef (at_Service b)) = Inr oi"
      "configMap_mutator E b oi (getBareConfigMap b) = Ret (d, None)" for oi d
    using assms(4) that configMap_not_own by metis
  ultimately have "untouched view {k} w (snd (Reconcile E req now w))"
    by (intro Reconcile_untouched [OF assms(1,2)]) auto
  then show ?thesis by (simp add: untouched_def)
qed

theorem atoms_do_not_interfere_witness:
  "ex_view (snd (Reconcile ex_env (''ns'', ''top'') 0 ex_shared_world))
     (kobj_key (KService (getBareService ex_neighbour))) = Some (KService (getBareService ex_neighbour))"
proof -
  have contract: "cluster_contract (ev_client ex_env) ex_view" by (simp add: ex_cluster_contract)
  have mem: "kobj_key (KService (getBareService ex_neighbour)) \<in> own_keys ex_neighbour"
    by (simp add: own_keys_def route_keys_def)
  have "(at_Namespace ex_neighbour, at_Name ex_neighbour) \<noteq> (at_Namespace ex_atom, at_Name ex_atom)"
    by (simp add: ex_neighbour_keys)
  from atoms_do_not_interfere [OF contract ex_kept_found(1) [OF ex_shared_kept] this disjI1 [OF mem], of 0] show ?thesis
    unfolding ex_shared_service .
qed

text \<open>
  C4. A cluster with several Atoms settles: when the Atoms and their OwnerInfos stay as they are, none expires, nobody else writes
  the managed objects, and the manager reconciles the Atoms in any order and as often as it likes, then
  no reconcile of an Atom returns an error at any time; and when each Atom has had a turn in which the
  request for its Deployment did not end in a conflict, then from some time on the managed objects
  never change again, and every object of every Atom is stored. The Atoms need what C1 asks for at the start of the
  run, a server that stores what it is sent and accepts a request that changes nothing, and different hashes of their configurations; they may share namespaces and
  OwnerInfos.
\<close>

theorem fleet_comes_to_rest:
  assumes "fleet_run E view As oi now pick run" and "fleet_ready E view As oi (run 0)"
    and "finite As"
    and "\<And>a. a \<in> As \<Longrightarrow> \<exists>n. pick n = Some a \<and> \<not> deployment_conflict E a (oi a) (run n)"
  shows "(\<forall>n. \<forall>a\<in>As. fst (Reconcile E (at_Namespace a, at_Name a) (now n) (run n)) = None) \<and>
    (\<exists>n0. \<forall>n\<ge>n0. view (run n) = view (run n0) \<and>
      (\<forall>a\<in>As. insert (kobj_key (KDeployment (getBareDeployment a))) (object_keys a) \<subseteq> dom (view (run n))))"
proof -
  have order: "iteration_order (ev_ord E)" if "a \<in> As" for a
    using assms(2) that sound_env_parts(5) [of E view] by (simp add: fleet_ready_def ready_def)
  have "\<exists>n0. \<forall>n\<ge>n0. view (run n) = view (run n0) \<and>
      (\<forall>a\<in>As. insert (kobj_key (KDeployment (getBareDeployment a))) (object_keys a) \<subseteq> dom (view (run n)))"
    using fleet_settles [OF assms] at_rest_stored [OF _ order] by meson
  then show ?thesis using fleet_turn(2) [OF assms(1,2)] by blast
qed

theorem fleet_comes_to_rest_witness:
  "(\<forall>n. fst (Reconcile ex_env (name_of ex_neighbour) 0 (ex_run n)) = None) \<and>
   (\<exists>n0. \<forall>n\<ge>n0. ex_view (ex_run n) = ex_view (ex_run n0) \<and>
     object_keys ex_atom \<union> object_keys ex_neighbour \<subseteq> dom (ex_view (ex_run n)))"
proof -
  have "\<exists>n. Some (ex_pick n) = Some a \<and> \<not> deployment_conflict ex_env a ex_owner (ex_run n)"
    if "a \<in> {ex_atom, ex_neighbour}" for a
    using that ex_no_conflict by (auto simp: ex_pick_def intro: exI [of _ 0] exI [of _ 1])
  from fleet_comes_to_rest [OF ex_fleet_run _ _ this] ex_fleet_ready
  have calm: "\<forall>n. \<forall>a\<in>{ex_atom, ex_neighbour}. fst (Reconcile ex_env (name_of a) 0 (ex_run n)) = None"
    and rest: "\<exists>n0. \<forall>n\<ge>n0. ex_view (ex_run n) = ex_view (ex_run n0) \<and>
      (\<forall>a\<in>{ex_atom, ex_neighbour}. insert (kobj_key (KDeployment (getBareDeployment a))) (object_keys a) \<subseteq>
        dom (ex_view (ex_run n)))"
    by auto
  from rest obtain n0 where "\<forall>n\<ge>n0. ex_view (ex_run n) = ex_view (ex_run n0) \<and>
      (\<forall>a\<in>{ex_atom, ex_neighbour}. insert (kobj_key (KDeployment (getBareDeployment a))) (object_keys a) \<subseteq>
        dom (ex_view (ex_run n)))" ..
  then have "\<exists>n0. \<forall>n\<ge>n0. ex_view (ex_run n) = ex_view (ex_run n0) \<and>
      object_keys ex_atom \<union> object_keys ex_neighbour \<subseteq> dom (ex_view (ex_run n))"
    by (intro exI [of _ n0]) blast
  with calm show ?thesis by blast
qed

section \<open>The generated copies\<close>

text \<open>
  C33. A copy that the API machinery asks for through \<open>DeepCopyObject\<close> is independent of its original: for
  an Atom or a list of them, of either version, the result is the nil interface exactly for a nil pointer,
  otherwise it has the type and the contents of the original; no cell that existed before is changed, and
  later writes to the one do not show in the other.
\<close>

theorem copied_objects_independent:
  assumes "lib_copies L F" and "wf_mem m"
    and "(t, name, copy) \<in> {(Atom_ty F, ''Atom'', Atom_DeepCopyObject L),
      (AtomList_ty F, ''AtomList'', AtomList_DeepCopyObject L),
      (BetaAtom_ty F, ''Atom'', BetaAtom_DeepCopyObject L),
      (BetaAtomList_ty F, ''AtomList'', BetaAtomList_DeepCopyObject L)}"
    and "val m (TPtr t) v = Some x"
  shows "\<exists>c m'. copy v m = Some (if v = Ptr None then None else Some (name, c), m') \<and> grows m m' \<and>
    val m' (TPtr t) c = Some x \<and> independent m (TPtr t) v c m' x"
proof -
  have "\<exists>into. copy = DeepCopyObject name (DeepCopy into) \<and> struct_copier L F t into"
    using assms(3) Atom_copier.struct_copier_axioms AtomList_copier.struct_copier_axioms
      BetaAtom_copier.struct_copier_axioms BetaAtomList_copier.struct_copier_axioms
    by (auto simp: Atom_DeepCopyObject_def Atom_DeepCopy_def AtomList_DeepCopyObject_def AtomList_DeepCopy_def
        BetaAtom_DeepCopyObject_def BetaAtom_DeepCopy_def BetaAtomList_DeepCopyObject_def BetaAtomList_DeepCopy_def)
  then show ?thesis using struct_copier.copies_object [OF _ assms(1,2,4)] by blast
qed

theorem copied_objects_independent_witness:
  "\<exists>c m' x. Atom_DeepCopyObject ex_lib_copy (Ptr (Some 0)) ex_memory = Some (Some (''Atom'', c), m') \<and>
     val m' (TPtr (Atom_ty ex_layout)) c = Some x \<and>
     val (m'\<lparr>cells := (cells m')(1 \<mapsto> [ex_text ''changed''])\<rparr>) (TPtr (Atom_ty ex_layout)) c = Some x"
proof -
  obtain x where x: "val ex_memory (TPtr (Atom_ty ex_layout)) (Ptr (Some 0)) = Some x"
    using ex_memory_typed by blast
  obtain c m' where run: "Atom_DeepCopyObject ex_lib_copy (Ptr (Some 0)) ex_memory = Some (Some (''Atom'', c), m')"
    and copy: "val m' (TPtr (Atom_ty ex_layout)) c = Some x"
    and indep: "independent ex_memory (TPtr (Atom_ty ex_layout)) (Ptr (Some 0)) c m' x"
    using copied_objects_independent [OF ex_lib_copies ex_wf_memory _ x, of "''Atom''" "Atom_DeepCopyObject ex_lib_copy"]
    by auto
  have "same_on {next_addr ex_memory..} m' (m'\<lparr>cells := (cells m')(1 \<mapsto> [ex_text ''changed''])\<rparr>)"
    by (simp add: same_on_def ex_memory_def)
  then have "val (m'\<lparr>cells := (cells m')(1 \<mapsto> [ex_text ''changed''])\<rparr>) (TPtr (Atom_ty ex_layout)) c = Some x"
    using indep unfolding independent_def by blast
  with run copy show ?thesis by blast
qed

text \<open>
  C34. The generated \<open>DeepCopyInto\<close> of each of the 32 struct types does what the declaration of the struct
  asks for: it follows every pointer, copies every slice element by element, calls the copy of a library
  for its structs, and assigns exactly the parts without any of these.
\<close>

theorem generated_copies_follow_types:
  "list_all (\<lambda>(t, into). into = deep L t) (v3_copiers L F @ beta_copiers L F)"
  using v3_copiers_ok [of L F] beta_copiers_ok [of L F] by (auto simp: list_all_iff struct_copier_def)

text \<open>
  C35. The generated copies are type-safe: on a value of its type, in a memory without dangling cells, each of
  them runs through and gives a value of the same type with the same contents, in such a memory again, whose old
  cells are as they were.
\<close>

theorem generated_copies_type_safe:
  assumes "lib_copies L F" and "(t, into) \<in> set (v3_copiers L F @ beta_copiers L F)"
    and "wf_mem m" and "val m t v = Some x"
  shows "\<exists>v' m'. into v m = Some (v', m') \<and> val m' t v' = Some x \<and> wf_mem m' \<and>
    next_addr m \<le> next_addr m' \<and> same_on {..<next_addr m} m m'"
proof -
  have "struct_copier L F t into"
    using assms(2) v3_copiers_ok [of L F] beta_copiers_ok [of L F] by (auto simp: list_all_iff)
  from copies_independent [OF struct_copier.copies_value [OF this assms(1)] assms(3,4)] show ?thesis
    unfolding grows_def by blast
qed

theorem generated_copies_type_safe_witness:
  "\<exists>v' m' x. Link_DeepCopyInto ex_lib_copy ex_heap_link ex_memory = Some (v', m') \<and>
     val m' (Link_ty ex_layout) v' = Some x"
proof -
  have "(Link_ty ex_layout, Link_DeepCopyInto ex_lib_copy) \<in>
      set (v3_copiers ex_lib_copy ex_layout @ beta_copiers ex_lib_copy ex_layout)"
    by (simp add: v3_copiers_def)
  moreover obtain x where "val ex_memory (Link_ty ex_layout) ex_heap_link = Some x"
    using ex_link_typed by blast
  ultimately show ?thesis using generated_copies_type_safe [OF ex_lib_copies _ ex_wf_memory] by blast
qed

section \<open>Start-up\<close>

text \<open>
  C25. When the manager runs, start-up has set everything that the operator relies on: the four required
  flags have values, the base URL is stored without its trailing slash, the blob endpoint as it is, the
  reconciler has its images and its policy, the webhook is registered unless the environment says
  otherwise, both health checks are, and without \<open>enable-http2\<close> the servers only speak HTTP/1.1.
\<close>

theorem startup_sets_everything:
  assumes "main L ord fresh_boot = (e, s)" and "bo_started s" and "\<And>xs. mset (ord xs) = mset xs"
  shows "\<exists>v. ff_Parse L registered_flags = Inr v \<and>
    (let f = bind_flags v in
       (\<forall>x\<in>set (reqFlags f). snd x \<noteq> []) \<and>
       GetBaseURL (bo_vars s) = str_TrimSuffix (fg_baseURL f) ''/'' \<and>
       GetBlobEndpoint (bo_vars s) = fg_blobEndpoint f \<and>
       bo_controller s = Some \<lparr>rc_AtomGeneratorImage = fg_atomGeneratorImage f,
         rc_LighttpdImage = fg_lighttpdImage f, rc_CSP = fg_csp f\<rparr> \<and>
       (bo_webhook s \<longleftrightarrow> Getenv L ''ENABLE_WEBHOOKS'' \<noteq> ''false'') \<and>
       bo_checks s = [''healthz'', ''readyz''] \<and>
       (\<exists>m. bo_manager s = Some m \<and> (\<not> fg_enableHTTP2 f \<longrightarrow>
          (\<forall>c. tls_NextProtos (foldl (\<lambda>c opt. opt c) c (mo_MetricsTLSOpts m)) = [''http/1.1''] \<and>
               tls_NextProtos (foldl (\<lambda>c opt. opt c) c (mo_WebhookTLSOpts m)) = [''http/1.1'']))))"
proof -
  obtain v where v: "ff_Parse L registered_flags = Inr v" "list_all (\<lambda>x. snd x \<noteq> []) (reqFlags (bind_flags v))"
    and run: "start_manager L (bind_flags v)
      (fresh_boot\<lparr>bo_vars := \<lparr>av_baseURL = str_TrimSuffix (fg_baseURL (bind_flags v)) ''/'',
         av_blobEndpoint = fg_blobEndpoint (bind_flags v)\<rparr>\<rparr>) = (e, s)"
    using main_started [OF assms] .
  have "\<not> bo_started (fresh_boot\<lparr>bo_vars := x\<rparr>)" "\<not> bo_webhook (fresh_boot\<lparr>bo_vars := x\<rparr>)" for x
    by (simp_all add: fresh_boot_def)
  note s = start_manager_started(1) [OF run assms(2) this]
  show ?thesis
    by (intro exI [of _ v] conjI v(1), unfold Let_def, intro conjI)
      (use v(2) in \<open>simp_all add: s list_all_iff GetBaseURL_def GetBlobEndpoint_def reconciler_of_def
        manager_options_of_def tlsOpts_def disableHTTP2_def fresh_boot_def\<close>)
qed

theorem startup_sets_everything_witness:
  "\<exists>s. main (ex_boot ''httpd'') rev fresh_boot = (Returned, s) \<and> GetBaseURL (bo_vars s) = ''https://host''"
proof -
  obtain s where s: "main (ex_boot ''httpd'') rev fresh_boot = (Returned, s)" "bo_started s"
    using ex_started by blast
  have "ff_Parse (ex_boot ''httpd'') registered_flags = Inr (ex_values ''httpd'')"
    by (simp add: ex_boot_def)
  with startup_sets_everything [OF s]
  have "GetBaseURL (bo_vars s) = str_TrimSuffix (fg_baseURL (bind_flags (ex_values ''httpd''))) ''/''"
    unfolding Let_def by auto
  also have "\<dots> = ''https://host''"
    by (simp add: ex_flags str_TrimSuffix_def str_HasSuffix_def suffix_def)
  finally show ?thesis using s(1) by blast
qed

text \<open>
  C26. Without a value for one of the required flags the process ends with status 1 and has set nothing up,
  whatever the order in which the flags are looked at; the message names a flag that has no value.
\<close>

theorem startup_needs_required_flags:
  assumes "ff_Parse L registered_flags = Inr v" and "(name, []) \<in> set (reqFlags (bind_flags v))"
    and "\<And>xs. mset (ord xs) = mset xs"
  shows "\<exists>n. (n, []) \<in> set (reqFlags (bind_flags v)) \<and>
    main L ord s = (Exit1 (''A value for '' @ n @ '' must be specified.''), s)"
proof -
  have same: "set (ord (reqFlags (bind_flags v))) = set (reqFlags (bind_flags v))"
    using assms(3) by (rule mset_eq_setD)
  have "missing_flag (ord (reqFlags (bind_flags v))) \<noteq> None"
    using assms(2) missing_flag_order [of ord, OF assms(3)] by (force simp: list_all_iff)
  then obtain n where "(n, []) \<in> set (ord (reqFlags (bind_flags v)))"
    "missing_flag (ord (reqFlags (bind_flags v))) = Some (''A value for '' @ n @ '' must be specified.'')"
    using missing_flag_Some by blast
  then show ?thesis
    unfolding same by (intro exI [of _ n]) (simp add: main_def assms(1) Let_def)
qed

theorem startup_needs_required_flags_witness:
  "\<exists>n. main (ex_boot []) rev fresh_boot = (Exit1 (''A value for '' @ n @ '' must be specified.''), fresh_boot)"
proof -
  have "ff_Parse (ex_boot []) registered_flags = Inr (ex_values [])" by (simp add: ex_boot_def)
  moreover have "(''lighttpd-image'', []) \<in> set (reqFlags (bind_flags (ex_values [])))"
    by (simp add: reqFlags_def ex_flags)
  ultimately show ?thesis using startup_needs_required_flags [of "ex_boot []" "ex_values []" _ rev] by auto
qed

end
